theory Spec2Isabelle
  imports Main "HOL-Library.Char_ord" "HOL-Library.List_Lexorder"
begin

section \<open>Empire OS: the offline-first journal core\<close>

text \<open>
  A shallow embedding of the JavaScript modules \<^verbatim>\<open>storage.js\<close>, \<^verbatim>\<open>index.js\<close>,
  \<^verbatim>\<open>github.js\<close>, \<^verbatim>\<open>journal.js\<close>, \<^verbatim>\<open>export.js\<close> and \<^verbatim>\<open>app.js\<close>.

  Conventions of the embedding.
  \<^item> A JavaScript string is a \<open>string\<close>: a list of 8-bit characters, each read as one
    UTF-16 code unit in the range U+0000..U+00FF.
  \<^item> Module-level variables and \<^verbatim>\<open>localStorage\<close> are explicit state, passed in and
    returned.
  \<^item> \<^verbatim>\<open>localStorage\<close> is taken to be reliable: \<^verbatim>\<open>setItem\<close> stores what it is given and
    \<^verbatim>\<open>getItem\<close> reads it back (the quota and parse failures that \<^verbatim>\<open>storage.js\<close>
    catches are not modelled).
  \<^item> \<^verbatim>\<open>Date.now()\<close>, \<^verbatim>\<open>navigator.onLine\<close> and the answers of the remote store are inputs.
  \<^item> Calls into the presentation layer (toasts, status badge) have no effect on the
    state modelled here and are left out.
\<close>

subsection \<open>storage.js: the local cache\<close>

text \<open>
  One cached entry, \<^verbatim>\<open>{ markdown, sha, synced, updatedAt, syncedAt }\<close>. A field that is
  \<^verbatim>\<open>undefined\<close> or \<^verbatim>\<open>null\<close> is \<open>None\<close>.
\<close>

record cache_record =
  markdown :: "string option"
  sha :: "string option"
  synced :: bool
  updatedAt :: nat
  syncedAt :: "nat option"

text \<open>
  The three \<^verbatim>\<open>localStorage\<close> keys the core uses: \<^verbatim>\<open>empire_entries\<close> (an object keyed
  by date), \<^verbatim>\<open>empire_pending\<close> and \<^verbatim>\<open>empire_index\<close> (arrays of dates).
\<close>

record storage =
  entries :: "string \<rightharpoonup> cache_record"
  pending :: "string list"
  index :: "string list"

definition empty_storage :: storage where
  "empty_storage = \<lparr>entries = Map.empty, pending = [], index = []\<rparr>"

definition getEntries :: "storage \<Rightarrow> (string \<rightharpoonup> cache_record)" where
  "getEntries st = entries st"

definition getEntry :: "storage \<Rightarrow> string \<Rightarrow> cache_record option" where
  "getEntry st date = getEntries st date"

definition getPending :: "storage \<Rightarrow> string list" where
  "getPending st = pending st"

definition getIndex :: "storage \<Rightarrow> string list" where
  "getIndex st = index st"

text \<open>\<^verbatim>\<open>xs.sort().reverse()\<close>: ascending by code units, then reversed.\<close>

definition sort_reverse :: "string list \<Rightarrow> string list" where
  "sort_reverse xs = rev (sort xs)"

definition updateIndex :: "string \<Rightarrow> storage \<Rightarrow> storage" where
  "updateIndex date st =
     (if date \<notin> set (getIndex st)
      then st\<lparr>index := sort_reverse (getIndex st @ [date])\<rparr>
      else st)"

definition setIndex :: "string list \<Rightarrow> storage \<Rightarrow> storage" where
  "setIndex dates st = st\<lparr>index := sort_reverse dates\<rparr>"

text \<open>
  \<^verbatim>\<open>saveEntry(date, { markdown, sha, synced })\<close> replaces the whole record, stamps
  \<^verbatim>\<open>updatedAt\<close> and updates the index. It does not touch the pending queue.
\<close>

definition saveEntry ::
  "string \<Rightarrow> string option \<Rightarrow> string option \<Rightarrow> bool \<Rightarrow> nat \<Rightarrow> storage \<Rightarrow> storage" where
  "saveEntry date md sh sy now st =
     updateIndex date
       (st\<lparr>entries := (getEntries st)(date \<mapsto>
            \<lparr>markdown = md, sha = sh, synced = sy, updatedAt = now, syncedAt = None\<rparr>)\<rparr>)"

definition deleteEntry :: "string \<Rightarrow> storage \<Rightarrow> storage" where
  "deleteEntry date st =
     (let st1 = st\<lparr>entries := (getEntries st)(date := None)\<rparr>
      in st1\<lparr>index := filter (\<lambda>d. d \<noteq> date) (getIndex st1)\<rparr>)"

definition addPending :: "string \<Rightarrow> storage \<Rightarrow> storage" where
  "addPending date st =
     (if date \<notin> set (getPending st)
      then st\<lparr>pending := getPending st @ [date]\<rparr>
      else st)"

definition removePending :: "string \<Rightarrow> storage \<Rightarrow> storage" where
  "removePending date st = st\<lparr>pending := filter (\<lambda>d. d \<noteq> date) (getPending st)\<rparr>"

definition markSynced :: "string \<Rightarrow> string \<Rightarrow> nat \<Rightarrow> storage \<Rightarrow> storage" where
  "markSynced date sh now st =
     removePending date
       (case getEntries st date of
          Some r \<Rightarrow> st\<lparr>entries := (getEntries st)(date \<mapsto>
                      r\<lparr>synced := True, sha := Some sh, syncedAt := Some now\<rparr>)\<rparr>
        | None \<Rightarrow> st)"

definition markPending :: "string \<Rightarrow> storage \<Rightarrow> storage" where
  "markPending date st =
     addPending date
       (case getEntries st date of
          Some r \<Rightarrow> st\<lparr>entries := (getEntries st)(date \<mapsto> r\<lparr>synced := False\<rparr>)\<rparr>
        | None \<Rightarrow> st)"

subsection \<open>String primitives of the host language\<close>

text \<open>
  White space as \<^verbatim>\<open>String.prototype.trim\<close>, \<^verbatim>\<open>\s\<close> and the number parser see it, within
  U+0000..U+00FF: TAB, LF, VT, FF, CR, SPACE and NO-BREAK SPACE.
\<close>

definition is_space :: "char \<Rightarrow> bool" where
  "is_space c = (of_char c \<in> {9, 10, 11, 12, 13, 32, 160 :: nat})"

definition trim :: "string \<Rightarrow> string" where
  "trim s = rev (dropWhile is_space (rev (dropWhile is_space s)))"

text \<open>
  \<^verbatim>\<open>toLowerCase\<close> within U+0000..U+00FF: the letters A..Z and the accented capitals
  U+00C0..U+00DE (the multiplication sign U+00D7 apart) move up by 32.
\<close>

definition to_lower_char :: "char \<Rightarrow> char" where
  "to_lower_char c =
     (let n = (of_char c :: nat)
      in if (65 \<le> n \<and> n \<le> 90) \<or> (192 \<le> n \<and> n \<le> 222 \<and> n \<noteq> 215)
         then char_of (n + 32) else c)"

definition toLowerCase :: "string \<Rightarrow> string" where
  "toLowerCase s = map to_lower_char s"

fun startsWith :: "string \<Rightarrow> string \<Rightarrow> bool" where
  "startsWith s [] = True"
| "startsWith [] (q # qs) = False"
| "startsWith (c # cs) (q # qs) = (c = q \<and> startsWith cs qs)"

text \<open>\<^verbatim>\<open>s.includes(q)\<close>: \<open>q\<close> occurs in \<open>s\<close> as a contiguous substring.\<close>

fun includes_str :: "string \<Rightarrow> string \<Rightarrow> bool" where
  "includes_str [] q = (q = [])"
| "includes_str (c # cs) q = (startsWith (c # cs) q \<or> includes_str cs q)"

text \<open>
  \<^verbatim>\<open>xs.slice(s, e)\<close>: a negative bound counts from the end, and both bounds are clamped
  to the array.
\<close>

definition slice :: "'a list \<Rightarrow> int \<Rightarrow> int \<Rightarrow> 'a list" where
  "slice xs s e =
     (let n = int (length xs);
          k = (if s < 0 then max (n + s) 0 else min s n);
          f = (if e < 0 then max (n + e) 0 else min e n)
      in take (nat (f - k)) (drop (nat k) xs))"

subsection \<open>index.js: listing, search and pagination\<close>

definition PAGE_SIZE :: int where
  "PAGE_SIZE = 50"

text \<open>The module variables \<^verbatim>\<open>_index\<close>, \<^verbatim>\<open>_currentPage\<close> and \<^verbatim>\<open>_searchQuery\<close>.\<close>

record index_state =
  ix_index :: "string list"
  ix_currentPage :: int
  ix_searchQuery :: string

definition init :: "storage \<Rightarrow> index_state" where
  "init st = \<lparr>ix_index = getIndex st, ix_currentPage = 1, ix_searchQuery = []\<rparr>"

definition setDates :: "string list \<Rightarrow> index_state \<times> storage \<Rightarrow> index_state \<times> storage" where
  "setDates ds = (\<lambda>(ix, st).
     let ix1 = ix\<lparr>ix_index := sort_reverse ds\<rparr>
     in (ix1, setIndex (ix_index ix1) st))"

definition addDate :: "string \<Rightarrow> index_state \<times> storage \<Rightarrow> index_state \<times> storage" where
  "addDate date = (\<lambda>(ix, st).
     if date \<notin> set (ix_index ix)
     then (let ix1 = ix\<lparr>ix_index := sort_reverse (ix_index ix @ [date])\<rparr>
           in (ix1, setIndex (ix_index ix1) st))
     else (ix, st))"

definition removeDate :: "string \<Rightarrow> index_state \<times> storage \<Rightarrow> index_state \<times> storage" where
  "removeDate date = (\<lambda>(ix, st).
     let ix1 = ix\<lparr>ix_index := filter (\<lambda>d. d \<noteq> date) (ix_index ix)\<rparr>
     in (ix1, setIndex (ix_index ix1) st))"

definition setSearchQuery :: "string \<Rightarrow> index_state \<Rightarrow> index_state" where
  "setSearchQuery query ix = ix\<lparr>ix_searchQuery := trim (toLowerCase query), ix_currentPage := 1\<rparr>"

definition getFilteredDates :: "storage \<Rightarrow> index_state \<Rightarrow> string list" where
  "getFilteredDates st ix =
     (if ix_searchQuery ix = [] then ix_index ix
      else filter (\<lambda>date.
             if includes_str date (ix_searchQuery ix) then True
             else (case getEntry st date of
                     Some r \<Rightarrow>
                       (case markdown r of
                          Some md \<Rightarrow>
                            if md \<noteq> [] then includes_str (toLowerCase md) (ix_searchQuery ix)
                            else False
                        | None \<Rightarrow> False)
                   | None \<Rightarrow> False))
           (ix_index ix))"

record page_result =
  dates :: "string list"
  page :: int
  totalPages :: int
  hasNext :: bool
  hasPrev :: bool
  totalCount :: nat

text \<open>\<^verbatim>\<open>Math.ceil(n / d)\<close> for a length \<open>n\<close> and a positive integer \<open>d\<close>.\<close>

definition ceil_div :: "nat \<Rightarrow> int \<Rightarrow> int" where
  "ceil_div n d = (int n + d - 1) div d"

text \<open>
  \<^verbatim>\<open>getPage()\<close> returns the page and writes the clamped page number back to
  \<^verbatim>\<open>_currentPage\<close>.
\<close>

definition getPage :: "storage \<Rightarrow> index_state \<Rightarrow> page_result \<times> index_state" where
  "getPage st ix =
     (let filtered = getFilteredDates st ix;
          total = max 1 (ceil_div (length filtered) PAGE_SIZE);
          cp1 = min (ix_currentPage ix) total;
          cp2 = max 1 cp1;
          start = (cp2 - 1) * PAGE_SIZE;
          stop = start + PAGE_SIZE
      in (\<lparr>dates = slice filtered start stop, page = cp2, totalPages = total,
           hasNext = (cp2 < total), hasPrev = (cp2 > 1), totalCount = length filtered\<rparr>,
          ix\<lparr>ix_currentPage := cp2\<rparr>))"

definition nextPage :: "storage \<Rightarrow> index_state \<Rightarrow> bool \<times> index_state" where
  "nextPage st ix =
     (let (r, ix1) = getPage st ix
      in if hasNext r then (True, ix1\<lparr>ix_currentPage := ix_currentPage ix1 + 1\<rparr>)
         else (False, ix1))"

definition prevPage :: "index_state \<Rightarrow> bool \<times> index_state" where
  "prevPage ix =
     (if ix_currentPage ix > 1 then (True, ix\<lparr>ix_currentPage := ix_currentPage ix - 1\<rparr>)
      else (False, ix))"

definition goToPage :: "int \<Rightarrow> index_state \<Rightarrow> index_state" where
  "goToPage p ix = ix\<lparr>ix_currentPage := max 1 p\<rparr>"

subsection \<open>github.js: the remote store client\<close>

text \<open>
  An exception value: an \<^verbatim>\<open>Error\<close> with its message and the \<^verbatim>\<open>status\<close> property the
  client attaches to it (\<open>None\<close> when the property is absent, as on a rejected
  \<^verbatim>\<open>fetch\<close>).
\<close>

record js_error =
  err_message :: string
  err_status :: "nat option"

text \<open>
  The request \<^verbatim>\<open>putFile\<close> sends and the part of the response it reads. The base64
  transport encoding of the content is not modelled. \<open>resp_sha\<close> is
  \<^verbatim>\<open>data.content.sha\<close> of the JSON body and is read on a successful response only.
\<close>

record put_request =
  req_path :: string
  req_message :: string
  req_content :: string
  req_sha :: "string option"

record response =
  resp_status :: nat
  resp_sha :: string

definition ok :: "response \<Rightarrow> bool" where
  "ok r = (200 \<le> resp_status r \<and> resp_status r \<le> 299)"

text \<open>
  A remote store is a function from a request and the state of the world to an answer and
  the next state of the world; the answer is \<open>Inl\<close> when \<^verbatim>\<open>fetch\<close> itself rejects.
\<close>

type_synonym 'w remote = "put_request \<Rightarrow> 'w \<Rightarrow> (js_error + response) \<times> 'w"

definition putFile ::
  "'w remote \<Rightarrow> string \<Rightarrow> string \<Rightarrow> string \<Rightarrow> string option \<Rightarrow> 'w \<Rightarrow> (js_error + string) \<times> 'w" where
  "putFile remote path content message sh w =
     (let body = \<lparr>req_path = path, req_message = message, req_content = content,
                  req_sha = (case sh of Some s \<Rightarrow> if s \<noteq> [] then Some s else None
                             | None \<Rightarrow> None)\<rparr>
      in case remote body w of
           (Inl e, w1) \<Rightarrow> (Inl e, w1)
         | (Inr resp, w1) \<Rightarrow>
             if \<not> ok resp
             then (Inl \<lparr>err_message =
                          (if resp_status resp = 409
                           then ''Conflict: file was modified externally''
                           else ''Failed to save file''),
                        err_status = Some (resp_status resp)\<rparr>, w1)
             else (Inr (resp_sha resp), w1))"

text \<open>The error \<^verbatim>\<open>putFile\<close> throws on a 409 response.\<close>

definition conflict_error :: js_error where
  "conflict_error =
     \<lparr>err_message = ''Conflict: file was modified externally'', err_status = Some 409\<rparr>"

text \<open>
  \<^verbatim>\<open>withRetry(fn, maxRetries = 3)\<close>. The loop variable \<open>i\<close>, \<^verbatim>\<open>lastError\<close> (\<open>None\<close> while it
  is \<^verbatim>\<open>undefined\<close>) and the list of delays waited so far, in milliseconds, are arguments
  of the loop. The result is \<open>Inl\<close> of the value thrown or \<open>Inr\<close> of the value returned.
\<close>

function withRetry_loop ::
  "('w \<Rightarrow> (js_error + 'a) \<times> 'w) \<Rightarrow> nat \<Rightarrow> nat \<Rightarrow> js_error option \<Rightarrow> 'w \<Rightarrow> nat list
     \<Rightarrow> (js_error option + 'a) \<times> 'w \<times> nat list" where
  "withRetry_loop fn maxRetries i lastError w delays =
     (if i < maxRetries
      then (case fst (fn w) of
              Inr v \<Rightarrow> (Inr v, snd (fn w), delays)
            | Inl error \<Rightarrow>
                if err_status error = Some 401 \<or> err_status error = Some 403
                   \<or> err_status error = Some 404
                then (Inl (Some error), snd (fn w), delays)
                else withRetry_loop fn maxRetries (i + 1) (Some error) (snd (fn w))
                       (delays @ [2 ^ i * 1000]))
      else (Inl lastError, w, delays))"
  by pat_completeness auto
termination
  by (relation "measure (\<lambda>(fn, maxRetries, i, lastError, w, delays). maxRetries - i)") auto

declare withRetry_loop.simps [simp del]

text \<open>The statuses on which \<^verbatim>\<open>withRetry\<close> rethrows at once.\<close>

abbreviation no_retry :: "js_error \<Rightarrow> bool" where
  "no_retry e \<equiv> err_status e = Some 401 \<or> err_status e = Some 403 \<or> err_status e = Some 404"

definition withRetry ::
  "('w \<Rightarrow> (js_error + 'a) \<times> 'w) \<Rightarrow> nat \<Rightarrow> 'w \<Rightarrow> (js_error option + 'a) \<times> 'w \<times> nat list" where
  "withRetry fn maxRetries w = withRetry_loop fn maxRetries 0 None w []"

definition DEFAULT_MAX_RETRIES :: nat where
  "DEFAULT_MAX_RETRIES = 3"

text \<open>\<^verbatim>\<open>GitHub.saveEntry(date, markdown, sha)\<close>, which \<^verbatim>\<open>app.js\<close> calls to write an entry.\<close>

definition GitHub_saveEntry ::
  "'w remote \<Rightarrow> string \<Rightarrow> string \<Rightarrow> string option \<Rightarrow> 'w
     \<Rightarrow> (js_error option + string) \<times> 'w \<times> nat list" where
  "GitHub_saveEntry remote date md sh w =
     (let message = (if sh \<noteq> None \<and> sh \<noteq> Some [] then ''Update entry: '' @ date
                     else ''Add entry: '' @ date)
      in withRetry (putFile remote (''entries/'' @ date @ ''.md'') md message sh)
           DEFAULT_MAX_RETRIES w)"

text \<open>
  Modelled from the spec: the versioned remote file store, an external service that is not
  part of the repository. A write with no version token asserts that the path does not
  exist yet; a write with a token applies only if the file is still at that token; any
  other write is answered 409 and changes nothing. The store counts the requests it
  receives. \<open>tok\<close> gives the version token of a content.
\<close>

record remote_file =
  rf_content :: string
  rf_sha :: string

record remote_store =
  files :: "string \<rightharpoonup> remote_file"
  requests :: nat

definition versioned_put :: "(string \<Rightarrow> string) \<Rightarrow> remote_store remote" where
  "versioned_put tok req w =
     (let w1 = w\<lparr>requests := requests w + 1\<rparr>;
          current = map_option rf_sha (files w (req_path req))
      in if req_sha req = current
         then (Inr \<lparr>resp_status = (if current = None then 201 else 200),
                     resp_sha = tok (req_content req)\<rparr>,
               w1\<lparr>files := (files w)(req_path req \<mapsto>
                     \<lparr>rf_content = req_content req, rf_sha = tok (req_content req)\<rparr>)\<rparr>)
         else (Inr \<lparr>resp_status = 409, resp_sha = []\<rparr>, w1))"

subsection \<open>Numbers and values of the host language\<close>

text \<open>
  A number is \<^verbatim>\<open>NaN\<close>, an infinity or an integer. Finite numbers are modelled as
  unbounded integers, which is exact on the safe integers (magnitude below \<open>2\<^sup>5\<^sup>3\<close>);
  fractions and the rounding of larger values are outside the model.
\<close>

datatype jsnum = NaN | NegInf | Fin int | PosInf

text \<open>
  The values an entry field or a metadata value can hold: \<^verbatim>\<open>undefined\<close> (also a missing
  property), a number or a string.
\<close>

datatype jsval = JUndefined | JNum jsnum | JStr string

definition is_digit :: "char \<Rightarrow> bool" where
  "is_digit c = (48 \<le> (of_char c :: nat) \<and> (of_char c :: nat) \<le> 57)"

definition digit_val :: "char \<Rightarrow> nat" where
  "digit_val c = of_char c - 48"

definition digit_char :: "nat \<Rightarrow> char" where
  "digit_char n = char_of (48 + n)"

text \<open>\<^verbatim>\<open>parseInt(ds, 10)\<close> on a string of decimal digits.\<close>

definition nat_of_digits :: "string \<Rightarrow> nat" where
  "nat_of_digits s = foldl (\<lambda>a c. 10 * a + digit_val c) 0 s"

fun digits_of :: "nat \<Rightarrow> string" where
  "digits_of n = (if n < 10 then [digit_char n] else digits_of (n div 10) @ [digit_char (n mod 10)])"

declare digits_of.simps [simp del]

text \<open>The string a number turns into inside a template literal.\<close>

definition number_to_string :: "jsnum \<Rightarrow> string" where
  "number_to_string x =
     (case x of
        NaN \<Rightarrow> ''NaN''
      | NegInf \<Rightarrow> ''-Infinity''
      | PosInf \<Rightarrow> ''Infinity''
      | Fin n \<Rightarrow> (if n < 0 then CHR ''-'' # digits_of (nat (- n)) else digits_of (nat n)))"

text \<open>
  \<^verbatim>\<open>Number(s)\<close> on a string: white space around the literal is ignored, the empty string
  is 0, a literal is an optional sign followed by decimal digits or by \<^verbatim>\<open>Infinity\<close>, and
  anything else is \<^verbatim>\<open>NaN\<close>. Literals with a fraction, an exponent or a radix prefix are
  outside the model and read as \<^verbatim>\<open>NaN\<close>.
\<close>

definition unsigned_to_number :: "string \<Rightarrow> bool \<Rightarrow> jsnum" where
  "unsigned_to_number s neg =
     (if s = ''Infinity'' then (if neg then NegInf else PosInf)
      else if s \<noteq> [] \<and> list_all is_digit s
           then Fin (if neg then - int (nat_of_digits s) else int (nat_of_digits s))
      else NaN)"

definition string_to_number :: "string \<Rightarrow> jsnum" where
  "string_to_number s =
     (case trim s of
        [] \<Rightarrow> Fin 0
      | c # cs \<Rightarrow>
          if c = CHR ''-'' then unsigned_to_number cs True
          else if c = CHR ''+'' then unsigned_to_number cs False
          else unsigned_to_number (c # cs) False)"

definition to_number :: "jsval \<Rightarrow> jsnum" where
  "to_number v = (case v of JUndefined \<Rightarrow> NaN | JNum x \<Rightarrow> x | JStr s \<Rightarrow> string_to_number s)"

definition to_string :: "jsval \<Rightarrow> string" where
  "to_string v = (case v of JUndefined \<Rightarrow> ''undefined'' | JNum x \<Rightarrow> number_to_string x | JStr s \<Rightarrow> s)"

definition truthy :: "jsval \<Rightarrow> bool" where
  "truthy v = (case v of JUndefined \<Rightarrow> False | JNum x \<Rightarrow> x \<noteq> NaN \<and> x \<noteq> Fin 0 | JStr s \<Rightarrow> s \<noteq> [])"

definition isNaN :: "jsnum \<Rightarrow> bool" where
  "isNaN x = (x = NaN)"

text \<open>\<^verbatim>\<open>x < y\<close> on numbers: false whenever an operand is \<^verbatim>\<open>NaN\<close>.\<close>

fun num_less :: "jsnum \<Rightarrow> jsnum \<Rightarrow> bool" where
  "num_less NaN y = False"
| "num_less x NaN = False"
| "num_less NegInf y = (y \<noteq> NegInf)"
| "num_less x NegInf = False"
| "num_less PosInf y = False"
| "num_less x PosInf = True"
| "num_less (Fin a) (Fin b) = (a < b)"

text \<open>\<^verbatim>\<open>x + 1\<close> on numbers.\<close>

definition increment :: "jsnum \<Rightarrow> jsnum" where
  "increment x = (case x of Fin n \<Rightarrow> Fin (n + 1) | _ \<Rightarrow> x)"

text \<open>\<^verbatim>\<open>v || dflt\<close> and \<^verbatim>\<open>v ?? dflt\<close>.\<close>

definition or_else :: "jsval \<Rightarrow> jsval \<Rightarrow> jsval" where
  "or_else v dflt = (if truthy v then v else dflt)"

definition nullish_or :: "jsval \<Rightarrow> jsval \<Rightarrow> jsval" where
  "nullish_or v dflt = (if v = JUndefined then dflt else v)"

text \<open>\<^verbatim>\<open>lines.join('\n')\<close>.\<close>

fun join_nl :: "string list \<Rightarrow> string" where
  "join_nl [] = []"
| "join_nl [x] = x"
| "join_nl (x # y # ys) = x @ CHR 0x0A # join_nl (y # ys)"

text \<open>
  \<^verbatim>\<open>s.split(/\r?\n/)\<close>: a line ends at a line feed, and a carriage return directly before
  that line feed belongs to the separator.
\<close>

fun split_lines :: "string \<Rightarrow> string list" where
  "split_lines [] = [[]]"
| "split_lines [c] = (if c = CHR 0x0A then [[], []] else [[c]])"
| "split_lines (c # d # cs) =
     (if c = CHR 0x0A then [] # split_lines (d # cs)
      else if c = CHR 0x0D \<and> d = CHR 0x0A then [] # split_lines cs
      else (case split_lines (d # cs) of
              l # ls \<Rightarrow> (c # l) # ls
            | [] \<Rightarrow> [[c]]))"

text \<open>\<^verbatim>\<open>s.indexOf(x)\<close>, with \<open>None\<close> for \<open>-1\<close>.\<close>

fun index_of :: "char \<Rightarrow> string \<Rightarrow> nat option" where
  "index_of x [] = None"
| "index_of x (c # cs) = (if c = x then Some 0 else map_option Suc (index_of x cs))"

subsection \<open>journal.js: the entry and its Markdown form\<close>

definition CURRENT_SCHEMA :: jsnum where
  "CURRENT_SCHEMA = Fin 1"

text \<open>
  The property names \<^verbatim>\<open>section_N\<close> and \<^verbatim>\<open>section_Nx\<close>: a section number and, for the
  five subsections of section 4, the subsection (\<^verbatim>\<open>a\<close> to \<^verbatim>\<open>e\<close> in the source, here named
  by their headings).
\<close>

datatype subsec = Health | Skill | Money | Leverage | Mind

datatype sec_key = Key nat "subsec option"

record entry =
  schema :: jsval
  date :: jsval
  score :: jsval
  discipline :: jsval
  focus :: jsval
  energy :: jsval
  mood :: jsval
  net_worth_delta :: jsval
  sections :: "sec_key \<rightharpoonup> string"

definition createEntry :: "string \<Rightarrow> entry" where
  "createEntry d =
     \<lparr>schema = JNum CURRENT_SCHEMA, date = JStr d,
      score = JNum (Fin 5), discipline = JNum (Fin 5), focus = JNum (Fin 5),
      energy = JNum (Fin 5), mood = JNum (Fin 5), net_worth_delta = JNum (Fin 0),
      sections = map_of (map (\<lambda>k. (k, []))
        [Key 1 None, Key 2 None, Key 3 None,
         Key 4 (Some Health), Key 4 (Some Skill), Key 4 (Some Money), Key 4 (Some Leverage),
         Key 4 (Some Mind),
         Key 5 None, Key 6 None, Key 7 None, Key 8 None, Key 9 None, Key 10 None,
         Key 11 None])\<rparr>"

text \<open>The test \<^verbatim>\<open>/^\d{4}-\d{2}-\d{2}$/\<close>.\<close>

definition date_format :: "string \<Rightarrow> bool" where
  "date_format s =
     (case s of
        [y1, y2, y3, y4, h1, m1, m2, h2, d1, d2] \<Rightarrow>
          is_digit y1 \<and> is_digit y2 \<and> is_digit y3 \<and> is_digit y4 \<and> h1 = CHR ''-''
          \<and> is_digit m1 \<and> is_digit m2 \<and> h2 = CHR ''-'' \<and> is_digit d1 \<and> is_digit d2
      | _ \<Rightarrow> False)"

record validation =
  valid :: bool
  errors :: "string list"

definition scoreFields :: "string list" where
  "scoreFields = [''score'', ''discipline'', ''focus'', ''energy'', ''mood'']"

text \<open>\<^verbatim>\<open>entry[field]\<close> for a name of a score field.\<close>

definition get_field :: "entry \<Rightarrow> string \<Rightarrow> jsval" where
  "get_field e f =
     (if f = ''score'' then score e
      else if f = ''discipline'' then discipline e
      else if f = ''focus'' then focus e
      else if f = ''energy'' then energy e
      else if f = ''mood'' then mood e
      else JUndefined)"

text \<open>The body of the loop over \<^verbatim>\<open>scoreFields\<close>.\<close>

definition check_score :: "entry \<Rightarrow> string list \<Rightarrow> string \<Rightarrow> string list" where
  "check_score e errs field =
     (if get_field e field \<noteq> JUndefined
      then (let val = to_number (get_field e field)
            in if isNaN val \<or> num_less val (Fin 0) \<or> num_less (Fin 10) val
               then errs @ [field @ '' must be a number between 0 and 10'']
               else errs)
      else errs)"

definition validateEntry :: "entry option \<Rightarrow> validation" where
  "validateEntry eo =
     (case eo of
        None \<Rightarrow> \<lparr>valid = False, errors = [''Entry is null or undefined'']\<rparr>
      | Some e \<Rightarrow>
          (let errors1 =
                 (if \<not> truthy (date e) \<or> \<not> date_format (to_string (date e))
                  then [''Invalid date format. Expected YYYY-MM-DD''] else []);
               errors2 = foldl (check_score e) errors1 scoreFields;
               errors3 =
                 (if net_worth_delta e \<noteq> JUndefined \<and> isNaN (to_number (net_worth_delta e))
                  then errors2 @ [''net_worth_delta must be a number''] else errors2)
           in \<lparr>valid = (length errors3 = 0), errors = errors3\<rparr>))"

text \<open>\<^verbatim>\<open>entry.section_N || ''\<close>.\<close>

definition text_of :: "entry \<Rightarrow> sec_key \<Rightarrow> string" where
  "text_of e k = (case sections e k of Some s \<Rightarrow> s | None \<Rightarrow> [])"

definition toMarkdown_lines :: "entry \<Rightarrow> string list" where
  "toMarkdown_lines e =
     [''---'',
      ''schema: '' @ to_string (or_else (schema e) (JNum CURRENT_SCHEMA)),
      ''date: '' @ to_string (date e),
      ''score: '' @ to_string (score e),
      ''discipline: '' @ to_string (discipline e),
      ''focus: '' @ to_string (focus e),
      ''energy: '' @ to_string (energy e),
      ''mood: '' @ to_string (mood e),
      ''net_worth_delta: '' @ to_string (net_worth_delta e),
      ''---'',
      [],
      ''# 1. Identity & North Star'', text_of e (Key 1 None), [],
      ''# 2. Top 1-3 Priorities'', text_of e (Key 2 None), [],
      ''# 3. Time & Focus Plan'', text_of e (Key 3 None), [],
      ''# 4. Execution Checklist'', [],
      ''## Health'', text_of e (Key 4 (Some Health)), [],
      ''## Skill'', text_of e (Key 4 (Some Skill)), [],
      ''## Money'', text_of e (Key 4 (Some Money)), [],
      ''## Leverage'', text_of e (Key 4 (Some Leverage)), [],
      ''## Mind'', text_of e (Key 4 (Some Mind)), [],
      ''# 5. Personal Balance Sheet'', text_of e (Key 5 None), [],
      ''# 6. Decisions & Thinking Log'', text_of e (Key 6 None), [],
      ''# 7. Failure & Weakness Audit'', text_of e (Key 7 None), [],
      ''# 8. Fix & Upgrade Plan'', text_of e (Key 8 None), [],
      ''# 9. Wins & Progress'', text_of e (Key 9 None), [],
      ''# 10. Self-Score (0-10)'', text_of e (Key 10 None), [],
      ''# 11. Night Close Reflection'', text_of e (Key 11 None)]"

definition toMarkdown :: "entry \<Rightarrow> string" where
  "toMarkdown e = join_nl (toMarkdown_lines e)"

text \<open>
  The pieces of \<^verbatim>\<open>/^---\r?\n([\s\S]*?)\r?\n---\r?\n([\s\S]*)$/\<close>. \<open>eat_nl\<close> matches
  \<^verbatim>\<open>\r?\n\<close> at the start of a string, \<open>open_fence\<close> the opening \<^verbatim>\<open>---\r?\n\<close> and
  \<open>close_fence\<close> the closing \<^verbatim>\<open>\r?\n---\r?\n\<close>; each returns what follows the match.
  \<open>find_close\<close> is the lazy group: the shortest block after which the closing fence
  matches.
\<close>

definition skip_cr :: "string \<Rightarrow> string" where
  "skip_cr s = (case s of [] \<Rightarrow> [] | c # cs \<Rightarrow> if c = CHR 0x0D then cs else c # cs)"

definition eat_nl :: "string \<Rightarrow> string option" where
  "eat_nl s = (case skip_cr s of [] \<Rightarrow> None | c # cs \<Rightarrow> if c = CHR 0x0A then Some cs else None)"

definition open_fence :: "string \<Rightarrow> string option" where
  "open_fence s = (if startsWith s ''---'' then eat_nl (drop 3 s) else None)"

definition close_fence :: "string \<Rightarrow> string option" where
  "close_fence s =
     (case eat_nl s of
        None \<Rightarrow> None
      | Some s1 \<Rightarrow> if startsWith s1 ''---'' then eat_nl (drop 3 s1) else None)"

fun find_close :: "string \<Rightarrow> string \<Rightarrow> (string \<times> string) option" where
  "find_close acc [] = None"
| "find_close acc (c # cs) =
     (case close_fence (c # cs) of
        Some rest \<Rightarrow> Some (rev acc, rest)
      | None \<Rightarrow> find_close (c # acc) cs)"

text \<open>A metadata value that parses as a number becomes that number.\<close>

definition coerce_value :: "string \<Rightarrow> jsval" where
  "coerce_value v = (if \<not> isNaN (string_to_number v) then JNum (string_to_number v) else JStr v)"

definition frontmatter_line :: "(string \<rightharpoonup> jsval) \<Rightarrow> string \<Rightarrow> (string \<rightharpoonup> jsval)" where
  "frontmatter_line fm line =
     (case index_of CHR '':'' line of
        Some colonIndex \<Rightarrow>
          if colonIndex > 0
          then fm(trim (take colonIndex line) \<mapsto> coerce_value (trim (drop (colonIndex + 1) line)))
          else fm
      | None \<Rightarrow> fm)"

definition parseFrontmatter :: "string \<Rightarrow> (string \<rightharpoonup> jsval) \<times> string" where
  "parseFrontmatter md =
     (case open_fence md of
        None \<Rightarrow> (Map.empty, md)
      | Some rest \<Rightarrow>
          (case find_close [] rest of
             None \<Rightarrow> (Map.empty, md)
           | Some (yamlBlock, content) \<Rightarrow>
               (foldl frontmatter_line Map.empty (split_lines yamlBlock), content)))"

text \<open>The variables of \<^verbatim>\<open>parseSections\<close>.\<close>

record parse_state =
  ps_sections :: "sec_key \<rightharpoonup> string"
  currentSection :: "nat option"
  currentSubsection :: "subsec option"
  buffer :: "string list"

definition flushBuffer :: "parse_state \<Rightarrow> parse_state" where
  "flushBuffer st =
     (case currentSection st of
        Some n \<Rightarrow> st\<lparr>ps_sections := (ps_sections st)(Key n (currentSubsection st) \<mapsto>
                        trim (join_nl (buffer st))), buffer := []\<rparr>
      | None \<Rightarrow> st\<lparr>buffer := []\<rparr>)"

text \<open>\<^verbatim>\<open>line.match(/^#\s+(\d+)\./)\<close>, returning \<^verbatim>\<open>parseInt\<close> of the group.\<close>

definition mainMatch :: "string \<Rightarrow> nat option" where
  "mainMatch line =
     (case line of
        [] \<Rightarrow> None
      | c # rest \<Rightarrow>
          if c = CHR ''#'' \<and> takeWhile is_space rest \<noteq> []
          then (let r1 = dropWhile is_space rest;
                    ds = takeWhile is_digit r1;
                    r2 = dropWhile is_digit r1
                in if ds \<noteq> [] \<and> startsWith r2 ''.'' then Some (nat_of_digits ds) else None)
          else None)"

text \<open>
  \<^verbatim>\<open>line.match(/^##\s+(Health|Skill|Money|Leverage|Mind)/i)\<close>, returning the subsection
  the lower-cased group stands for.
\<close>

definition subMatch :: "string \<Rightarrow> subsec option" where
  "subMatch line =
     (if startsWith line ''##'' \<and> takeWhile is_space (drop 2 line) \<noteq> []
      then (let name = toLowerCase (dropWhile is_space (drop 2 line))
            in if startsWith name ''health'' then Some Health
               else if startsWith name ''skill'' then Some Skill
               else if startsWith name ''money'' then Some Money
               else if startsWith name ''leverage'' then Some Leverage
               else if startsWith name ''mind'' then Some Mind
               else None)
      else None)"

definition parse_line :: "parse_state \<Rightarrow> string \<Rightarrow> parse_state" where
  "parse_line st line =
     (case mainMatch line of
        Some n \<Rightarrow> (flushBuffer st)\<lparr>currentSection := Some n, currentSubsection := None\<rparr>
      | None \<Rightarrow>
          (case subMatch line of
             Some sub \<Rightarrow>
               if currentSection st = Some 4
               then (flushBuffer st)\<lparr>currentSubsection := Some sub\<rparr>
               else st\<lparr>buffer := buffer st @ [line]\<rparr>
           | None \<Rightarrow> st\<lparr>buffer := buffer st @ [line]\<rparr>))"

definition parseSections :: "string \<Rightarrow> (sec_key \<rightharpoonup> string)" where
  "parseSections content =
     ps_sections (flushBuffer (foldl parse_line
        \<lparr>ps_sections = Map.empty, currentSection = None, currentSubsection = None, buffer = []\<rparr>
        (split_lines content)))"

text \<open>\<^verbatim>\<open>frontmatter.key\<close>.\<close>

definition lookup :: "(string \<rightharpoonup> jsval) \<Rightarrow> string \<Rightarrow> jsval" where
  "lookup fm k = (case fm k of Some v \<Rightarrow> v | None \<Rightarrow> JUndefined)"

text \<open>
  The registered migrations, keyed by the pair of versions (the source builds the key
  \<^verbatim>\<open>`${version}->${version + 1}`\<close> from them). None is registered.
\<close>

definition migrations :: "jsval \<times> jsval \<rightharpoonup> (entry \<Rightarrow> entry)" where
  "migrations = Map.empty"

text \<open>
  The loop of \<^verbatim>\<open>migrateEntry\<close>. It need not terminate: \<^verbatim>\<open>version++\<close> leaves
  \<^verbatim>\<open>-Infinity\<close> as it is. \<open>None\<close> is the run that does not return.
\<close>

partial_function (option) migrate_loop :: "jsval \<Rightarrow> entry \<Rightarrow> entry option" where
  "migrate_loop version e =
     (if num_less (to_number version) CURRENT_SCHEMA
      then migrate_loop (JNum (increment (to_number version)))
             (case migrations (version, JNum (increment (to_number version))) of
                Some f \<Rightarrow> f e
              | None \<Rightarrow> e)
      else Some e)"

declare migrate_loop.simps [code]

definition migrateEntry :: "entry \<Rightarrow> entry option" where
  "migrateEntry e =
     map_option (\<lambda>e1. e1\<lparr>schema := JNum CURRENT_SCHEMA\<rparr>)
       (migrate_loop (or_else (schema e) (JNum (Fin 1))) e)"

definition fromMarkdown :: "string \<Rightarrow> entry option" where
  "fromMarkdown md =
     (let (frontmatter, content) = parseFrontmatter md;
          secs = parseSections content
      in migrateEntry
           \<lparr>schema = or_else (lookup frontmatter ''schema'') (JNum (Fin 1)),
            date = or_else (lookup frontmatter ''date'') (JStr []),
            score = nullish_or (lookup frontmatter ''score'') (JNum (Fin 5)),
            discipline = nullish_or (lookup frontmatter ''discipline'') (JNum (Fin 5)),
            focus = nullish_or (lookup frontmatter ''focus'') (JNum (Fin 5)),
            energy = nullish_or (lookup frontmatter ''energy'') (JNum (Fin 5)),
            mood = nullish_or (lookup frontmatter ''mood'') (JNum (Fin 5)),
            net_worth_delta = nullish_or (lookup frontmatter ''net_worth_delta'') (JNum (Fin 0)),
            sections = secs\<rparr>)"

text \<open>A number in the closed interval from 0 to 10.\<close>

definition in_score_range :: "jsnum \<Rightarrow> bool" where
  "in_score_range x = (case x of Fin n \<Rightarrow> 0 \<le> n \<and> n \<le> 10 | _ \<Rightarrow> False)"


subsection \<open>app.js: saving and synchronising\<close>

text \<open>
  The module variables of \<^verbatim>\<open>app.js\<close> that the core reads and writes, together with the
  state of the two modules it drives.
\<close>

record app_state =
  store :: storage
  idx :: index_state
  syncInProgress :: bool
  isDirty :: bool

definition initial_app :: app_state where
  "initial_app =
     \<lparr>store = empty_storage, idx = init empty_storage, syncInProgress = False, isDirty = False\<rparr>"

text \<open>
  The environment of the application over a world \<open>'w\<close>: the remote store, the clock
  \<^verbatim>\<open>Date.now()\<close> and \<^verbatim>\<open>navigator.onLine\<close>.
\<close>

record 'w env =
  env_remote :: "put_request \<Rightarrow> 'w \<Rightarrow> (js_error + response) \<times> 'w"
  env_now :: "'w \<Rightarrow> nat"
  env_online :: "'w \<Rightarrow> bool"

text \<open>
  \<^verbatim>\<open>syncEntry(date)\<close> in two halves. \<open>syncEntry_begin\<close> is the part before the \<^verbatim>\<open>await\<close>: it
  reads the cached entry and returns the Markdown and version token to be written, or
  \<open>None\<close> when the function returns at once. \<open>syncEntry_end\<close> is the remote write and the
  part after the \<^verbatim>\<open>await\<close>. \<open>syncEntry\<close> is the call run to completion.
\<close>

definition syncEntry_begin :: "storage \<Rightarrow> string \<Rightarrow> (string \<times> string option) option" where
  "syncEntry_begin st d =
     (case getEntry st d of
        None \<Rightarrow> None
      | Some r \<Rightarrow>
          (case markdown r of
             None \<Rightarrow> None
           | Some md \<Rightarrow> if md = [] then None else Some (md, sha r)))"

definition syncEntry_end ::
  "'w env \<Rightarrow> string \<Rightarrow> string \<times> string option \<Rightarrow> storage \<times> 'w \<Rightarrow> storage \<times> 'w" where
  "syncEntry_end env d req = (\<lambda>(st, w).
     case GitHub_saveEntry (env_remote env) d (fst req) (snd req) w of
       (Inr sh, w1, delays) \<Rightarrow> (markSynced d sh (env_now env w1) st, w1)
     | (Inl err, w1, delays) \<Rightarrow> (markPending d st, w1))"

definition syncEntry :: "'w env \<Rightarrow> string \<Rightarrow> storage \<times> 'w \<Rightarrow> storage \<times> 'w" where
  "syncEntry env d = (\<lambda>(st, w).
     case syncEntry_begin st d of
       None \<Rightarrow> (st, w)
     | Some req \<Rightarrow> syncEntry_end env d req (st, w))"

text \<open>
  \<^verbatim>\<open>getFormData()\<close> builds the entry from the form: the current schema, the current date,
  and the scores and texts of the form, which are the argument \<open>form\<close> here.
\<close>

definition getFormData :: "string \<Rightarrow> entry \<Rightarrow> entry" where
  "getFormData currentDate form = form\<lparr>schema := JNum CURRENT_SCHEMA, date := JStr currentDate\<rparr>"

text \<open>
  \<^verbatim>\<open>saveCurrentEntry()\<close> up to its \<^verbatim>\<open>if (GitHub.isOnline())\<close>: \<open>None\<close> when validation
  fails and the function returns, otherwise the state after the local save.
\<close>

definition saveCurrentEntry_local ::
  "'w env \<Rightarrow> string \<Rightarrow> entry \<Rightarrow> app_state \<times> 'w \<Rightarrow> app_state option" where
  "saveCurrentEntry_local env currentDate form = (\<lambda>(a, w).
     let e = getFormData currentDate form;
         validation = validateEntry (Some e)
     in if \<not> valid validation then None
        else (let md = toMarkdown e;
                  cached = getEntry (store a) currentDate;
                  sh = (case cached of
                          Some r \<Rightarrow> (case sha r of
                                       Some s \<Rightarrow> if s \<noteq> [] then Some s else None
                                     | None \<Rightarrow> None)
                        | None \<Rightarrow> None);
                  st1 = saveEntry currentDate (Some md) sh False (env_now env w) (store a);
                  (ix1, st2) = addDate currentDate (idx a, st1)
              in Some (a\<lparr>store := st2, idx := ix1, isDirty := False\<rparr>)))"

definition saveCurrentEntry ::
  "'w env \<Rightarrow> string \<Rightarrow> entry \<Rightarrow> app_state \<times> 'w \<Rightarrow> app_state \<times> 'w" where
  "saveCurrentEntry env currentDate form = (\<lambda>(a, w).
     case saveCurrentEntry_local env currentDate form (a, w) of
       None \<Rightarrow> (a, w)
     | Some a1 \<Rightarrow>
         if env_online env w
         then (let (st3, w1) = syncEntry env currentDate (store a1, w)
               in (a1\<lparr>store := st3\<rparr>, w1))
         else (a1\<lparr>store := markPending currentDate (store a1)\<rparr>, w))"

text \<open>\<^verbatim>\<open>syncPendingEntries()\<close> run to completion, and \<^verbatim>\<open>checkPendingSync()\<close>.\<close>

definition syncPendingEntries :: "'w env \<Rightarrow> app_state \<times> 'w \<Rightarrow> app_state \<times> 'w" where
  "syncPendingEntries env = (\<lambda>(a, w).
     if syncInProgress a \<or> \<not> env_online env w then (a, w)
     else (let pending = getPending (store a)
           in if length pending = 0 then (a, w)
              else (let a1 = a\<lparr>syncInProgress := True\<rparr>;
                        (st1, w1) = foldl (\<lambda>s d. syncEntry env d s) (store a1, w) pending
                    in (a1\<lparr>store := st1, syncInProgress := False\<rparr>, w1))))"

definition checkPendingSync :: "'w env \<Rightarrow> app_state \<times> 'w \<Rightarrow> app_state \<times> 'w" where
  "checkPendingSync env = (\<lambda>(a, w).
     if env_online env w then syncPendingEntries env (a, w) else (a, w))"

text \<open>
  A sequence of save and sync operations, each run to completion before the next starts.
  Between two operations the world may change in any way (time passes, the connection
  comes and goes, the remote store is written by others).
\<close>

datatype 'w operation =
    SaveCurrentEntry string entry
  | SyncPendingEntries
  | CheckPendingSync
  | WorldChange 'w

fun perform :: "'w env \<Rightarrow> app_state \<times> 'w \<Rightarrow> 'w operation \<Rightarrow> app_state \<times> 'w" where
  "perform env s (SaveCurrentEntry currentDate form) = saveCurrentEntry env currentDate form s"
| "perform env s SyncPendingEntries = syncPendingEntries env s"
| "perform env s CheckPendingSync = checkPendingSync env s"
| "perform env s (WorldChange w1) = (fst s, w1)"

definition run :: "'w env \<Rightarrow> 'w operation list \<Rightarrow> app_state \<times> 'w \<Rightarrow> app_state \<times> 'w" where
  "run env ops s = foldl (perform env) s ops"

text \<open>
  Queue and sync state agree at a date: the date is in the pending queue exactly if a
  cache record for it exists and is not synced.
\<close>

definition queue_consistent_at :: "storage \<Rightarrow> string \<Rightarrow> bool" where
  "queue_consistent_at st d =
     ((d \<in> set (getPending st)) =
      (case getEntry st d of Some r \<Rightarrow> \<not> synced r | None \<Rightarrow> False))"

text \<open>
  The same functions with their suspension points. Execution is single-threaded: a call
  runs until it reaches an \<^verbatim>\<open>await\<close> on a remote write and is resumed when that write has
  completed; in between, any other event may be handled. A suspended call of
  \<^verbatim>\<open>syncPendingEntries\<close> is a \<open>drain\<close>: the date whose write it waits for, the request it
  captured, and the dates of its loop still to come. A suspended call of
  \<^verbatim>\<open>saveCurrentEntry\<close> is the date and the request it waits for.
\<close>

record drain =
  dr_date :: string
  dr_request :: "string \<times> string option"
  dr_rest :: "string list"

record 'w system =
  app :: app_state
  world :: 'w
  drains :: "drain list"
  saves :: "(string \<times> string \<times> string option) list"

text \<open>
  The loop of \<^verbatim>\<open>syncPendingEntries\<close> from a given position on: it runs through the dates
  for which \<^verbatim>\<open>syncEntry\<close> returns at once, suspends at the first date that needs a write,
  and after the last date clears \<^verbatim>\<open>syncInProgress\<close>.
\<close>

fun drain_next :: "'w system \<Rightarrow> string list \<Rightarrow> 'w system" where
  "drain_next s [] = s\<lparr>app := (app s)\<lparr>syncInProgress := False\<rparr>\<rparr>"
| "drain_next s (d # ds) =
     (case syncEntry_begin (store (app s)) d of
        None \<Rightarrow> drain_next s ds
      | Some req \<Rightarrow> s\<lparr>drains := drains s @ [\<lparr>dr_date = d, dr_request = req, dr_rest = ds\<rparr>]\<rparr>)"

definition syncPendingEntries_call :: "'w env \<Rightarrow> 'w system \<Rightarrow> 'w system" where
  "syncPendingEntries_call env s =
     (if syncInProgress (app s) \<or> \<not> env_online env (world s) then s
      else (let pending = getPending (store (app s))
            in if length pending = 0 then s
               else drain_next (s\<lparr>app := (app s)\<lparr>syncInProgress := True\<rparr>\<rparr>) pending))"

definition drain_resume :: "'w env \<Rightarrow> nat \<Rightarrow> 'w system \<Rightarrow> 'w system" where
  "drain_resume env i s =
     (if i < length (drains s)
      then (let dr = drains s ! i;
                (st1, w1) = syncEntry_end env (dr_date dr) (dr_request dr) (store (app s), world s);
                s1 = s\<lparr>app := (app s)\<lparr>store := st1\<rparr>, world := w1,
                       drains := take i (drains s) @ drop (Suc i) (drains s)\<rparr>
            in drain_next s1 (dr_rest dr))
      else s)"

definition saveCurrentEntry_call :: "'w env \<Rightarrow> string \<Rightarrow> entry \<Rightarrow> 'w system \<Rightarrow> 'w system" where
  "saveCurrentEntry_call env currentDate form s =
     (case saveCurrentEntry_local env currentDate form (app s, world s) of
        None \<Rightarrow> s
      | Some a1 \<Rightarrow>
          if env_online env (world s)
          then (case syncEntry_begin (store a1) currentDate of
                  None \<Rightarrow> s\<lparr>app := a1\<rparr>
                | Some req \<Rightarrow> s\<lparr>app := a1, saves := saves s @ [(currentDate, req)]\<rparr>)
          else s\<lparr>app := a1\<lparr>store := markPending currentDate (store a1)\<rparr>\<rparr>)"

definition saveCurrentEntry_resume :: "'w env \<Rightarrow> nat \<Rightarrow> 'w system \<Rightarrow> 'w system" where
  "saveCurrentEntry_resume env i s =
     (if i < length (saves s)
      then (let (st1, w1) = syncEntry_end env (fst (saves s ! i)) (snd (saves s ! i))
                               (store (app s), world s)
            in s\<lparr>app := (app s)\<lparr>store := st1\<rparr>, world := w1,
                 saves := take i (saves s) @ drop (Suc i) (saves s)\<rparr>)
      else s)"

text \<open>
  The events: the 30-second timer (\<^verbatim>\<open>checkPendingSync\<close>), the \<^verbatim>\<open>online\<close> event and a
  direct call (both \<^verbatim>\<open>syncPendingEntries\<close>), a click on save, the completion of the write
  a suspended call waits for, and any change of the world.
\<close>

datatype 'w event =
    TimerFired
  | WentOnline
  | Invoked
  | SaveClicked string entry
  | DrainResumed nat
  | SaveResumed nat
  | WorldChanged 'w

fun step :: "'w env \<Rightarrow> 'w system \<Rightarrow> 'w event \<Rightarrow> 'w system" where
  "step env s TimerFired =
     (if env_online env (world s) then syncPendingEntries_call env s else s)"
| "step env s WentOnline = syncPendingEntries_call env s"
| "step env s Invoked = syncPendingEntries_call env s"
| "step env s (SaveClicked currentDate form) = saveCurrentEntry_call env currentDate form s"
| "step env s (DrainResumed i) = drain_resume env i s"
| "step env s (SaveResumed i) = saveCurrentEntry_resume env i s"
| "step env s (WorldChanged w1) = s\<lparr>world := w1\<rparr>"

text \<open>
  The states the application can be in: it starts on any persisted cache with no call
  suspended, and handles one event after another.
\<close>

inductive reachable :: "'w env \<Rightarrow> 'w system \<Rightarrow> bool" for env :: "'w env" where
  start: "reachable env
      \<lparr>app = \<lparr>store = st, idx = init st, syncInProgress = False, isDirty = False\<rparr>,
       world = w, drains = [], saves = []\<rparr>"
| handle: "reachable env s \<Longrightarrow> reachable env (step env s ev)"

subsection \<open>export.js: importing a JSON export\<close>

text \<open>
  The parsed export file. \<open>export_entries\<close> is \<^verbatim>\<open>data.entries\<close> as
  \<^verbatim>\<open>Object.entries\<close> lists it, or \<open>None\<close> when it is missing or not an object. The value
  under a date is \<^verbatim>\<open>null\<close>, on which reading \<^verbatim>\<open>entry.markdown\<close> throws, or anything else,
  of which only the properties \<^verbatim>\<open>markdown\<close> and \<^verbatim>\<open>sha\<close> are read (\<open>None\<close> when absent;
  \<^verbatim>\<open>markdown\<close> is taken to be a string when present).
\<close>

datatype import_value = ImportNull | ImportObject "string option" "string option"

record export_file =
  export_entries :: "(string \<times> import_value) list option"

record import_result =
  imported :: nat
  skipped :: nat

text \<open>
  The loop over \<^verbatim>\<open>Object.entries(data.entries)\<close>. \<open>clock i\<close> is \<^verbatim>\<open>Date.now()\<close> while the
  \<open>i\<close>-th element is handled. The result is \<open>Inl\<close> of the error thrown, with the state
  reached by then, or \<open>Inr\<close> of the counts.
\<close>

fun import_loop ::
  "(nat \<Rightarrow> nat) \<Rightarrow> nat \<Rightarrow> (string \<times> import_value) list \<Rightarrow> nat \<Rightarrow> nat
     \<Rightarrow> index_state \<times> storage \<Rightarrow> (js_error + import_result) \<times> index_state \<times> storage" where
  "import_loop clock i [] imp skp s = (Inr \<lparr>imported = imp, skipped = skp\<rparr>, s)"
| "import_loop clock i ((d, entry) # rest) imp skp s =
     (if \<not> date_format d then import_loop clock (i + 1) rest imp (skp + 1) s
      else if (case getEntry (snd s) d of Some existing \<Rightarrow> synced existing | None \<Rightarrow> False)
      then import_loop clock (i + 1) rest imp (skp + 1) s
      else (case entry of
              ImportNull \<Rightarrow>
                (Inl \<lparr>err_message = ''Cannot read properties of null'', err_status = None\<rparr>, s)
            | ImportObject md sh \<Rightarrow>
                import_loop clock (i + 1) rest (imp + 1) skp
                  (addDate d (fst s,
                     saveEntry d md (case sh of Some x \<Rightarrow> if x \<noteq> [] then Some x else None
                                      | None \<Rightarrow> None)
                       False (clock i) (snd s)))))"

definition importFromJSON ::
  "(nat \<Rightarrow> nat) \<Rightarrow> export_file \<Rightarrow> index_state \<times> storage
     \<Rightarrow> (js_error + import_result) \<times> index_state \<times> storage" where
  "importFromJSON clock data s =
     (case export_entries data of
        None \<Rightarrow> (Inl \<lparr>err_message = ''Invalid export file format'', err_status = None\<rparr>, s)
      | Some es \<Rightarrow> import_loop clock 0 es 0 0 s)"

text \<open>The date has a cache record that is marked synced.\<close>

definition synced_at :: "storage \<Rightarrow> string \<Rightarrow> bool" where
  "synced_at st d = (case getEntry st d of Some r \<Rightarrow> synced r | None \<Rightarrow> False)"

subsection \<open>Vocabulary for the round trip\<close>

text \<open>
  The sixteen text properties of an entry: sections 1 to 11 and the five subsections
  of section 4.
\<close>

definition sub_keys :: "sec_key list" where
  "sub_keys = [Key 4 (Some Health), Key 4 (Some Skill), Key 4 (Some Money),
               Key 4 (Some Leverage), Key 4 (Some Mind)]"

definition main_keys :: "sec_key list" where
  "main_keys = [Key 1 None, Key 2 None, Key 3 None, Key 5 None, Key 6 None, Key 7 None,
                Key 8 None, Key 9 None, Key 10 None, Key 11 None]"


text \<open>
  A valid entry as the round trip needs it: the current schema, a date of the form
  \<^verbatim>\<open>YYYY-MM-DD\<close>, five scores that are numbers between 0 and 10, a net worth delta that
  is a number, and exactly the sixteen text properties.
\<close>

definition score_value :: "jsval \<Rightarrow> bool" where
  "score_value v = (case v of JNum x \<Rightarrow> in_score_range x | _ \<Rightarrow> False)"

definition numeric_value :: "jsval \<Rightarrow> bool" where
  "numeric_value v = (case v of JNum x \<Rightarrow> x \<noteq> NaN | _ \<Rightarrow> False)"

definition date_value :: "jsval \<Rightarrow> bool" where
  "date_value v = (case v of JStr s \<Rightarrow> date_format s | _ \<Rightarrow> False)"

definition valid_metadata :: "entry \<Rightarrow> bool" where
  "valid_metadata e =
     (schema e = JNum CURRENT_SCHEMA \<and> date_value (date e)
      \<and> score_value (score e) \<and> score_value (discipline e) \<and> score_value (focus e)
      \<and> score_value (energy e) \<and> score_value (mood e)
      \<and> numeric_value (net_worth_delta e))"


text \<open>
  What decoding makes of a section text: its lines joined by line feeds (so that a
  carriage return before a line feed is gone), with the white space at both ends removed.
\<close>

definition normalise_text :: "string \<Rightarrow> string" where
  "normalise_text s = trim (join_nl (split_lines s))"

text \<open>
  No line of the text reads as a section heading, respectively as one of the five
  subsection headings.
\<close>

definition no_main_heading :: "string \<Rightarrow> bool" where
  "no_main_heading s = list_all (\<lambda>l. mainMatch l = None) (split_lines s)"

definition no_sub_heading :: "string \<Rightarrow> bool" where
  "no_sub_heading s = list_all (\<lambda>l. subMatch l = None) (split_lines s)"



text \<open>
  A carriage return at the end of a line is dropped when a line feed follows the line.
  \<open>text_lines s\<close> are the lines a text contributes to a document in which a line feed
  follows it: its lines, the last one without a carriage return at its end.
\<close>

definition strip_cr :: "string \<Rightarrow> string" where
  "strip_cr l = (if l \<noteq> [] \<and> last l = CHR 0x0D then butlast l else l)"

definition text_lines :: "string \<Rightarrow> string list" where
  "text_lines s = butlast (split_lines s) @ [strip_cr (last (split_lines s))]"

text \<open>A string without line feed and carriage return: a single line.\<close>

definition single_line :: "string \<Rightarrow> bool" where
  "single_line s = (CHR 0x0A \<notin> set s \<and> CHR 0x0D \<notin> set s)"

text \<open>The lines of the metadata block and the lines after it, as \<^verbatim>\<open>toMarkdown\<close> pushes them.\<close>

definition metadata_lines :: "entry \<Rightarrow> string list" where
  "metadata_lines e = take 8 (drop 1 (toMarkdown_lines e))"

definition body_lines :: "entry \<Rightarrow> string list" where
  "body_lines e = drop 10 (toMarkdown_lines e)"

text \<open>
  A value that comes back from the metadata block as it went in: its string is a single
  line without white space at its ends, and reading that string gives the value.
\<close>

definition round_trips :: "jsval \<Rightarrow> bool" where
  "round_trips v =
     (coerce_value (to_string v) = v \<and> single_line (to_string v)
      \<and> trim (to_string v) = to_string v)"



section \<open>Properties\<close>

subsection \<open>Deleting a cached entry\<close>

text \<open>
  Claim C9. \<^verbatim>\<open>deleteEntry(d)\<close> removes the record of \<open>d\<close> from the entries map and
  removes \<open>d\<close> from the stored date index, and it leaves the pending queue as it
  was: \<open>d\<close> is in the queue afterwards exactly if it was before.
\<close>

theorem deleteEntry_frame:
  "getEntry (deleteEntry d st) d = None
   \<and> d \<notin> set (getIndex (deleteEntry d st))
   \<and> getPending (deleteEntry d st) = getPending st
   \<and> (d \<in> set (getPending (deleteEntry d st))) = (d \<in> set (getPending st))"
  by (simp add: deleteEntry_def getEntry_def getEntries_def getIndex_def getPending_def Let_def)

theorem deleteEntry_frame_witness:
  "getEntry (deleteEntry ''2025-01-02''
       (markPending ''2025-01-02''
          (saveEntry ''2025-01-02'' (Some ''x'') None False 7 empty_storage))) ''2025-01-02'' = None
   \<and> getPending (deleteEntry ''2025-01-02''
       (markPending ''2025-01-02''
          (saveEntry ''2025-01-02'' (Some ''x'') None False 7 empty_storage))) = [''2025-01-02'']"
  using deleteEntry_frame [of "''2025-01-02''"
      "markPending ''2025-01-02'' (saveEntry ''2025-01-02'' (Some ''x'') None False 7 empty_storage)"]
  by (simp add: markPending_def addPending_def saveEntry_def updateIndex_def getEntries_def
      getPending_def getIndex_def empty_storage_def sort_reverse_def)

subsection \<open>Pagination\<close>

text \<open>
  Claim C6. For every state of the index (any date list, any search query, any stored
  page number, hence after any sequence of mutations) and every cache, \<^verbatim>\<open>getPage()\<close>
  returns a page number \<open>p\<close> with \<open>1 \<le> p \<le> totalPages\<close>, where \<open>totalPages \<ge> 1\<close> and
  \<open>totalPages = 1\<close> when the filtered list is empty; \<open>hasPrev\<close> is \<open>p > 1\<close>, \<open>hasNext\<close> is
  \<open>p < totalPages\<close>, and the module's current page is set to \<open>p\<close> by the call.
\<close>

theorem getPage_bounds:
  "1 \<le> page (fst (getPage st ix))
   \<and> page (fst (getPage st ix)) \<le> totalPages (fst (getPage st ix))
   \<and> 1 \<le> totalPages (fst (getPage st ix))
   \<and> totalPages (fst (getPage st ix)) = max 1 (ceil_div (length (getFilteredDates st ix)) PAGE_SIZE)
   \<and> (getFilteredDates st ix = [] \<longrightarrow> totalPages (fst (getPage st ix)) = 1)
   \<and> hasPrev (fst (getPage st ix)) = (1 < page (fst (getPage st ix)))
   \<and> hasNext (fst (getPage st ix)) = (page (fst (getPage st ix)) < totalPages (fst (getPage st ix)))
   \<and> ix_currentPage (snd (getPage st ix)) = page (fst (getPage st ix))
   \<and> page (fst (getPage st ix)) = max 1 (min (ix_currentPage ix) (totalPages (fst (getPage st ix))))"
proof -
  let ?t = "max 1 (ceil_div (length (getFilteredDates st ix)) PAGE_SIZE)"
  let ?p = "max 1 (min (ix_currentPage ix) ?t)"
  have t: "totalPages (fst (getPage st ix)) = ?t"
    by (simp add: getPage_def Let_def)
  have p: "page (fst (getPage st ix)) = ?p"
    by (simp add: getPage_def Let_def)
  have cp: "ix_currentPage (snd (getPage st ix)) = ?p"
    by (simp add: getPage_def Let_def)
  have hp: "hasPrev (fst (getPage st ix)) = (1 < ?p)"
    by (simp add: getPage_def Let_def)
  have hn: "hasNext (fst (getPage st ix)) = (?p < ?t)"
    by (simp add: getPage_def Let_def)
  have t1: "1 \<le> ?t"
    by (rule max.cobounded1)
  have p1: "1 \<le> ?p"
    by (rule max.cobounded1)
  have pt: "?p \<le> ?t"
    using t1 by (simp only: max.bounded_iff min.cobounded2 simp_thms)
  have e: "getFilteredDates st ix = [] \<longrightarrow> ?t = 1"
    by (simp add: ceil_div_def PAGE_SIZE_def)
  show ?thesis
    unfolding t p cp hp hn using t1 p1 pt e by blast
qed

text \<open>
  The bounds at a concrete run: the index is loaded from an empty cache, one date is added
  and removed again, and the page is set to 7. The filtered list is empty and the page
  comes back as 1 of 1.
\<close>

theorem getPage_bounds_witness:
  "getFilteredDates empty_storage
      (goToPage 7 (fst (removeDate ''2025-01-02''
         (addDate ''2025-01-02'' (init empty_storage, empty_storage))))) = []
   \<and> totalPages (fst (getPage empty_storage
      (goToPage 7 (fst (removeDate ''2025-01-02''
         (addDate ''2025-01-02'' (init empty_storage, empty_storage))))))) = 1
   \<and> page (fst (getPage empty_storage
      (goToPage 7 (fst (removeDate ''2025-01-02''
         (addDate ''2025-01-02'' (init empty_storage, empty_storage))))))) = 1"
proof -
  have ix: "goToPage 7 (fst (removeDate ''2025-01-02''
         (addDate ''2025-01-02'' (init empty_storage, empty_storage))))
      = \<lparr>ix_index = [], ix_currentPage = 7, ix_searchQuery = []\<rparr>"
    by (simp add: goToPage_def removeDate_def addDate_def init_def empty_storage_def
        getIndex_def sort_reverse_def Let_def)
  have f: "getFilteredDates empty_storage
      \<lparr>ix_index = [], ix_currentPage = 7, ix_searchQuery = []\<rparr> = []"
    by (simp add: getFilteredDates_def)
  show ?thesis
    unfolding ix
    using f getPage_bounds [of empty_storage
        "\<lparr>ix_index = [], ix_currentPage = 7, ix_searchQuery = []\<rparr>"]
    by (simp add: ceil_div_def PAGE_SIZE_def)
qed

subsection \<open>The retry wrapper\<close>

lemma withRetry_loop_stop:
  "\<not> i < n \<Longrightarrow> withRetry_loop fn n i le w ds = (Inl le, w, ds)"
  by (subst withRetry_loop.simps) simp

lemma withRetry_loop_success:
  "i < n \<Longrightarrow> fn w = (Inr v, w1) \<Longrightarrow> withRetry_loop fn n i le w ds = (Inr v, w1, ds)"
  by (subst withRetry_loop.simps) simp

lemma withRetry_loop_fatal:
  "i < n \<Longrightarrow> fn w = (Inl e, w1) \<Longrightarrow> no_retry e
   \<Longrightarrow> withRetry_loop fn n i le w ds = (Inl (Some e), w1, ds)"
  by (subst withRetry_loop.simps) simp

lemma withRetry_loop_again:
  "i < n \<Longrightarrow> fn w = (Inl e, w1) \<Longrightarrow> \<not> no_retry e
   \<Longrightarrow> withRetry_loop fn n i le w ds
       = withRetry_loop fn n (i + 1) (Some e) w1 (ds @ [2 ^ i * 1000])"
  by (subst withRetry_loop.simps) simp

lemma withRetry_loop_delays:
  "i \<le> n \<Longrightarrow> ds = map (\<lambda>k. 2 ^ k * 1000) [0..<i]
   \<Longrightarrow> \<exists>j. i \<le> j \<and> j \<le> n \<and> snd (snd (withRetry_loop fn n i le w ds)) = map (\<lambda>k. 2 ^ k * 1000) [0..<j]"
proof (induction fn n i le w ds rule: withRetry_loop.induct)
  case (1 fn n i le w ds)
  show ?case
  proof (cases "i < n")
    case False
    with 1(2,3) show ?thesis
      by (auto simp: withRetry_loop_stop)
  next
    case lt: True
    show ?thesis
    proof (cases "fst (fn w)")
      case (Inr v)
      then have "fn w = (Inr v, snd (fn w))" by (metis prod.collapse)
      from withRetry_loop_success [where fn = fn and w = w, OF lt this] lt 1(2,3) show ?thesis
        by auto
    next
      case (Inl e)
      then have fw: "fn w = (Inl e, snd (fn w))" by (metis prod.collapse)
      show ?thesis
      proof (cases "no_retry e")
        case True
        from withRetry_loop_fatal [where fn = fn and w = w, OF lt fw True] lt 1(2,3) show ?thesis
          by auto
      next
        case False
        have step: "withRetry_loop fn n i le w ds
            = withRetry_loop fn n (i + 1) (Some e) (snd (fn w)) (ds @ [2 ^ i * 1000])"
          using withRetry_loop_again [where fn = fn and w = w, OF lt fw False] .
        have "\<exists>j. i + 1 \<le> j \<and> j \<le> n \<and>
            snd (snd (withRetry_loop fn n (i + 1) (Some e) (snd (fn w)) (ds @ [2 ^ i * 1000])))
              = map (\<lambda>k. 2 ^ k * 1000) [0..<j]"
          using 1(1) [OF lt Inl] False lt 1(3) by simp
        then show ?thesis
          unfolding step by (metis add_leD1)
      qed
    qed
  qed
qed


text \<open>The runs of the wrapper with the default limit of three attempts, unrolled.\<close>

lemma withRetry_first:
  "fn w = (Inl e1, w1) \<Longrightarrow> \<not> no_retry e1
   \<Longrightarrow> withRetry fn DEFAULT_MAX_RETRIES w = withRetry_loop fn 3 (Suc 0) (Some e1) w1 [1000]"
  using withRetry_loop_again [where fn = fn and w = w and i = 0 and n = 3 and ds = "[]"]
  by (simp add: withRetry_def DEFAULT_MAX_RETRIES_def)

lemma withRetry_second:
  "fn w1 = (Inl e2, w2) \<Longrightarrow> \<not> no_retry e2
   \<Longrightarrow> withRetry_loop fn 3 (Suc 0) le w1 [1000]
       = withRetry_loop fn 3 (Suc (Suc 0)) (Some e2) w2 [1000, 2000]"
  using withRetry_loop_again [where fn = fn and w = w1 and i = "Suc 0" and n = 3 and ds = "[1000]"]
  by simp

lemma withRetry_third:
  "fn w2 = (Inl e3, w3) \<Longrightarrow> \<not> no_retry e3
   \<Longrightarrow> withRetry_loop fn 3 (Suc (Suc 0)) le w2 [1000, 2000]
       = (Inl (Some e3), w3, [1000, 2000, 4000])"
  using withRetry_loop_again [where fn = fn and w = w2 and i = "Suc (Suc 0)" and n = 3
      and ds = "[1000, 2000]" and e = e3 and ?w1.0 = w3 and le = le]
    withRetry_loop_stop [where fn = fn and i = "Suc (Suc (Suc 0))" and n = 3]
  by simp

lemma withRetry_three_failures:
  "fn w = (Inl e1, w1) \<Longrightarrow> \<not> no_retry e1 \<Longrightarrow> fn w1 = (Inl e2, w2) \<Longrightarrow> \<not> no_retry e2
   \<Longrightarrow> fn w2 = (Inl e3, w3) \<Longrightarrow> \<not> no_retry e3
   \<Longrightarrow> withRetry fn DEFAULT_MAX_RETRIES w = (Inl (Some e3), w3, [1000, 2000, 4000])"
  by (simp add: withRetry_first withRetry_second withRetry_third)

text \<open>
  Claim C5. With the default limit of three attempts: a value returned by the operation
  is returned; a failure with status 401, 403 or 404 is rethrown at once, with no further
  attempt and no delay; any other failure is followed by a delay and the next attempt, the
  delays being 1000, 2000 and 4000 ms; after the third such failure the last error is
  thrown. For every limit \<open>n\<close> the delays waited are \<open>1000 \<cdot> 2\<^sup>k\<close> for \<open>k < j\<close>, for some
  \<open>j \<le> n\<close>.
\<close>

theorem withRetry_policy:
  "(fn w = (Inr v, w1) \<longrightarrow> withRetry fn DEFAULT_MAX_RETRIES w = (Inr v, w1, []))
   \<and> (fn w = (Inl e1, w1) \<and> no_retry e1
        \<longrightarrow> withRetry fn DEFAULT_MAX_RETRIES w = (Inl (Some e1), w1, []))
   \<and> (fn w = (Inl e1, w1) \<and> \<not> no_retry e1 \<and> fn w1 = (Inr v, w2)
        \<longrightarrow> withRetry fn DEFAULT_MAX_RETRIES w = (Inr v, w2, [1000]))
   \<and> (fn w = (Inl e1, w1) \<and> \<not> no_retry e1 \<and> fn w1 = (Inl e2, w2) \<and> no_retry e2
        \<longrightarrow> withRetry fn DEFAULT_MAX_RETRIES w = (Inl (Some e2), w2, [1000]))
   \<and> (fn w = (Inl e1, w1) \<and> \<not> no_retry e1 \<and> fn w1 = (Inl e2, w2) \<and> \<not> no_retry e2
          \<and> fn w2 = (Inr v, w3)
        \<longrightarrow> withRetry fn DEFAULT_MAX_RETRIES w = (Inr v, w3, [1000, 2000]))
   \<and> (fn w = (Inl e1, w1) \<and> \<not> no_retry e1 \<and> fn w1 = (Inl e2, w2) \<and> \<not> no_retry e2
          \<and> fn w2 = (Inl e3, w3) \<and> no_retry e3
        \<longrightarrow> withRetry fn DEFAULT_MAX_RETRIES w = (Inl (Some e3), w3, [1000, 2000]))
   \<and> (fn w = (Inl e1, w1) \<and> \<not> no_retry e1 \<and> fn w1 = (Inl e2, w2) \<and> \<not> no_retry e2
          \<and> fn w2 = (Inl e3, w3) \<and> \<not> no_retry e3
        \<longrightarrow> withRetry fn DEFAULT_MAX_RETRIES w = (Inl (Some e3), w3, [1000, 2000, 4000]))
   \<and> (\<exists>j \<le> n. snd (snd (withRetry fn n w)) = map (\<lambda>k. 2 ^ k * 1000) [0..<j])"
proof -
  have a: "fn w = (Inr v, w1) \<longrightarrow> withRetry fn DEFAULT_MAX_RETRIES w = (Inr v, w1, [])"
    by (simp add: withRetry_def DEFAULT_MAX_RETRIES_def withRetry_loop_success)
  have b: "fn w = (Inl e1, w1) \<and> no_retry e1
        \<longrightarrow> withRetry fn DEFAULT_MAX_RETRIES w = (Inl (Some e1), w1, [])"
    using withRetry_loop_fatal [where fn = fn and w = w and i = 0 and n = 3]
    by (simp add: withRetry_def DEFAULT_MAX_RETRIES_def)
  have c: "fn w = (Inl e1, w1) \<and> \<not> no_retry e1 \<and> fn w1 = (Inr v, w2)
        \<longrightarrow> withRetry fn DEFAULT_MAX_RETRIES w = (Inr v, w2, [1000])"
    using withRetry_loop_success [where fn = fn and w = w1 and i = "Suc 0" and n = 3]
    by (simp add: withRetry_first)
  have d: "fn w = (Inl e1, w1) \<and> \<not> no_retry e1 \<and> fn w1 = (Inl e2, w2) \<and> no_retry e2
        \<longrightarrow> withRetry fn DEFAULT_MAX_RETRIES w = (Inl (Some e2), w2, [1000])"
    using withRetry_loop_fatal [where fn = fn and w = w1 and i = "Suc 0" and n = 3]
    by (simp add: withRetry_first)
  have e: "fn w = (Inl e1, w1) \<and> \<not> no_retry e1 \<and> fn w1 = (Inl e2, w2) \<and> \<not> no_retry e2
          \<and> fn w2 = (Inr v, w3)
        \<longrightarrow> withRetry fn DEFAULT_MAX_RETRIES w = (Inr v, w3, [1000, 2000])"
    using withRetry_loop_success [where fn = fn and w = w2 and i = "Suc (Suc 0)" and n = 3]
    by (simp add: withRetry_first withRetry_second)
  have f: "fn w = (Inl e1, w1) \<and> \<not> no_retry e1 \<and> fn w1 = (Inl e2, w2) \<and> \<not> no_retry e2
          \<and> fn w2 = (Inl e3, w3) \<and> no_retry e3
        \<longrightarrow> withRetry fn DEFAULT_MAX_RETRIES w = (Inl (Some e3), w3, [1000, 2000])"
    using withRetry_loop_fatal [where fn = fn and w = w2 and i = "Suc (Suc 0)" and n = 3]
    by (simp add: withRetry_first withRetry_second)
  have g: "fn w = (Inl e1, w1) \<and> \<not> no_retry e1 \<and> fn w1 = (Inl e2, w2) \<and> \<not> no_retry e2
          \<and> fn w2 = (Inl e3, w3) \<and> \<not> no_retry e3
        \<longrightarrow> withRetry fn DEFAULT_MAX_RETRIES w = (Inl (Some e3), w3, [1000, 2000, 4000])"
    by (simp add: withRetry_three_failures)
  have h: "\<exists>j \<le> n. snd (snd (withRetry fn n w)) = map (\<lambda>k. 2 ^ k * 1000) [0..<j]"
    using withRetry_loop_delays [of 0 n "[]" fn None w] by (auto simp: withRetry_def)
  from a b c d e f g h show ?thesis by blast
qed

text \<open>
  Two runs: an operation that fails with status 500 on every call is called three times
  (the world counts the calls); one that fails with status 404 is called once.
\<close>

theorem withRetry_policy_witness:
  "withRetry (\<lambda>k. (Inl \<lparr>err_message = ''Failed to save file'', err_status = Some 500\<rparr> :: js_error + string, Suc k))
       DEFAULT_MAX_RETRIES 0
     = (Inl (Some \<lparr>err_message = ''Failed to save file'', err_status = Some 500\<rparr>), 3,
        [1000, 2000, 4000])
   \<and> withRetry (\<lambda>k. (Inl \<lparr>err_message = ''Failed to save file'', err_status = Some 404\<rparr> :: js_error + string, Suc k))
       DEFAULT_MAX_RETRIES 0
     = (Inl (Some \<lparr>err_message = ''Failed to save file'', err_status = Some 404\<rparr>), 1, [])"
proof -
  have a: "withRetry (\<lambda>k. (Inl \<lparr>err_message = ''Failed to save file'', err_status = Some 500\<rparr> :: js_error + string, Suc k))
       DEFAULT_MAX_RETRIES 0
     = (Inl (Some \<lparr>err_message = ''Failed to save file'', err_status = Some 500\<rparr>), 3,
        [1000, 2000, 4000])"
    using withRetry_policy [where fn = "\<lambda>k. (Inl \<lparr>err_message = ''Failed to save file'', err_status = Some 500\<rparr> :: js_error + string, Suc k)"
      and w = 0 and ?w1.0 = 1 and ?w2.0 = 2 and ?w3.0 = 3 and n = 3
      and ?e1.0 = "\<lparr>err_message = ''Failed to save file'', err_status = Some 500\<rparr>"
      and ?e2.0 = "\<lparr>err_message = ''Failed to save file'', err_status = Some 500\<rparr>"
      and ?e3.0 = "\<lparr>err_message = ''Failed to save file'', err_status = Some 500\<rparr>"]
    by simp
  have b: "withRetry (\<lambda>k. (Inl \<lparr>err_message = ''Failed to save file'', err_status = Some 404\<rparr> :: js_error + string, Suc k))
       DEFAULT_MAX_RETRIES 0
     = (Inl (Some \<lparr>err_message = ''Failed to save file'', err_status = Some 404\<rparr>), 1, [])"
    using withRetry_policy [where fn = "\<lambda>k. (Inl \<lparr>err_message = ''Failed to save file'', err_status = Some 404\<rparr> :: js_error + string, Suc k)"
      and w = 0 and ?w1.0 = 1 and n = 3
      and ?e1.0 = "\<lparr>err_message = ''Failed to save file'', err_status = Some 404\<rparr>"]
    by simp
  from a b show ?thesis by (rule conjI)
qed


subsection \<open>Writing with a stale version token\<close>

lemma putFile_versioned_stale:
  assumes "files w path = Some f" and "sh = Some s" and "s \<noteq> []" and "s \<noteq> rf_sha f"
  shows "putFile (versioned_put tok) path content message sh w
           = (Inl conflict_error, w\<lparr>requests := requests w + 1\<rparr>)"
  using assms
  by (simp add: putFile_def versioned_put_def ok_def conflict_error_def Let_def)

lemma GitHub_saveEntry_versioned_stale:
  assumes stale: "files w (''entries/'' @ d @ ''.md'') = Some f" "sh = Some s" "s \<noteq> []"
    "s \<noteq> rf_sha f"
  shows "GitHub_saveEntry (versioned_put tok) d md sh w
        = (Inl (Some conflict_error), w\<lparr>requests := requests w + 3\<rparr>, [1000, 2000, 4000])"
proof -
  let ?path = "''entries/'' @ d @ ''.md''"
  let ?msg = "''Update entry: '' @ d"
  let ?fn = "putFile (versioned_put tok) ?path md ?msg sh"
  let ?w1 = "w\<lparr>requests := requests w + 1\<rparr>"
  let ?w2 = "?w1\<lparr>requests := requests ?w1 + 1\<rparr>"
  let ?w3 = "?w2\<lparr>requests := requests ?w2 + 1\<rparr>"
  have 1: "?fn w = (Inl conflict_error, ?w1)"
    using stale by (rule putFile_versioned_stale)
  have 2: "?fn ?w1 = (Inl conflict_error, ?w2)"
    using stale by (intro putFile_versioned_stale) simp_all
  have 3: "?fn ?w2 = (Inl conflict_error, ?w3)"
    using stale by (intro putFile_versioned_stale) simp_all
  have nr: "\<not> no_retry conflict_error"
    by (simp add: conflict_error_def)
  have "withRetry ?fn DEFAULT_MAX_RETRIES w = (Inl (Some conflict_error), ?w3, [1000, 2000, 4000])"
    using 1 nr 2 nr 3 nr by (rule withRetry_three_failures)
  then show ?thesis
    using stale(2,3) by (simp add: GitHub_saveEntry_def)
qed

text \<open>
  Claim C2, as the code has it. Against a remote store that honours version tokens, a
  write of an existing file with a token other than the file's current one never
  succeeds and never changes the remote file: \<^verbatim>\<open>GitHub.saveEntry\<close> throws the Conflict
  error (status 409, message "Conflict: file was modified externally"). The retry wrapper
  treats that error like any failure other than 401, 403 and 404: the write is sent three
  times, with delays of 1000, 2000 and 4000 ms, before the error is thrown. For any remote
  store, the error \<^verbatim>\<open>putFile\<close> throws on a response that is not ok carries the response's
  status, and it is the Conflict error exactly when that status is 409.
\<close>

theorem GitHub_saveEntry_stale:
  "(files w (''entries/'' @ d @ ''.md'') = Some f \<and> sh = Some s \<and> s \<noteq> [] \<and> s \<noteq> rf_sha f
      \<longrightarrow> GitHub_saveEntry (versioned_put tok) d md sh w
            = (Inl (Some conflict_error), w\<lparr>requests := requests w + 3\<rparr>, [1000, 2000, 4000]))
   \<and> (remote \<lparr>req_path = path, req_message = message, req_content = content, req_sha = Some s\<rparr> w0
          = (Inr resp, w1) \<and> s \<noteq> [] \<and> \<not> ok resp
      \<longrightarrow> (\<exists>e. putFile remote path content message (Some s) w0 = (Inl e, w1)
               \<and> err_status e = Some (resp_status resp)
               \<and> (e = conflict_error) = (resp_status resp = 409)))"
proof -
  have second: "\<exists>e. putFile remote path content message (Some s) w0 = (Inl e, w1)
               \<and> err_status e = Some (resp_status resp)
               \<and> (e = conflict_error) = (resp_status resp = 409)"
    if "remote \<lparr>req_path = path, req_message = message, req_content = content, req_sha = Some s\<rparr> w0
          = (Inr resp, w1)" "s \<noteq> []" "\<not> ok resp"
    using that by (simp add: putFile_def conflict_error_def)
  from GitHub_saveEntry_versioned_stale [of w d f sh s tok md] second show ?thesis by blast
qed

text \<open>
  The remote file is at token \<open>new\<close> and the write carries the token \<open>old\<close>: the Conflict
  error comes back and the remote content is untouched. And a remote store that answers
  409 makes \<^verbatim>\<open>putFile\<close> throw the Conflict error.
\<close>

theorem GitHub_saveEntry_stale_witness:
  "GitHub_saveEntry (versioned_put (\<lambda>c. c)) ''2025-01-02'' ''mine'' (Some ''old'')
      \<lparr>files = [''entries/2025-01-02.md'' \<mapsto> \<lparr>rf_content = ''theirs'', rf_sha = ''new''\<rparr>],
       requests = 0\<rparr>
     = (Inl (Some conflict_error),
        \<lparr>files = [''entries/2025-01-02.md'' \<mapsto> \<lparr>rf_content = ''theirs'', rf_sha = ''new''\<rparr>],
         requests = 3\<rparr>,
        [1000, 2000, 4000])
   \<and> \<not> ok \<lparr>resp_status = 409, resp_sha = []\<rparr>
   \<and> putFile (\<lambda>r u. (Inr \<lparr>resp_status = 409, resp_sha = []\<rparr>, u)) ''entries/2025-01-02.md''
        ''mine'' ''Update'' (Some ''old'') () = (Inl conflict_error, ())"
  using GitHub_saveEntry_stale [where w = "\<lparr>files = [''entries/2025-01-02.md'' \<mapsto>
        \<lparr>rf_content = ''theirs'', rf_sha = ''new''\<rparr>], requests = 0\<rparr>"
      and d = "''2025-01-02''" and sh = "Some ''old''" and s = "''old''"
      and f = "\<lparr>rf_content = ''theirs'', rf_sha = ''new''\<rparr>" and tok = "\<lambda>c. c" and md = "''mine''"
      and remote = "\<lambda>r u. (Inr \<lparr>resp_status = 409, resp_sha = []\<rparr>, u :: unit)"
      and resp = "\<lparr>resp_status = 409, resp_sha = []\<rparr>" and path = "''entries/2025-01-02.md''"
      and content = "''mine''" and message = "''Update''" and ?w0.0 = "()" and ?w1.0 = "()"]
  by (simp add: ok_def)

text \<open>
  The claim as stated says that a Conflict is not retried by the retry wrapper. It is: on
  the stale write above the remote store receives three requests, not one, and the
  wrapper waits three times.
\<close>

theorem GitHub_saveEntry_conflict_retried:
  "requests (fst (snd (GitHub_saveEntry (versioned_put (\<lambda>c. c)) ''2025-01-02'' ''mine''
      (Some ''old'')
      \<lparr>files = [''entries/2025-01-02.md'' \<mapsto> \<lparr>rf_content = ''theirs'', rf_sha = ''new''\<rparr>],
       requests = 0\<rparr>))) = 3
   \<and> snd (snd (GitHub_saveEntry (versioned_put (\<lambda>c. c)) ''2025-01-02'' ''mine''
      (Some ''old'')
      \<lparr>files = [''entries/2025-01-02.md'' \<mapsto> \<lparr>rf_content = ''theirs'', rf_sha = ''new''\<rparr>],
       requests = 0\<rparr>)) = [1000, 2000, 4000]"
  using GitHub_saveEntry_versioned_stale [where w = "\<lparr>files = [''entries/2025-01-02.md'' \<mapsto>
        \<lparr>rf_content = ''theirs'', rf_sha = ''new''\<rparr>], requests = 0\<rparr>"
      and d = "''2025-01-02''" and sh = "Some ''old''" and s = "''old''"
      and f = "\<lparr>rf_content = ''theirs'', rf_sha = ''new''\<rparr>" and tok = "\<lambda>c. c" and md = "''mine''"]
  by simp

subsection \<open>Validation\<close>






subsection \<open>Schema stamping\<close>

lemma migrate_loop_neg_inf:
  assumes ret: "migrate_loop v e = Some y"
  shows "to_number v \<noteq> NegInf"
proof (rule migrate_loop.raw_induct [where P = "\<lambda>v e y. to_number v \<noteq> NegInf", OF _ ret])
  fix f :: "jsval \<Rightarrow> entry \<Rightarrow> entry option" and version e1 y1
  assume IH: "\<And>v e y. f v e = Some y \<Longrightarrow> to_number v \<noteq> NegInf"
    and step: "(if num_less (to_number version) CURRENT_SCHEMA
      then f (JNum (increment (to_number version)))
            (case migrations (version, JNum (increment (to_number version))) of
             None \<Rightarrow> e1 | Some g \<Rightarrow> g e1)
      else Some e1) = Some y1"
  show "to_number version \<noteq> NegInf"
  proof
    assume ninf: "to_number version = NegInf"
    then have "f (JNum NegInf) e1 = Some y1"
      using step by (simp add: CURRENT_SCHEMA_def increment_def migrations_def)
    from IH [OF this] show False
      by (simp add: to_number_def)
  qed
qed

lemma migrate_loop_fin:
  "to_number v = Fin n \<Longrightarrow> migrate_loop v e = Some e"
proof (induction "nat (1 - n)" arbitrary: v n)
  case 0
  then show ?case
    by (subst migrate_loop.simps) (simp add: CURRENT_SCHEMA_def)
next
  case (Suc k)
  have "migrate_loop (JNum (Fin (n + 1))) e = Some e"
    using Suc(2) by (intro Suc(1) [of "n + 1"]) (simp_all add: to_number_def)
  then show ?case
    using Suc(2,3)
    by (subst migrate_loop.simps) (simp add: CURRENT_SCHEMA_def increment_def migrations_def)
qed

lemma migrate_loop_returns:
  "to_number v \<noteq> NegInf \<Longrightarrow> migrate_loop v e = Some e"
proof (cases "to_number v")
  case (Fin n)
  then show ?thesis by (rule migrate_loop_fin)
qed (simp_all add: migrate_loop.simps CURRENT_SCHEMA_def)

lemma migrate_loop_eq:
  "migrate_loop v e = (if to_number v = NegInf then None else Some e)"
  using migrate_loop_returns [of v e] migrate_loop_neg_inf [of v e]
  by (cases "migrate_loop v e") auto

lemma migrateEntry_eq:
  "migrateEntry e =
     (if to_number (or_else (schema e) (JNum (Fin 1))) = NegInf then None
      else Some (e\<lparr>schema := JNum CURRENT_SCHEMA\<rparr>))"
  by (simp add: migrateEntry_def migrate_loop_eq)




subsection \<open>Pending queue and sync state\<close>

lemma toMarkdown_not_empty: "toMarkdown e \<noteq> []"
  by (simp add: toMarkdown_def toMarkdown_lines_def)

lemma getPending_markSynced:
  "getPending (markSynced d sh t st) = filter (\<lambda>x. x \<noteq> d) (getPending st)"
  by (simp add: markSynced_def removePending_def getPending_def getEntries_def split: option.splits)

lemma getEntry_markSynced:
  "getEntry (markSynced d sh t st) d' =
     (if d' = d then map_option (\<lambda>r. r\<lparr>synced := True, sha := Some sh, syncedAt := Some t\<rparr>)
                       (getEntry st d)
      else getEntry st d')"
  by (simp add: markSynced_def removePending_def getEntry_def getEntries_def split: option.splits)

lemma getPending_markPending:
  "set (getPending (markPending d st)) = insert d (set (getPending st))"
  by (auto simp: markPending_def addPending_def getPending_def getEntries_def split: option.splits)

lemma getEntry_markPending:
  "getEntry (markPending d st) d' =
     (if d' = d then map_option (\<lambda>r. r\<lparr>synced := False\<rparr>) (getEntry st d)
      else getEntry st d')"
  by (simp add: markPending_def addPending_def getEntry_def getEntries_def split: option.splits)

lemma getPending_saveEntry:
  "getPending (saveEntry d md sh sy t st) = getPending st"
  by (simp add: saveEntry_def updateIndex_def getPending_def getIndex_def)

lemma getEntry_saveEntry:
  "getEntry (saveEntry d md sh sy t st) d' =
     (if d' = d
      then Some \<lparr>markdown = md, sha = sh, synced = sy, updatedAt = t, syncedAt = None\<rparr>
      else getEntry st d')"
  by (simp add: saveEntry_def updateIndex_def getEntry_def getEntries_def getIndex_def)

lemma addDate_store:
  "getPending (snd (addDate d (ix, st))) = getPending st"
  "getEntry (snd (addDate d (ix, st))) d' = getEntry st d'"
  by (simp_all add: addDate_def setIndex_def getPending_def getEntry_def getEntries_def Let_def)

text \<open>
  If queue and sync state agree at every date other than \<open>d\<close> and a record for \<open>d\<close>
  exists, then after \<^verbatim>\<open>markSynced(d)\<close> or \<^verbatim>\<open>markPending(d)\<close> they agree everywhere.
\<close>

lemma markSynced_consistent:
  assumes "\<And>x. x \<noteq> d \<Longrightarrow> queue_consistent_at st x" and "getEntry st d \<noteq> None"
  shows "queue_consistent_at (markSynced d sh t st) x"
  using assms(1) [of x] assms(2)
  by (auto simp: queue_consistent_at_def getPending_markSynced getEntry_markSynced)

lemma markPending_consistent:
  assumes "\<And>x. x \<noteq> d \<Longrightarrow> queue_consistent_at st x" and "getEntry st d \<noteq> None"
  shows "queue_consistent_at (markPending d st) x"
  using assms(1) [of x] assms(2)
  by (auto simp: queue_consistent_at_def getPending_markPending getEntry_markPending)

lemma syncEntry_begin_Some:
  "syncEntry_begin st d = Some req \<Longrightarrow> getEntry st d \<noteq> None"
  by (auto simp: syncEntry_begin_def split: option.splits)

lemma syncEntry_end_consistent:
  assumes "\<And>x. x \<noteq> d \<Longrightarrow> queue_consistent_at st x" and "getEntry st d \<noteq> None"
  shows "queue_consistent_at (fst (syncEntry_end env d req (st, w))) x"
  using markSynced_consistent [OF assms] markPending_consistent [OF assms]
  by (auto simp: syncEntry_end_def split: prod.splits sum.splits)

lemma syncEntry_consistent:
  assumes "\<And>x. queue_consistent_at st x"
  shows "queue_consistent_at (fst (syncEntry env d (st, w))) x"
proof (cases "syncEntry_begin st d")
  case None
  then show ?thesis using assms by (simp add: syncEntry_def)
next
  case (Some req)
  then show ?thesis
    using syncEntry_end_consistent [of d st env req w x] assms syncEntry_begin_Some [OF Some]
    by (simp add: syncEntry_def)
qed

lemma drain_consistent:
  assumes "\<And>x. queue_consistent_at st x"
  shows "queue_consistent_at (fst (foldl (\<lambda>s d. syncEntry env d s) (st, w) ds)) x"
  using assms
proof (induction ds arbitrary: st w x)
  case Nil
  then show ?case by simp
next
  case (Cons d ds)
  obtain st1 w1 where s1: "syncEntry env d (st, w) = (st1, w1)"
    by (cases "syncEntry env d (st, w)")
  have "\<And>y. queue_consistent_at st1 y"
    using syncEntry_consistent [of st env d w] Cons.prems s1 by simp
  from Cons.IH [OF this] show ?case
    by (simp add: s1)
qed

lemma syncPendingEntries_consistent:
  assumes "\<And>x. queue_consistent_at (store a) x"
  shows "queue_consistent_at (store (fst (syncPendingEntries env (a, w)))) x"
  using assms drain_consistent [of "store a" env w "getPending (store a)" x]
  by (auto simp: syncPendingEntries_def Let_def split: prod.splits)

lemma saveCurrentEntry_local_store:
  assumes "saveCurrentEntry_local env d form (a, w) = Some a1"
  shows "getPending (store a1) = getPending (store a)"
    and "x \<noteq> d \<Longrightarrow> getEntry (store a1) x = getEntry (store a) x"
    and "syncEntry_begin (store a1) d \<noteq> None"
    and "getEntry (store a1) d \<noteq> None"
    and "map_option synced (getEntry (store a1) d) = Some False"
proof -
  let ?e = "getFormData d form"
  obtain sh where a1: "a1 = a\<lparr>store := snd (addDate d (idx a,
        saveEntry d (Some (toMarkdown ?e)) sh False (env_now env w) (store a))),
      idx := fst (addDate d (idx a,
        saveEntry d (Some (toMarkdown ?e)) sh False (env_now env w) (store a))),
      isDirty := False\<rparr>"
    using assms
    by (auto simp: saveCurrentEntry_local_def Let_def split_beta split: if_splits)
  show "getPending (store a1) = getPending (store a)"
    by (simp add: a1 addDate_store getPending_saveEntry)
  show "x \<noteq> d \<Longrightarrow> getEntry (store a1) x = getEntry (store a) x"
    by (simp add: a1 addDate_store getEntry_saveEntry)
  show "syncEntry_begin (store a1) d \<noteq> None"
    by (simp add: a1 syncEntry_begin_def addDate_store getEntry_saveEntry toMarkdown_not_empty)
  show "getEntry (store a1) d \<noteq> None"
    by (simp add: a1 addDate_store getEntry_saveEntry)
  show "map_option synced (getEntry (store a1) d) = Some False"
    by (simp add: a1 addDate_store getEntry_saveEntry)
qed

lemma saveCurrentEntry_consistent:
  assumes "\<And>x. queue_consistent_at (store a) x"
  shows "queue_consistent_at (store (fst (saveCurrentEntry env d form (a, w)))) x"
proof (cases "saveCurrentEntry_local env d form (a, w)")
  case None
  then show ?thesis using assms by (simp add: saveCurrentEntry_def)
next
  case (Some a1)
  note loc = saveCurrentEntry_local_store [OF Some]
  have others: "\<And>y. y \<noteq> d \<Longrightarrow> queue_consistent_at (store a1) y"
    using assms loc(1,2) by (simp add: queue_consistent_at_def)
  show ?thesis
  proof (cases "env_online env w")
    case False
    then show ?thesis
      using markPending_consistent [of d "store a1" x] others loc(4) Some
      by (simp add: saveCurrentEntry_def)
  next
    case True
    obtain req where req: "syncEntry_begin (store a1) d = Some req"
      using loc(3) by auto
    have "queue_consistent_at (fst (syncEntry_end env d req (store a1, w))) x"
      using syncEntry_end_consistent [of d "store a1" env req w x] others loc(4) by simp
    then show ?thesis
      using Some True req by (simp add: saveCurrentEntry_def syncEntry_def split_beta)
  qed
qed

lemma perform_consistent:
  assumes "\<And>x. queue_consistent_at (store (fst s)) x"
  shows "queue_consistent_at (store (fst (perform env s op))) x"
proof (cases s)
  case (Pair a w)
  show ?thesis
  proof (cases op)
    case (SaveCurrentEntry d form)
    then show ?thesis
      using saveCurrentEntry_consistent [of a env d form w x] assms Pair by simp
  next
    case SyncPendingEntries
    then show ?thesis
      using syncPendingEntries_consistent [of a env w x] assms Pair by simp
  next
    case CheckPendingSync
    then show ?thesis
      using syncPendingEntries_consistent [of a env w x] assms Pair
      by (simp add: checkPendingSync_def)
  next
    case (WorldChange w1)
    then show ?thesis using assms by simp
  qed
qed

lemma run_consistent:
  assumes "\<And>x. queue_consistent_at (store (fst s)) x"
  shows "queue_consistent_at (store (fst (run env ops s))) x"
  using assms unfolding run_def
proof (induction ops arbitrary: s x)
  case Nil
  then show ?case by simp
next
  case (Cons op ops)
  have "\<And>y. queue_consistent_at (store (fst (perform env s op))) y"
    using perform_consistent [of s env op] Cons.prems by simp
  from Cons.IH [OF this] show ?case by simp
qed

text \<open>
  Claim C3, as the code has it. Starting from an empty store, after every sequence of
  completed \<^verbatim>\<open>saveCurrentEntry\<close>, \<^verbatim>\<open>syncPendingEntries\<close> and \<^verbatim>\<open>checkPendingSync\<close> calls,
  whatever the remote store answers and however the world changes in between, a date is
  in the pending queue exactly if a cache record for it exists and is not synced.
\<close>

theorem queue_consistent_after_operations:
  "queue_consistent_at (store (fst (run env ops (initial_app, w)))) d"
  by (rule run_consistent) (simp add: initial_app_def empty_storage_def queue_consistent_at_def
      getPending_def getEntry_def getEntries_def)

text \<open>
  A run: an entry is saved while offline, the connection comes back, and the queue is
  drained against a remote store that rejects every write with status 500.
\<close>

theorem queue_consistent_after_operations_witness:
  "queue_consistent_at (store (fst (run
      \<lparr>env_remote = (\<lambda>req w. (Inr \<lparr>resp_status = 500, resp_sha = []\<rparr>, w)),
       env_now = (\<lambda>w. 0), env_online = (\<lambda>w. w)\<rparr>
      [SaveCurrentEntry ''2025-01-02'' (createEntry []), WorldChange True, SyncPendingEntries]
      (initial_app, False)))) ''2025-01-02''"
  using queue_consistent_after_operations [of
      "\<lparr>env_remote = (\<lambda>req w. (Inr \<lparr>resp_status = 500, resp_sha = []\<rparr>, w)),
       env_now = (\<lambda>w. 0), env_online = (\<lambda>w. w)\<rparr>"
      "[SaveCurrentEntry ''2025-01-02'' (createEntry []), WorldChange True, SyncPendingEntries]"
      False "''2025-01-02''"]
  by simp

text \<open>
  The claim as stated fails below the level of completed operations: \<^verbatim>\<open>Storage.saveEntry\<close>
  with \<^verbatim>\<open>synced: false\<close> writes a record that is not synced and leaves the queue alone, so
  on an empty store the record is pending and its date is not in the queue. The queue is
  brought in line only by the \<^verbatim>\<open>markPending\<close> or \<^verbatim>\<open>markSynced\<close> that follows: while
  \<^verbatim>\<open>saveCurrentEntry\<close> is suspended at its remote write, the application is in a state in
  which the saved date has a pending record and is not queued.
\<close>

theorem saveEntry_leaves_queue:
  "\<not> queue_consistent_at
       (saveEntry ''2025-01-02'' (Some ''# 1. Identity'') None False 0 empty_storage) ''2025-01-02''
   \<and> map_option synced (getEntry
       (saveEntry ''2025-01-02'' (Some ''# 1. Identity'') None False 0 empty_storage) ''2025-01-02'')
      = Some False
   \<and> getPending (saveEntry ''2025-01-02'' (Some ''# 1. Identity'') None False 0 empty_storage) = []
   \<and> \<not> queue_consistent_at (store (app (step
        \<lparr>env_remote = (\<lambda>req w. (Inr \<lparr>resp_status = 500, resp_sha = []\<rparr>, w)),
         env_now = (\<lambda>w. 0), env_online = (\<lambda>w. w)\<rparr>
        \<lparr>app = initial_app, world = True, drains = [], saves = []\<rparr>
        (SaveClicked ''2025-01-02'' (createEntry []))))) ''2025-01-02''"
proof -
  let ?env = "\<lparr>env_remote = (\<lambda>req w. (Inr \<lparr>resp_status = 500, resp_sha = []\<rparr>, w)),
         env_now = (\<lambda>w. 0), env_online = (\<lambda>w. w)\<rparr>"
  have low: "\<not> queue_consistent_at
       (saveEntry ''2025-01-02'' (Some ''# 1. Identity'') None False 0 empty_storage) ''2025-01-02''
   \<and> map_option synced (getEntry
       (saveEntry ''2025-01-02'' (Some ''# 1. Identity'') None False 0 empty_storage) ''2025-01-02'')
      = Some False
   \<and> getPending (saveEntry ''2025-01-02'' (Some ''# 1. Identity'') None False 0 empty_storage) = []"
    by (simp add: queue_consistent_at_def getEntry_saveEntry getPending_saveEntry)
       (simp add: getPending_def getEntry_def getEntries_def empty_storage_def)
  have ok: "valid (validateEntry (Some (getFormData ''2025-01-02'' (createEntry []))))"
    by (simp add: validateEntry_def getFormData_def createEntry_def check_score_def
        scoreFields_def get_field_def to_number_def to_string_def truthy_def date_format_def
        is_digit_def isNaN_def Let_def)
  then obtain a1 where a1: "saveCurrentEntry_local ?env ''2025-01-02'' (createEntry [])
      (initial_app, True) = Some a1"
    by (simp add: saveCurrentEntry_local_def Let_def split_beta)
  note loc = saveCurrentEntry_local_store [OF a1]
  obtain req where req: "syncEntry_begin (store a1) ''2025-01-02'' = Some req"
    using loc(3) by auto
  have st: "app (step ?env \<lparr>app = initial_app, world = True, drains = [], saves = []\<rparr>
        (SaveClicked ''2025-01-02'' (createEntry []))) = a1"
    using a1 req by (simp add: saveCurrentEntry_call_def)
  have "getPending (store a1) = []"
    using loc(1) by (simp add: initial_app_def empty_storage_def getPending_def)
  then have "\<not> queue_consistent_at (store a1) ''2025-01-02''"
    using loc(5) by (auto simp: queue_consistent_at_def split: option.splits)
  with low show ?thesis
    unfolding st by simp
qed

subsection \<open>Single-flight drain\<close>

lemma drain_next_flag:
  "drains s = [] \<Longrightarrow> syncInProgress (app s)
   \<Longrightarrow> length (drains (drain_next s ds)) \<le> 1
       \<and> syncInProgress (app (drain_next s ds)) = (drains (drain_next s ds) \<noteq> [])"
  by (induction s ds rule: drain_next.induct) (auto split: option.splits)

lemma saveCurrentEntry_local_flag:
  "saveCurrentEntry_local env d form (a, w) = Some a1 \<Longrightarrow> syncInProgress a1 = syncInProgress a"
  by (auto simp: saveCurrentEntry_local_def Let_def split_beta split: if_splits)

lemma syncPendingEntries_call_guard:
  "syncInProgress (app s) \<Longrightarrow> syncPendingEntries_call env s = s"
  by (simp add: syncPendingEntries_call_def)

lemma step_single_flight:
  assumes "length (drains s) \<le> 1" and "syncInProgress (app s) = (drains s \<noteq> [])"
  shows "length (drains (step env s ev)) \<le> 1
     \<and> syncInProgress (app (step env s ev)) = (drains (step env s ev) \<noteq> [])"
proof -
  have call: "length (drains (syncPendingEntries_call env s)) \<le> 1
     \<and> syncInProgress (app (syncPendingEntries_call env s))
         = (drains (syncPendingEntries_call env s) \<noteq> [])"
  proof (cases "syncInProgress (app s)")
    case True
    then show ?thesis using assms by (simp add: syncPendingEntries_call_guard)
  next
    case False
    then have "drains s = []" using assms(2) by simp
    then show ?thesis
      using assms False
        drain_next_flag [of "s\<lparr>app := (app s)\<lparr>syncInProgress := True\<rparr>\<rparr>" "getPending (store (app s))"]
      by (simp add: syncPendingEntries_call_def Let_def)
  qed
  show ?thesis
  proof (cases ev)
    case TimerFired
    then show ?thesis using call assms by simp
  next
    case WentOnline
    then show ?thesis using call by simp
  next
    case Invoked
    then show ?thesis using call by simp
  next
    case (SaveClicked d form)
    then show ?thesis
      using assms saveCurrentEntry_local_flag [of env d form "app s" "world s"]
      by (auto simp: saveCurrentEntry_call_def split: option.splits)
  next
    case (DrainResumed i)
    show ?thesis
    proof (cases "i < length (drains s)")
      case False
      then show ?thesis using assms DrainResumed by (simp add: drain_resume_def)
    next
      case True
      then have len: "length (drains s) = 1" and i0: "i = 0"
        using assms(1) by auto
      have dropnil: "drop (Suc 0) (drains s) = []"
        using len by simp
      let ?dr = "drains s ! 0"
      let ?r = "syncEntry_end env (dr_date ?dr) (dr_request ?dr) (store (app s), world s)"
      let ?s1 = "s\<lparr>app := (app s)\<lparr>store := fst ?r\<rparr>, world := snd ?r, drains := []\<rparr>"
      have flag: "syncInProgress (app s)" using assms(2) True by auto
      have "drain_resume env i s = drain_next ?s1 (dr_rest ?dr)"
        using True i0 dropnil by (simp add: drain_resume_def Let_def split_beta)
      then show ?thesis
        using DrainResumed drain_next_flag [of ?s1 "dr_rest ?dr"] flag by simp
    qed
  next
    case (SaveResumed i)
    then show ?thesis
      using assms by (simp add: saveCurrentEntry_resume_def Let_def split_beta)
  next
    case (WorldChanged w1)
    then show ?thesis using assms by simp
  qed
qed

lemma reachable_single_flight:
  "reachable env s \<Longrightarrow>
     length (drains s) \<le> 1 \<and> syncInProgress (app s) = (drains s \<noteq> [])"
proof (induction rule: reachable.induct)
  case (start st w)
  show ?case by simp
next
  case (handle s ev)
  then show ?case using step_single_flight [of s env ev] by simp
qed

text \<open>
  Claim C8. In every state the application can reach, by any interleaving of timer
  ticks, \<^verbatim>\<open>online\<close> events, direct calls, saves and completions of remote writes, at most one
  call of \<^verbatim>\<open>syncPendingEntries\<close> is suspended in its loop, and \<^verbatim>\<open>syncInProgress\<close> is set
  exactly while one is. While one is, a further call of \<^verbatim>\<open>syncPendingEntries\<close> (from the
  timer, the \<^verbatim>\<open>online\<close> event or directly) returns at once and changes nothing.
\<close>

theorem syncPendingEntries_single_flight:
  "reachable env s \<Longrightarrow>
     length (drains s) \<le> 1
     \<and> syncInProgress (app s) = (drains s \<noteq> [])
     \<and> (drains s \<noteq> [] \<longrightarrow>
          syncPendingEntries_call env s = s \<and> step env s TimerFired = s
          \<and> step env s WentOnline = s \<and> step env s Invoked = s)"
  using reachable_single_flight [of env s]
  by (auto simp: syncPendingEntries_call_guard)

text \<open>
  A drain in flight: the cache holds one pending entry, the \<^verbatim>\<open>online\<close> event starts a
  drain that suspends at its write, and the timer firing next changes nothing.
\<close>

theorem syncPendingEntries_single_flight_witness:
  "drains (step
      \<lparr>env_remote = (\<lambda>req w. (Inr \<lparr>resp_status = 500, resp_sha = []\<rparr>, w)),
       env_now = (\<lambda>w. 0), env_online = (\<lambda>w. w)\<rparr>
      \<lparr>app = \<lparr>store = markPending ''2025-01-02''
                 (saveEntry ''2025-01-02'' (Some ''text'') None False 0 empty_storage),
              idx = init (markPending ''2025-01-02''
                 (saveEntry ''2025-01-02'' (Some ''text'') None False 0 empty_storage)),
              syncInProgress = False, isDirty = False\<rparr>,
       world = True, drains = [], saves = []\<rparr> WentOnline)
     = [\<lparr>dr_date = ''2025-01-02'', dr_request = (''text'', None), dr_rest = []\<rparr>]
   \<and> step
      \<lparr>env_remote = (\<lambda>req w. (Inr \<lparr>resp_status = 500, resp_sha = []\<rparr>, w)),
       env_now = (\<lambda>w. 0), env_online = (\<lambda>w. w)\<rparr>
      (step
        \<lparr>env_remote = (\<lambda>req w. (Inr \<lparr>resp_status = 500, resp_sha = []\<rparr>, w)),
         env_now = (\<lambda>w. 0), env_online = (\<lambda>w. w)\<rparr>
        \<lparr>app = \<lparr>store = markPending ''2025-01-02''
                   (saveEntry ''2025-01-02'' (Some ''text'') None False 0 empty_storage),
                idx = init (markPending ''2025-01-02''
                   (saveEntry ''2025-01-02'' (Some ''text'') None False 0 empty_storage)),
                syncInProgress = False, isDirty = False\<rparr>,
         world = True, drains = [], saves = []\<rparr> WentOnline) TimerFired
     = step
        \<lparr>env_remote = (\<lambda>req w. (Inr \<lparr>resp_status = 500, resp_sha = []\<rparr>, w)),
         env_now = (\<lambda>w. 0), env_online = (\<lambda>w. w)\<rparr>
        \<lparr>app = \<lparr>store = markPending ''2025-01-02''
                   (saveEntry ''2025-01-02'' (Some ''text'') None False 0 empty_storage),
                idx = init (markPending ''2025-01-02''
                   (saveEntry ''2025-01-02'' (Some ''text'') None False 0 empty_storage)),
                syncInProgress = False, isDirty = False\<rparr>,
         world = True, drains = [], saves = []\<rparr> WentOnline"
proof -
  let ?env = "\<lparr>env_remote = (\<lambda>req w. (Inr \<lparr>resp_status = 500, resp_sha = []\<rparr>, w)),
       env_now = (\<lambda>w. 0), env_online = (\<lambda>w. w)\<rparr>"
  let ?st = "markPending ''2025-01-02''
                 (saveEntry ''2025-01-02'' (Some ''text'') None False 0 empty_storage)"
  let ?s0 = "\<lparr>app = \<lparr>store = ?st, idx = init ?st, syncInProgress = False, isDirty = False\<rparr>,
       world = True, drains = [], saves = []\<rparr>"
  have p: "getPending ?st = [''2025-01-02'']"
    by (simp add: markPending_def addPending_def saveEntry_def updateIndex_def getPending_def
        getEntries_def getIndex_def empty_storage_def sort_reverse_def)
  have b: "syncEntry_begin ?st ''2025-01-02'' = Some (''text'', None)"
    by (simp add: syncEntry_begin_def getEntry_markPending getEntry_saveEntry)
  have d: "drains (step ?env ?s0 WentOnline)
      = [\<lparr>dr_date = ''2025-01-02'', dr_request = (''text'', None), dr_rest = []\<rparr>]"
    by (simp add: syncPendingEntries_call_def p b)
  have r: "reachable ?env (step ?env ?s0 WentOnline)"
    by (intro reachable.intros)
  from syncPendingEntries_single_flight [OF r] d show ?thesis
    by simp
qed

subsection \<open>Import\<close>

lemma getEntry_empty: "getEntry empty_storage d = None"
  by (simp add: getEntry_def getEntries_def empty_storage_def)

lemma import_step_entry:
  "getEntry (snd (addDate d (ix, saveEntry d md sh False t st))) x =
     (if x = d
      then Some \<lparr>markdown = md, sha = sh, synced = False, updatedAt = t, syncedAt = None\<rparr>
      else getEntry st x)"
  by (simp add: addDate_store getEntry_saveEntry)

text \<open>
  The loop never writes the record of a date that is synced or that fails the date
  pattern, and it leaves every date as synced or not as it found it.
\<close>

lemma import_loop_frame:
  "synced_at (snd s) x \<or> \<not> date_format x
   \<Longrightarrow> getEntry (snd (snd (import_loop clock i es imp skp s))) x = getEntry (snd s) x"
proof (induction es arbitrary: i imp skp s)
  case Nil
  show ?case by simp
next
  case (Cons p rest)
  obtain d entry where p: "p = (d, entry)" by (cases p)
  show ?case
  proof (cases "\<not> date_format d \<or> synced_at (snd s) d")
    case True
    have "import_loop clock i (p # rest) imp skp s = import_loop clock (i + 1) rest imp (skp + 1) s"
      using True p by (auto simp: synced_at_def)
    then show ?thesis
      using Cons.IH [OF Cons.prems, of "i + 1" imp "skp + 1"] by simp
  next
    case False
    then have xd: "x \<noteq> d"
      using Cons.prems by auto
    show ?thesis
    proof (cases entry)
      case ImportNull
      then show ?thesis using False p by (simp add: synced_at_def)
    next
      case (ImportObject md sh)
      let ?sh = "case sh of Some x \<Rightarrow> if x \<noteq> [] then Some x else None | None \<Rightarrow> None"
      let ?s1 = "addDate d (fst s, saveEntry d md ?sh False (clock i) (snd s))"
      have keep: "getEntry (snd ?s1) x = getEntry (snd s) x"
        using xd by (simp add: import_step_entry)
      then have "synced_at (snd ?s1) x \<or> \<not> date_format x"
        using Cons.prems by (simp add: synced_at_def)
      from Cons.IH [OF this, of "i + 1" "imp + 1" skp]
      have "getEntry (snd (snd (import_loop clock (i + 1) rest (imp + 1) skp ?s1))) x
          = getEntry (snd ?s1) x" .
      moreover have "import_loop clock i (p # rest) imp skp s
          = import_loop clock (i + 1) rest (imp + 1) skp ?s1"
        using False p ImportObject by (simp add: synced_at_def)
      ultimately show ?thesis
        using keep by simp
    qed
  qed
qed

lemma import_loop_counts:
  "import_loop clock i es imp skp s = (Inr res, s1)
   \<Longrightarrow> skipped res = skp + length (filter (\<lambda>(d, v). \<not> date_format d \<or> synced_at (snd s) d) es)
     \<and> imported res = imp + length (filter (\<lambda>(d, v). date_format d \<and> \<not> synced_at (snd s) d) es)"
proof (induction es arbitrary: i imp skp s)
  case Nil
  then show ?case by auto
next
  case (Cons p rest)
  obtain d entry where p: "p = (d, entry)" by (cases p)
  show ?case
  proof (cases "\<not> date_format d \<or> synced_at (snd s) d")
    case True
    have "import_loop clock i (p # rest) imp skp s = import_loop clock (i + 1) rest imp (skp + 1) s"
      using True p by (auto simp: synced_at_def)
    with Cons.prems have "import_loop clock (i + 1) rest imp (skp + 1) s = (Inr res, s1)"
      by simp
    from Cons.IH [OF this] show ?thesis
      using True p by auto
  next
    case False
    show ?thesis
    proof (cases entry)
      case ImportNull
      then show ?thesis using False p Cons.prems by (simp add: synced_at_def)
    next
      case (ImportObject md sh)
      let ?sh = "case sh of Some x \<Rightarrow> if x \<noteq> [] then Some x else None | None \<Rightarrow> None"
      let ?s1 = "addDate d (fst s, saveEntry d md ?sh False (clock i) (snd s))"
      have same: "synced_at (snd ?s1) y = synced_at (snd s) y" for y
        using False by (simp add: synced_at_def import_step_entry)
      have "import_loop clock i (p # rest) imp skp s
          = import_loop clock (i + 1) rest (imp + 1) skp ?s1"
        using False p ImportObject by (simp add: synced_at_def)
      with Cons.prems have "import_loop clock (i + 1) rest (imp + 1) skp ?s1 = (Inr res, s1)"
        by simp
      from Cons.IH [OF this] show ?thesis
        using False p by (simp add: same)
    qed
  qed
qed

text \<open>
  Claim C7, as the code has it. For every JSON import, whether it completes or throws: the
  cache record of a date that is marked synced is unchanged, and so is the cache record
  of every key that does not match the pattern \<^verbatim>\<open>YYYY-MM-DD\<close> (four digits, two digits and
  two digits, separated by dashes). When the import completes, \<open>skipped\<close> counts the keys
  that fail the pattern or are synced locally, and \<open>imported\<close> counts the others. The key
  \<^verbatim>\<open>2025-13-40\<close> matches the pattern: no calendar check is made.
\<close>

theorem importFromJSON_skips:
  "(synced_at st d \<longrightarrow>
      getEntry (snd (snd (importFromJSON clock data (ix, st)))) d = getEntry st d)
   \<and> (\<not> date_format d \<longrightarrow>
      getEntry (snd (snd (importFromJSON clock data (ix, st)))) d = getEntry st d)
   \<and> (export_entries data = Some es \<and> importFromJSON clock data (ix, st) = (Inr res, s1) \<longrightarrow>
      skipped res = length (filter (\<lambda>(k, v). \<not> date_format k \<or> synced_at st k) es)
      \<and> imported res = length (filter (\<lambda>(k, v). date_format k \<and> \<not> synced_at st k) es))
   \<and> date_format ''2025-13-40''"
proof -
  have frame: "synced_at st d \<or> \<not> date_format d \<Longrightarrow>
      getEntry (snd (snd (importFromJSON clock data (ix, st)))) d = getEntry st d"
    using import_loop_frame [of "(ix, st)" d clock 0 _ 0 0]
    by (simp add: importFromJSON_def split: option.splits)
  have counts: "skipped res = length (filter (\<lambda>(k, v). \<not> date_format k \<or> synced_at st k) es)
      \<and> imported res = length (filter (\<lambda>(k, v). date_format k \<and> \<not> synced_at st k) es)"
    if "export_entries data = Some es" "importFromJSON clock data (ix, st) = (Inr res, s1)"
    using import_loop_counts [of clock 0 es 0 0 "(ix, st)" res s1] that
    by (simp add: importFromJSON_def)
  have pat: "date_format ''2025-13-40''"
    by (simp add: date_format_def is_digit_def)
  from frame counts pat show ?thesis by blast
qed

text \<open>
  An import of three keys into a cache that holds a synced record for the first: the
  first is skipped and its record kept, the second fails the pattern and is skipped, the
  third is imported.
\<close>

theorem importFromJSON_skips_witness:
  "fst (importFromJSON (\<lambda>i. 5)
      \<lparr>export_entries = Some [(''2025-01-02'', ImportObject (Some ''theirs'') None),
                               (''2025-1-3'', ImportObject (Some ''short'') None),
                               (''2025-01-04'', ImportObject (Some ''new'') None)]\<rparr>
      (init empty_storage,
       markSynced ''2025-01-02'' ''abc'' 2
         (saveEntry ''2025-01-02'' (Some ''mine'') None False 3 empty_storage)))
     = Inr \<lparr>imported = 1, skipped = 2\<rparr>
   \<and> getEntry (snd (snd (importFromJSON (\<lambda>i. 5)
      \<lparr>export_entries = Some [(''2025-01-02'', ImportObject (Some ''theirs'') None),
                               (''2025-1-3'', ImportObject (Some ''short'') None),
                               (''2025-01-04'', ImportObject (Some ''new'') None)]\<rparr>
      (init empty_storage,
       markSynced ''2025-01-02'' ''abc'' 2
         (saveEntry ''2025-01-02'' (Some ''mine'') None False 3 empty_storage))))) ''2025-01-02''
     = Some \<lparr>markdown = Some ''mine'', sha = Some ''abc'', synced = True, updatedAt = 3,
              syncedAt = Some 2\<rparr>
   \<and> getEntry (snd (snd (importFromJSON (\<lambda>i. 5)
      \<lparr>export_entries = Some [(''2025-01-02'', ImportObject (Some ''theirs'') None),
                               (''2025-1-3'', ImportObject (Some ''short'') None),
                               (''2025-01-04'', ImportObject (Some ''new'') None)]\<rparr>
      (init empty_storage,
       markSynced ''2025-01-02'' ''abc'' 2
         (saveEntry ''2025-01-02'' (Some ''mine'') None False 3 empty_storage))))) ''2025-1-3''
     = None"
proof -
  let ?st = "markSynced ''2025-01-02'' ''abc'' 2
         (saveEntry ''2025-01-02'' (Some ''mine'') None False 3 empty_storage)"
  let ?es = "[(''2025-01-02'', ImportObject (Some ''theirs'') None),
              (''2025-1-3'', ImportObject (Some ''short'') None),
              (''2025-01-04'', ImportObject (Some ''new'') None)]"
  let ?data = "\<lparr>export_entries = Some ?es\<rparr>"
  have e2: "getEntry ?st ''2025-01-02''
      = Some \<lparr>markdown = Some ''mine'', sha = Some ''abc'', synced = True, updatedAt = 3,
              syncedAt = Some 2\<rparr>"
    by (simp add: getEntry_markSynced getEntry_saveEntry)
  have e3: "getEntry ?st ''2025-1-3'' = None"
    by (simp add: getEntry_markSynced getEntry_saveEntry getEntry_empty)
  have e4: "getEntry ?st ''2025-01-04'' = None"
    by (simp add: getEntry_markSynced getEntry_saveEntry getEntry_empty)
  have s2: "synced_at ?st ''2025-01-02''" and s4: "\<not> synced_at ?st ''2025-01-04''"
    by (simp_all add: synced_at_def e2 e4)
  have f2: "date_format ''2025-01-02''" and f3: "\<not> date_format ''2025-1-3''"
    and f4: "date_format ''2025-01-04''"
    by (simp_all add: date_format_def is_digit_def)
  obtain res s1 where run: "importFromJSON (\<lambda>i. 5) ?data (init empty_storage, ?st) = (Inr res, s1)"
    using s2 s4 f2 f3 f4 by (simp add: importFromJSON_def synced_at_def)
  have "skipped res = 2 \<and> imported res = 1"
    using importFromJSON_skips [of ?st "''2025-01-02''" "\<lambda>i. 5" ?data "init empty_storage" ?es res s1]
      run s2 s4 f2 f3 f4
    by simp
  then have r: "res = \<lparr>imported = 1, skipped = 2\<rparr>"
    by simp
  show ?thesis
    using importFromJSON_skips [of ?st "''2025-01-02''" "\<lambda>i. 5" ?data "init empty_storage"]
      importFromJSON_skips [of ?st "''2025-1-3''" "\<lambda>i. 5" ?data "init empty_storage"]
      s2 f3 e2 e3 run r
    by simp
qed

text \<open>
  The claim as stated says that the key \<^verbatim>\<open>2025-13-40\<close> is skipped with no cache mutation.
  It is imported: \<open>imported\<close> is 1, \<open>skipped\<close> is 0, and the cache holds a record under it.
\<close>

theorem importFromJSON_invalid_calendar_date:
  "fst (importFromJSON (\<lambda>i. 5)
      \<lparr>export_entries = Some [(''2025-13-40'', ImportObject (Some ''text'') None)]\<rparr>
      (init empty_storage, empty_storage))
     = Inr \<lparr>imported = 1, skipped = 0\<rparr>
   \<and> getEntry (snd (snd (importFromJSON (\<lambda>i. 5)
      \<lparr>export_entries = Some [(''2025-13-40'', ImportObject (Some ''text'') None)]\<rparr>
      (init empty_storage, empty_storage)))) ''2025-13-40''
     = Some \<lparr>markdown = Some ''text'', sha = None, synced = False, updatedAt = 5,
              syncedAt = None\<rparr>"
proof -
  have f: "date_format ''2025-13-40''"
    by (simp add: date_format_def is_digit_def)
  show ?thesis
    by (simp add: importFromJSON_def f getEntry_empty import_step_entry)
qed

subsection \<open>Round trip\<close>

subsubsection \<open>Lines\<close>

lemma split_lines_not_Nil [simp]: "split_lines s \<noteq> []"
  by (induction s rule: split_lines.induct) (auto split: list.splits)

lemma split_lines_LF [simp]: "split_lines (CHR 0x0A # t) = [] # split_lines t"
  by (cases t) simp_all

lemma split_lines_CRLF [simp]: "split_lines (CHR 0x0D # CHR 0x0A # t) = [] # split_lines t"
  by simp

lemma split_lines_Cons:
  "c \<noteq> CHR 0x0A \<Longrightarrow> \<not> (c = CHR 0x0D \<and> (t \<noteq> [] \<and> hd t = CHR 0x0A))
   \<Longrightarrow> split_lines (c # t) = (c # hd (split_lines t)) # tl (split_lines t)"
  by (cases t) (auto split: list.splits)

lemma split_lines_single: "single_line s \<Longrightarrow> split_lines s = [s]"
proof (induction s)
  case Nil
  show ?case by simp
next
  case (Cons c s)
  then have "split_lines (c # s) = (c # hd (split_lines s)) # tl (split_lines s)"
    by (intro split_lines_Cons) (auto simp: single_line_def)
  then show ?case using Cons by (simp add: single_line_def)
qed

lemma split_lines_eq_empty_line: "split_lines u = [[]] \<Longrightarrow> u = []"
proof (cases u)
  case Nil
  then show ?thesis by simp
next
  case (Cons c v)
  assume h: "split_lines u = [[]]"
  show ?thesis
  proof (cases "c = CHR 0x0A")
    case True
    then show ?thesis using h Cons by simp
  next
    case nlf: False
    show ?thesis
    proof (cases "c = CHR 0x0D \<and> v \<noteq> [] \<and> hd v = CHR 0x0A")
      case True
      then obtain w where "v = CHR 0x0A # w" by (cases v) auto
      then show ?thesis using h Cons True by simp
    next
      case False
      then have "split_lines (c # v) = (c # hd (split_lines v)) # tl (split_lines v)"
        using nlf by (intro split_lines_Cons) auto
      then show ?thesis using h Cons by simp
    qed
  qed
qed

lemma text_lines_not_Nil [simp]: "text_lines s \<noteq> []"
  by (simp add: text_lines_def)

lemma text_lines_Nil: "text_lines [] = [[]]"
  by (simp add: text_lines_def strip_cr_def)

lemma text_lines_LF: "text_lines (CHR 0x0A # u) = [] # text_lines u"
  by (simp add: text_lines_def)

lemma text_lines_CRLF: "text_lines (CHR 0x0D # CHR 0x0A # u) = [] # text_lines u"
  by (simp add: text_lines_def)

lemma text_lines_CR: "text_lines [CHR 0x0D] = [[]]"
  by (simp add: text_lines_def strip_cr_def)

lemma strip_cr_Cons: "x \<noteq> [] \<Longrightarrow> strip_cr (c # x) = c # strip_cr x"
  by (simp add: strip_cr_def)

lemma text_lines_Cons:
  assumes "c \<noteq> CHR 0x0A" and "\<not> (c = CHR 0x0D \<and> (u = [] \<or> hd u = CHR 0x0A))"
  shows "text_lines (c # u) = (c # hd (text_lines u)) # tl (text_lines u)"
proof -
  obtain x xs where X: "split_lines u = x # xs"
    by (cases "split_lines u") auto
  have r: "split_lines (c # u) = (c # x) # xs"
    using split_lines_Cons [of c u] assms X by auto
  show ?thesis
  proof (cases xs)
    case Nil
    have "strip_cr (c # x) = c # strip_cr x"
    proof (cases "x = []")
      case True
      then have "u = []" using X Nil split_lines_eq_empty_line by simp
      then have "c \<noteq> CHR 0x0D" using assms(2) by simp
      then show ?thesis using True by (simp add: strip_cr_def)
    next
      case False
      then show ?thesis by (rule strip_cr_Cons)
    qed
    then show ?thesis
      using r X Nil by (simp add: text_lines_def)
  next
    case (Cons y ys)
    then show ?thesis
      using r X by (simp add: text_lines_def)
  qed
qed

lemma text_lines_append_LF:
  "split_lines (s @ CHR 0x0A # t) = text_lines s @ split_lines t"
proof (induction s rule: length_induct)
  case (1 s)
  show ?case
  proof (cases s)
    case Nil
    then show ?thesis by (simp add: text_lines_Nil)
  next
    case (Cons c u)
    have ihu: "split_lines (u @ CHR 0x0A # t) = text_lines u @ split_lines t"
      using 1 Cons by simp
    show ?thesis
    proof (cases "c = CHR 0x0A")
      case True
      then show ?thesis
        using Cons ihu by (simp add: text_lines_LF)
    next
      case nlf: False
      show ?thesis
      proof (cases "c = CHR 0x0D \<and> (u = [] \<or> hd u = CHR 0x0A)")
        case True
        show ?thesis
        proof (cases u)
          case Nil
          then show ?thesis using True Cons by (simp add: text_lines_CR)
        next
          case (Cons d v)
          then have d: "d = CHR 0x0A" using True by simp
          have "split_lines (v @ CHR 0x0A # t) = text_lines v @ split_lines t"
            using 1 \<open>s = c # u\<close> Cons by simp
          then show ?thesis
            using True \<open>s = c # u\<close> Cons d by (simp add: text_lines_CRLF)
        qed
      next
        case False
        have hdu: "u \<noteq> [] \<Longrightarrow> hd (u @ CHR 0x0A # t) = hd u"
          by simp
        have "split_lines (c # (u @ CHR 0x0A # t))
            = (c # hd (split_lines (u @ CHR 0x0A # t))) # tl (split_lines (u @ CHR 0x0A # t))"
          using nlf False hdu by (intro split_lines_Cons) auto
        then have "split_lines (s @ CHR 0x0A # t)
            = (c # hd (text_lines u)) # tl (text_lines u) @ split_lines t"
          using Cons ihu by simp
        then show ?thesis
          using text_lines_Cons [OF nlf False] Cons by simp
      qed
    qed
  qed
qed

lemma strip_cr_single: "single_line s \<Longrightarrow> strip_cr s = s"
proof -
  assume "single_line s"
  then have "s \<noteq> [] \<Longrightarrow> last s \<noteq> CHR 0x0D"
    by (metis last_in_set single_line_def)
  then show ?thesis by (auto simp: strip_cr_def)
qed

lemma text_lines_single: "single_line s \<Longrightarrow> text_lines s = [s]"
  by (simp add: text_lines_def split_lines_single strip_cr_single)

lemma strip_cr_cases: "l = strip_cr l \<or> l = strip_cr l @ [CHR 0x0D]"
proof (cases "l \<noteq> [] \<and> last l = CHR 0x0D")
  case True
  then have "l = butlast l @ [CHR 0x0D]"
    using append_butlast_last_id [of l] by simp
  then show ?thesis using True by (simp add: strip_cr_def)
next
  case False
  then show ?thesis by (auto simp: strip_cr_def)
qed

subsubsection \<open>White space\<close>

lemma trim_id: "s \<noteq> [] \<Longrightarrow> \<not> is_space (hd s) \<Longrightarrow> \<not> is_space (last s) \<Longrightarrow> trim s = s"
proof -
  assume ne: "s \<noteq> []" and h: "\<not> is_space (hd s)" and l: "\<not> is_space (last s)"
  have 1: "dropWhile is_space s = s"
    using ne h by (cases s) auto
  from ne obtain xs x where sx: "s = xs @ [x]"
    by (cases s rule: rev_cases) auto
  have 2: "dropWhile is_space (rev s) = rev s"
    using l by (simp add: sx)
  show ?thesis
    by (simp add: trim_def 1 2)
qed

lemma trim_space_Cons: "is_space c \<Longrightarrow> trim (c # s) = trim s"
  by (simp add: trim_def)

lemma dropWhile_rev_spaces:
  "list_all is_space t \<Longrightarrow> dropWhile is_space (rev t @ u) = dropWhile is_space u"
  by (induction t arbitrary: u) (auto simp: dropWhile_append)

lemma trim_append_spaces: "list_all is_space t \<Longrightarrow> trim (s @ t) = trim s"
proof -
  assume t: "list_all is_space t"
  show ?thesis
  proof (cases "list_all is_space s")
    case True
    then have a: "dropWhile is_space (s @ t) = []" and b: "dropWhile is_space s = []"
      using t by (auto simp: list_all_iff dropWhile_eq_Nil_conv)
    show ?thesis by (simp only: trim_def a b)
  next
    case False
    then have "dropWhile is_space (s @ t) = dropWhile is_space s @ t"
      by (auto simp: dropWhile_append list_all_iff)
    then show ?thesis
      using t by (simp add: trim_def dropWhile_rev_spaces)
  qed
qed

subsubsection \<open>Numbers\<close>

lemma is_digit_digit_char: "k < 10 \<Longrightarrow> is_digit (digit_char k)"
  by (simp add: is_digit_def digit_char_def)

lemma digit_val_digit_char: "k < 10 \<Longrightarrow> digit_val (digit_char k) = k"
  by (simp add: digit_val_def digit_char_def)

lemma digits_of_digits: "list_all is_digit (digits_of n)"
proof (induction n rule: digits_of.induct)
  case (1 n)
  show ?case
  proof (cases "n < 10")
    case True
    then show ?thesis by (subst digits_of.simps) (simp add: is_digit_digit_char)
  next
    case False
    then show ?thesis
      using 1 by (subst digits_of.simps) (simp add: is_digit_digit_char)
  qed
qed

lemma digits_of_not_Nil: "digits_of n \<noteq> []"
  by (subst digits_of.simps) simp

lemma nat_of_digits_snoc: "nat_of_digits (ds @ [c]) = 10 * nat_of_digits ds + digit_val c"
  by (simp add: nat_of_digits_def)

lemma nat_of_digits_digits_of: "nat_of_digits (digits_of n) = n"
proof (induction n rule: digits_of.induct)
  case (1 n)
  show ?case
  proof (cases "n < 10")
    case True
    then show ?thesis
      by (subst digits_of.simps) (simp add: nat_of_digits_def digit_val_digit_char)
  next
    case False
    then have "nat_of_digits (digits_of (n div 10)) = n div 10"
      using 1 by simp
    then show ?thesis
      using False
      by (subst digits_of.simps) (simp add: nat_of_digits_snoc digit_val_digit_char)
  qed
qed

lemma digit_not_space: "is_digit c \<Longrightarrow> \<not> is_space c"
  by (auto simp: is_digit_def is_space_def)

lemma digit_not_newline: "is_digit c \<Longrightarrow> c \<noteq> CHR 0x0A \<and> c \<noteq> CHR 0x0D"
  by (auto simp: is_digit_def)

lemma digits_single_line: "list_all is_digit ds \<Longrightarrow> single_line ds"
  using digit_not_newline by (auto simp: single_line_def list_all_iff)

lemma digits_trim:
  assumes "list_all is_digit ds" and "ds \<noteq> []"
  shows "trim ds = ds" "trim (CHR ''-'' # ds) = CHR ''-'' # ds"
proof -
  have h: "is_digit (hd ds)" and l: "is_digit (last ds)"
    using assms by (auto simp: list_all_iff)
  have nh: "\<not> is_space (hd ds)" and nl: "\<not> is_space (last ds)"
    using h l by (simp_all add: digit_not_space)
  have minus: "\<not> is_space CHR ''-''"
    by (simp add: is_space_def)
  show "trim ds = ds"
    using assms(2) nh nl by (rule trim_id)
  show "trim (CHR ''-'' # ds) = CHR ''-'' # ds"
    using assms(2) nl minus by (intro trim_id) simp_all
qed

lemma digits_to_number:
  assumes "list_all is_digit ds" and "ds \<noteq> []"
  shows "unsigned_to_number ds neg
           = Fin (if neg then - int (nat_of_digits ds) else int (nat_of_digits ds))"
proof -
  have "is_digit (hd ds)"
    using assms by (cases ds) auto
  then have "ds \<noteq> ''Infinity''"
    by (auto simp: is_digit_def)
  then show ?thesis
    using assms by (simp add: unsigned_to_number_def)
qed

lemma number_round_trip: "x \<noteq> NaN \<Longrightarrow> string_to_number (number_to_string x) = x"
proof (cases x)
  case NaN
  assume "x \<noteq> NaN"
  then show ?thesis using NaN by simp
next
  case NegInf
  then show ?thesis
    by (simp add: number_to_string_def string_to_number_def trim_def is_space_def
        unsigned_to_number_def)
next
  case PosInf
  then show ?thesis
    by (simp add: number_to_string_def string_to_number_def trim_def is_space_def
        unsigned_to_number_def)
next
  case (Fin n)
  show ?thesis
  proof (cases "n < 0")
    case True
    let ?ds = "digits_of (nat (- n))"
    have "string_to_number (CHR ''-'' # ?ds) = unsigned_to_number ?ds True"
      by (simp add: string_to_number_def digits_trim digits_of_digits digits_of_not_Nil)
    then show ?thesis
      using True Fin
      by (simp add: number_to_string_def digits_to_number digits_of_digits digits_of_not_Nil
          nat_of_digits_digits_of)
  next
    case False
    let ?ds = "digits_of (nat n)"
    obtain c cs where ds: "?ds = c # cs"
      using digits_of_not_Nil [of "nat n"] by (cases ?ds) auto
    have "is_digit c"
      using digits_of_digits [of "nat n"] ds by simp
    then have "c \<noteq> CHR ''-''" "c \<noteq> CHR ''+''"
      by (auto simp: is_digit_def)
    then have "string_to_number ?ds = unsigned_to_number ?ds False"
      using ds digits_trim(1) [of ?ds] digits_of_digits [of "nat n"]
      by (simp add: string_to_number_def)
    then show ?thesis
      using False Fin
      by (simp add: number_to_string_def digits_to_number digits_of_digits digits_of_not_Nil
          nat_of_digits_digits_of)
  qed
qed

lemma number_to_string_line:
  "single_line (number_to_string x)" "trim (number_to_string x) = number_to_string x"
proof -
  have d: "single_line (digits_of k)" for k
    by (rule digits_single_line) (rule digits_of_digits)
  show "single_line (number_to_string x)"
    using d by (cases x) (auto simp: number_to_string_def single_line_def)
  show "trim (number_to_string x) = number_to_string x"
  proof (cases x)
    case (Fin n)
    then show ?thesis
      by (simp add: number_to_string_def digits_trim digits_of_digits digits_of_not_Nil)
  qed (simp_all add: number_to_string_def trim_def is_space_def)
qed

lemma coerce_number: "x \<noteq> NaN \<Longrightarrow> coerce_value (number_to_string x) = JNum x"
  by (simp add: coerce_value_def number_round_trip isNaN_def)

lemma numeric_round_trips: "numeric_value v \<Longrightarrow> round_trips v"
proof (cases v)
  case (JNum x)
  assume "numeric_value v"
  then have "x \<noteq> NaN" using JNum by (simp add: numeric_value_def)
  then show ?thesis
    using JNum coerce_number [of x] number_to_string_line [of x]
    by (simp add: round_trips_def to_string_def)
qed (simp_all add: numeric_value_def)

lemma score_numeric: "score_value v \<Longrightarrow> numeric_value v"
  by (cases v) (auto simp: score_value_def numeric_value_def in_score_range_def)

subsubsection \<open>Dates\<close>

lemma date_formatD:
  "date_format s \<Longrightarrow>
     \<exists>y1 y2 y3 y4 m1 m2 d1 d2. s = [y1, y2, y3, y4, CHR ''-'', m1, m2, CHR ''-'', d1, d2]
        \<and> is_digit y1 \<and> is_digit y2 \<and> is_digit y3 \<and> is_digit y4
        \<and> is_digit m1 \<and> is_digit m2 \<and> is_digit d1 \<and> is_digit d2"
  by (auto simp: date_format_def split: list.splits)

lemma date_round_trips: "date_value v \<Longrightarrow> round_trips v \<and> truthy v"
proof (cases v)
  case (JStr s)
  assume "date_value v"
  then have "date_format s" using JStr by (simp add: date_value_def)
  then obtain y1 y2 y3 y4 m1 m2 d1 d2
    where s: "s = [y1, y2, y3, y4, CHR ''-'', m1, m2, CHR ''-'', d1, d2]"
      and dg: "is_digit y1" "is_digit y2" "is_digit y3" "is_digit y4"
        "is_digit m1" "is_digit m2" "is_digit d1" "is_digit d2"
    using date_formatD by blast
  have minus: "CHR ''-'' \<noteq> CHR 0x0A" "CHR ''-'' \<noteq> CHR 0x0D" "\<not> is_digit CHR ''-''"
    by (simp_all add: is_digit_def)
  have line: "single_line s"
    using dg digit_not_newline by (auto simp: s single_line_def)
  have tr: "trim s = s"
    using dg(1,8) by (intro trim_id) (simp_all add: s digit_not_space)
  have "y1 \<noteq> CHR ''-''" "y1 \<noteq> CHR ''+''" "y1 \<noteq> CHR ''I''"
    using dg(1) by (auto simp: is_digit_def)
  then have "string_to_number s = NaN"
    using minus(3) by (simp add: string_to_number_def tr) (simp add: s unsigned_to_number_def)
  then show ?thesis
    using JStr line tr by (simp add: round_trips_def to_string_def coerce_value_def isNaN_def
        truthy_def s)
qed (simp_all add: date_value_def)

subsubsection \<open>The metadata block\<close>

lemma join_nl_Cons: "ys \<noteq> [] \<Longrightarrow> join_nl (x # ys) = x @ CHR 0x0A # join_nl ys"
  by (cases ys) simp_all

lemma join_nl_append:
  "xs \<noteq> [] \<Longrightarrow> ys \<noteq> [] \<Longrightarrow> join_nl (xs @ ys) = join_nl xs @ CHR 0x0A # join_nl ys"
proof (induction xs rule: join_nl.induct)
  case 1
  then show ?case by simp
next
  case (2 x)
  then show ?case by (simp add: join_nl_Cons)
next
  case (3 x y zs)
  then show ?case by simp
qed

lemma split_lines_join_single:
  "ls \<noteq> [] \<Longrightarrow> list_all single_line ls \<Longrightarrow> split_lines (join_nl ls) = ls"
proof (induction ls rule: join_nl.induct)
  case 1
  then show ?case by simp
next
  case (2 x)
  then show ?case by (simp add: split_lines_single)
next
  case (3 x y zs)
  then show ?case
    by (simp add: text_lines_append_LF text_lines_single)
qed

lemma close_fence_other:
  "c \<noteq> CHR 0x0A \<Longrightarrow> c \<noteq> CHR 0x0D \<Longrightarrow> close_fence (c # s) = None"
  by (simp add: close_fence_def eat_nl_def skip_cr_def)

lemma find_close_line:
  "single_line a \<Longrightarrow> find_close acc (a @ CHR 0x0A # rest) = find_close (rev a @ acc) (CHR 0x0A # rest)"
proof (induction a arbitrary: acc)
  case Nil
  show ?case by simp
next
  case (Cons c a)
  then have c: "c \<noteq> CHR 0x0A" "c \<noteq> CHR 0x0D" and a: "single_line a"
    by (auto simp: single_line_def)
  show ?case
    using Cons.IH [OF a, of "c # acc"] by (simp add: close_fence_other [OF c])
qed

lemma find_close_next:
  "rest \<noteq> [] \<Longrightarrow> hd rest \<noteq> CHR ''-''
   \<Longrightarrow> find_close acc (CHR 0x0A # rest) = find_close (CHR 0x0A # acc) rest"
  by (cases rest) (simp_all add: close_fence_def eat_nl_def skip_cr_def)

lemma find_close_fence:
  "find_close acc (CHR 0x0A # CHR ''-'' # CHR ''-'' # CHR ''-'' # CHR 0x0A # content)
     = Some (rev acc, content)"
  by (simp add: close_fence_def eat_nl_def skip_cr_def)

lemma find_close_lines:
  "ls \<noteq> [] \<Longrightarrow> list_all (\<lambda>l. single_line l \<and> l \<noteq> [] \<and> hd l \<noteq> CHR ''-'') ls
   \<Longrightarrow> find_close acc (join_nl ls @ CHR 0x0A # ''---'' @ CHR 0x0A # content)
       = Some (rev acc @ join_nl ls, content)"
proof (induction ls arbitrary: acc rule: join_nl.induct)
  case 1
  then show ?case by simp
next
  case (2 x)
  then have "single_line x" by simp
  from find_close_line [OF this] show ?case
    by (simp add: find_close_fence del: find_close.simps)
next
  case (3 x y zs)
  then have x: "single_line x" and y: "y \<noteq> []" "hd y \<noteq> CHR ''-''"
    and rest: "list_all (\<lambda>l. single_line l \<and> l \<noteq> [] \<and> hd l \<noteq> CHR ''-'') (y # zs)"
    by simp_all
  let ?tail = "join_nl (y # zs) @ CHR 0x0A # ''---'' @ CHR 0x0A # content"
  have ne: "?tail \<noteq> []" and hd: "hd ?tail \<noteq> CHR ''-''"
    using y by (cases zs; simp)+
  have "find_close acc (join_nl (x # y # zs) @ CHR 0x0A # ''---'' @ CHR 0x0A # content)
      = find_close (rev x @ acc) (CHR 0x0A # ?tail)"
    using find_close_line [OF x, of acc ?tail] by simp
  also have "\<dots> = find_close (CHR 0x0A # rev x @ acc) ?tail"
    using find_close_next [OF ne hd] .
  also have "\<dots> = Some (rev (CHR 0x0A # rev x @ acc) @ join_nl (y # zs), content)"
    using "3.IH" [OF _ rest] by simp
  finally show ?case by simp
qed

lemma index_of_colon:
  "CHR '':'' \<notin> set k \<Longrightarrow> index_of CHR '':'' (k @ CHR '':'' # r) = Some (length k)"
  by (induction k) auto

lemma frontmatter_line_key_value:
  assumes "CHR '':'' \<notin> set k" and "k \<noteq> []" and "trim k = k" and "trim v = v"
  shows "frontmatter_line fm (k @ '': '' @ v) = fm(k \<mapsto> coerce_value v)"
proof -
  have sp: "is_space CHR '' ''"
    by (simp add: is_space_def)
  have "frontmatter_line fm (k @ CHR '':'' # CHR '' '' # v)
      = fm(trim k \<mapsto> coerce_value (trim (CHR '' '' # v)))"
    using assms(1,2) by (simp add: frontmatter_line_def index_of_colon)
  then show ?thesis
    using assms(3,4) by (simp add: trim_space_Cons [OF sp])
qed

lemma toMarkdown_lines_split:
  "toMarkdown_lines e = ''---'' # metadata_lines e @ ''---'' # body_lines e"
  by (simp add: toMarkdown_lines_def metadata_lines_def body_lines_def)

lemma metadata_lines_eq:
  "metadata_lines e =
     [''schema: '' @ to_string (or_else (schema e) (JNum CURRENT_SCHEMA)),
      ''date: '' @ to_string (date e),
      ''score: '' @ to_string (score e),
      ''discipline: '' @ to_string (discipline e),
      ''focus: '' @ to_string (focus e),
      ''energy: '' @ to_string (energy e),
      ''mood: '' @ to_string (mood e),
      ''net_worth_delta: '' @ to_string (net_worth_delta e)]"
  by (simp add: toMarkdown_lines_def metadata_lines_def)

lemma body_lines_not_Nil: "body_lines e \<noteq> []"
  by (simp add: toMarkdown_lines_def body_lines_def)

lemma toMarkdown_split:
  "toMarkdown e = ''---'' @ CHR 0x0A # join_nl (metadata_lines e)
                   @ CHR 0x0A # ''---'' @ CHR 0x0A # join_nl (body_lines e)"
proof -
  have m: "metadata_lines e \<noteq> []"
    by (simp add: metadata_lines_eq)
  have "join_nl (metadata_lines e @ ''---'' # body_lines e)
      = join_nl (metadata_lines e) @ CHR 0x0A # ''---'' @ CHR 0x0A # join_nl (body_lines e)"
    using m body_lines_not_Nil [of e] by (simp add: join_nl_append join_nl_Cons)
  then show ?thesis
    using m by (simp add: toMarkdown_def toMarkdown_lines_split join_nl_Cons)
qed

lemma open_fence_dashes: "open_fence (''---'' @ CHR 0x0A # rest) = Some rest"
  by (simp add: open_fence_def eat_nl_def skip_cr_def)

lemma metadata_line_ok:
  assumes "k \<noteq> []" and "hd k \<noteq> CHR ''-''" and "single_line k" and "round_trips v"
  shows "single_line (k @ to_string v) \<and> k @ to_string v \<noteq> [] \<and> hd (k @ to_string v) \<noteq> CHR ''-''"
  using assms by (auto simp: round_trips_def single_line_def)

text \<open>The metadata block of an entry whose eight values come back as they went in.\<close>

lemma parseFrontmatter_toMarkdown:
  assumes "round_trips (or_else (schema e) (JNum CURRENT_SCHEMA))" and "round_trips (date e)"
    and "round_trips (score e)" and "round_trips (discipline e)" and "round_trips (focus e)"
    and "round_trips (energy e)" and "round_trips (mood e)"
    and "round_trips (net_worth_delta e)"
  shows "parseFrontmatter (toMarkdown e) =
     ([''schema'' \<mapsto> or_else (schema e) (JNum CURRENT_SCHEMA), ''date'' \<mapsto> date e,
       ''score'' \<mapsto> score e, ''discipline'' \<mapsto> discipline e, ''focus'' \<mapsto> focus e,
       ''energy'' \<mapsto> energy e, ''mood'' \<mapsto> mood e,
       ''net_worth_delta'' \<mapsto> net_worth_delta e],
      join_nl (body_lines e))"
proof -
  let ?ml = "metadata_lines e"
  have key: "frontmatter_line fm (k @ '': '' @ to_string v) = fm(k \<mapsto> v)"
    if "CHR '':'' \<notin> set k" "k \<noteq> []" "trim k = k" "round_trips v" for fm k v
    using frontmatter_line_key_value [of k "to_string v" fm] that
    by (simp add: round_trips_def)
  have keys: "trim ''schema'' = ''schema''" "trim ''date'' = ''date''"
    "trim ''score'' = ''score''" "trim ''discipline'' = ''discipline''"
    "trim ''focus'' = ''focus''" "trim ''energy'' = ''energy''" "trim ''mood'' = ''mood''"
    "trim ''net_worth_delta'' = ''net_worth_delta''"
    by (simp_all add: trim_def is_space_def)
  have l1: "frontmatter_line fm (''schema: '' @ to_string v) = fm(''schema'' \<mapsto> v)"
    if "round_trips v" for fm v
    using key [of "''schema''" v fm] that keys by simp
  have l2: "frontmatter_line fm (''date: '' @ to_string v) = fm(''date'' \<mapsto> v)"
    if "round_trips v" for fm v
    using key [of "''date''" v fm] that keys by simp
  have l3: "frontmatter_line fm (''score: '' @ to_string v) = fm(''score'' \<mapsto> v)"
    if "round_trips v" for fm v
    using key [of "''score''" v fm] that keys by simp
  have l4: "frontmatter_line fm (''discipline: '' @ to_string v) = fm(''discipline'' \<mapsto> v)"
    if "round_trips v" for fm v
    using key [of "''discipline''" v fm] that keys by simp
  have l5: "frontmatter_line fm (''focus: '' @ to_string v) = fm(''focus'' \<mapsto> v)"
    if "round_trips v" for fm v
    using key [of "''focus''" v fm] that keys by simp
  have l6: "frontmatter_line fm (''energy: '' @ to_string v) = fm(''energy'' \<mapsto> v)"
    if "round_trips v" for fm v
    using key [of "''energy''" v fm] that keys by simp
  have l7: "frontmatter_line fm (''mood: '' @ to_string v) = fm(''mood'' \<mapsto> v)"
    if "round_trips v" for fm v
    using key [of "''mood''" v fm] that keys by simp
  have l8: "frontmatter_line fm (''net_worth_delta: '' @ to_string v) = fm(''net_worth_delta'' \<mapsto> v)"
    if "round_trips v" for fm v
    using key [of "''net_worth_delta''" v fm] that keys by simp
  have fold: "foldl frontmatter_line Map.empty ?ml =
     [''schema'' \<mapsto> or_else (schema e) (JNum CURRENT_SCHEMA), ''date'' \<mapsto> date e,
       ''score'' \<mapsto> score e, ''discipline'' \<mapsto> discipline e, ''focus'' \<mapsto> focus e,
       ''energy'' \<mapsto> energy e, ''mood'' \<mapsto> mood e,
       ''net_worth_delta'' \<mapsto> net_worth_delta e]"
    unfolding metadata_lines_eq foldl.simps
    by (simp only: l1 l2 l3 l4 l5 l6 l7 l8 assms)
  have ok: "list_all (\<lambda>l. single_line l \<and> l \<noteq> [] \<and> hd l \<noteq> CHR ''-'') ?ml"
    unfolding metadata_lines_eq list.pred_inject
    by (intro conjI metadata_line_ok assms TrueI) (simp_all add: single_line_def)
  then have single: "list_all single_line ?ml"
    by (simp add: list_all_iff)
  have ne: "?ml \<noteq> []"
    by (simp add: metadata_lines_eq)
  have close: "find_close [] (join_nl ?ml @ CHR 0x0A # ''---'' @ CHR 0x0A # join_nl (body_lines e))
      = Some (join_nl ?ml, join_nl (body_lines e))"
    using find_close_lines [OF ne ok, of "[]" "join_nl (body_lines e)"] by simp
  have "open_fence (toMarkdown e)
      = Some (join_nl ?ml @ CHR 0x0A # ''---'' @ CHR 0x0A # join_nl (body_lines e))"
    unfolding toMarkdown_split by (rule open_fence_dashes)
  then show ?thesis
    using close fold split_lines_join_single [OF ne single]
    by (simp add: parseFrontmatter_def)
qed

subsubsection \<open>Headings\<close>

lemma startsWith_append: "startsWith s p \<Longrightarrow> startsWith (s @ x) p"
  by (induction s p rule: startsWith.induct) auto

lemma takeWhile_append_stop:
  "\<exists>c \<in> set s. \<not> P c \<Longrightarrow> takeWhile P (s @ x) = takeWhile P s"
  by (metis takeWhile_append1)

lemma dropWhile_append_stop:
  "\<exists>c \<in> set s. \<not> P c \<Longrightarrow> dropWhile P (s @ x) = dropWhile P s @ x"
  by (metis dropWhile_append1)

lemma mainMatch_append: "mainMatch l \<noteq> None \<Longrightarrow> mainMatch (l @ x) \<noteq> None"
proof (cases l)
  case Nil
  assume "mainMatch l \<noteq> None"
  then show ?thesis using Nil by (simp add: mainMatch_def)
next
  case (Cons c rest)
  assume m: "mainMatch l \<noteq> None"
  let ?r1 = "dropWhile is_space rest"
  let ?r2 = "dropWhile is_digit ?r1"
  have c: "c = CHR ''#''" and ws: "takeWhile is_space rest \<noteq> []"
    and ds: "takeWhile is_digit ?r1 \<noteq> []" and dot: "startsWith ?r2 ''.''"
    using m Cons by (auto simp: mainMatch_def Let_def split: if_splits)
  have r2: "?r2 \<noteq> []"
    using dot by (cases ?r2) auto
  then have stop2: "\<exists>c \<in> set ?r1. \<not> is_digit c"
    by (metis dropWhile_eq_Nil_conv)
  have r1: "?r1 \<noteq> []"
    using stop2 by (cases ?r1) auto
  have stop1: "\<exists>c \<in> set rest. \<not> is_space c"
    using r1 by (metis dropWhile_eq_Nil_conv)
  have a: "takeWhile is_space (rest @ x) = takeWhile is_space rest"
    and b: "dropWhile is_space (rest @ x) = ?r1 @ x"
    using stop1 by (simp_all add: takeWhile_append_stop dropWhile_append_stop)
  have d: "takeWhile is_digit (?r1 @ x) = takeWhile is_digit ?r1"
    and e: "dropWhile is_digit (?r1 @ x) = ?r2 @ x"
    using stop2 by (simp_all add: takeWhile_append_stop dropWhile_append_stop)
  show ?thesis
    using Cons c ws ds startsWith_append [OF dot, of x]
    by (simp add: mainMatch_def Let_def a b d e)
qed

lemma subMatch_iff:
  "subMatch l \<noteq> None \<longleftrightarrow>
     startsWith l ''##'' \<and> takeWhile is_space (drop 2 l) \<noteq> []
     \<and> (startsWith (toLowerCase (dropWhile is_space (drop 2 l))) ''health''
        \<or> startsWith (toLowerCase (dropWhile is_space (drop 2 l))) ''skill''
        \<or> startsWith (toLowerCase (dropWhile is_space (drop 2 l))) ''money''
        \<or> startsWith (toLowerCase (dropWhile is_space (drop 2 l))) ''leverage''
        \<or> startsWith (toLowerCase (dropWhile is_space (drop 2 l))) ''mind'')"
  by (auto simp: subMatch_def Let_def simp del: startsWith.simps)

lemma subMatch_append: "subMatch l \<noteq> None \<Longrightarrow> subMatch (l @ x) \<noteq> None"
proof -
  assume m: "subMatch l \<noteq> None"
  let ?r = "drop 2 l"
  let ?n = "toLowerCase (dropWhile is_space ?r)"
  have hashes: "startsWith l ''##''" and ws: "takeWhile is_space ?r \<noteq> []"
    using m unfolding subMatch_iff by blast+
  have len: "2 \<le> length l"
    using hashes by (cases l; cases "tl l"; auto)
  have name: "startsWith ?n ''health'' \<or> startsWith ?n ''skill'' \<or> startsWith ?n ''money''
      \<or> startsWith ?n ''leverage'' \<or> startsWith ?n ''mind''"
    using m unfolding subMatch_iff by blast
  then have "?n \<noteq> []"
    by (cases ?n) auto
  then have "dropWhile is_space ?r \<noteq> []"
    by (simp add: toLowerCase_def)
  then have stop: "\<exists>c \<in> set ?r. \<not> is_space c"
    by (metis dropWhile_eq_Nil_conv)
  have dr: "drop 2 (l @ x) = ?r @ x"
    using len by simp
  have ws': "takeWhile is_space (drop 2 (l @ x)) \<noteq> []"
    unfolding dr using ws stop by (simp add: takeWhile_append_stop)
  have n': "toLowerCase (dropWhile is_space (drop 2 (l @ x))) = ?n @ toLowerCase x"
    unfolding dr using stop by (simp add: dropWhile_append_stop toLowerCase_def)
  have "startsWith (?n @ toLowerCase x) ''health'' \<or> startsWith (?n @ toLowerCase x) ''skill''
      \<or> startsWith (?n @ toLowerCase x) ''money'' \<or> startsWith (?n @ toLowerCase x) ''leverage''
      \<or> startsWith (?n @ toLowerCase x) ''mind''"
    using name startsWith_append by blast
  then show ?thesis
    unfolding subMatch_iff [of "l @ x"] n'
    using startsWith_append [OF hashes, of x] ws' by blast
qed

lemma strip_cr_no_main: "mainMatch l = None \<Longrightarrow> mainMatch (strip_cr l) = None"
  by (metis strip_cr_cases mainMatch_append)

lemma strip_cr_no_sub: "subMatch l = None \<Longrightarrow> subMatch (strip_cr l) = None"
  by (metis strip_cr_cases subMatch_append)

lemma text_lines_no_main:
  "no_main_heading t \<Longrightarrow> list_all (\<lambda>l. mainMatch l = None) (text_lines t)"
proof -
  assume "no_main_heading t"
  then have all: "\<forall>l \<in> set (split_lines t). mainMatch l = None"
    by (simp add: no_main_heading_def list_all_iff)
  then have "mainMatch (last (split_lines t)) = None"
    by simp
  then have "mainMatch (strip_cr (last (split_lines t))) = None"
    by (rule strip_cr_no_main)
  then show ?thesis
    using all by (auto simp: text_lines_def list_all_iff dest: in_set_butlastD)
qed

lemma text_lines_no_sub:
  "no_sub_heading t \<Longrightarrow> list_all (\<lambda>l. subMatch l = None) (text_lines t)"
proof -
  assume "no_sub_heading t"
  then have all: "\<forall>l \<in> set (split_lines t). subMatch l = None"
    by (simp add: no_sub_heading_def list_all_iff)
  then have "subMatch (last (split_lines t)) = None"
    by simp
  then have "subMatch (strip_cr (last (split_lines t))) = None"
    by (rule strip_cr_no_sub)
  then show ?thesis
    using all by (auto simp: text_lines_def list_all_iff dest: in_set_butlastD)
qed

subsubsection \<open>Sections\<close>

lemma parse_line_text:
  "mainMatch l = None \<Longrightarrow> (currentSection st = Some 4 \<longrightarrow> subMatch l = None)
   \<Longrightarrow> parse_line st l = st\<lparr>buffer := buffer st @ [l]\<rparr>"
  by (auto simp: parse_line_def split: option.splits)

lemma parse_lines_text:
  "list_all (\<lambda>l. mainMatch l = None \<and> (currentSection st = Some 4 \<longrightarrow> subMatch l = None)) ls
   \<Longrightarrow> foldl parse_line st ls = st\<lparr>buffer := buffer st @ ls\<rparr>"
proof (induction ls arbitrary: st)
  case Nil
  show ?case by simp
next
  case (Cons l ls)
  then have l: "parse_line st l = st\<lparr>buffer := buffer st @ [l]\<rparr>"
    by (intro parse_line_text) simp_all
  have "foldl parse_line (st\<lparr>buffer := buffer st @ [l]\<rparr>) ls
      = st\<lparr>buffer := buffer st @ [l]\<rparr>\<lparr>buffer := buffer (st\<lparr>buffer := buffer st @ [l]\<rparr>) @ ls\<rparr>"
    using Cons.prems by (intro Cons.IH) simp
  then show ?case
    using l by simp
qed

lemma step_main:
  assumes "mainMatch h = Some n"
    and "list_all (\<lambda>l. mainMatch l = None \<and> (n = 4 \<longrightarrow> subMatch l = None)) ls"
  shows "foldl parse_line
           \<lparr>ps_sections = M, currentSection = cs, currentSubsection = sb, buffer = buf\<rparr> (h # ls)
         = \<lparr>ps_sections = (case cs of Some m \<Rightarrow> M(Key m sb \<mapsto> trim (join_nl buf)) | None \<Rightarrow> M),
            currentSection = Some n, currentSubsection = None, buffer = ls\<rparr>"
proof -
  let ?st = "\<lparr>ps_sections = M, currentSection = cs, currentSubsection = sb, buffer = buf\<rparr>"
  let ?s1 = "\<lparr>ps_sections = (case cs of Some m \<Rightarrow> M(Key m sb \<mapsto> trim (join_nl buf)) | None \<Rightarrow> M),
            currentSection = Some n, currentSubsection = None, buffer = []\<rparr>"
  have "parse_line ?st h = ?s1"
    using assms(1) by (simp add: parse_line_def flushBuffer_def split: option.splits)
  moreover have "foldl parse_line ?s1 ls = ?s1\<lparr>buffer := buffer ?s1 @ ls\<rparr>"
    using assms(2) by (intro parse_lines_text) simp
  ultimately show ?thesis by simp
qed

lemma step_sub:
  assumes "mainMatch h = None" and "subMatch h = Some sub"
    and "list_all (\<lambda>l. mainMatch l = None \<and> subMatch l = None) ls"
  shows "foldl parse_line
           \<lparr>ps_sections = M, currentSection = Some 4, currentSubsection = sb, buffer = buf\<rparr> (h # ls)
         = \<lparr>ps_sections = M(Key 4 sb \<mapsto> trim (join_nl buf)),
            currentSection = Some 4, currentSubsection = Some sub, buffer = ls\<rparr>"
proof -
  let ?st = "\<lparr>ps_sections = M, currentSection = Some 4, currentSubsection = sb, buffer = buf\<rparr>"
  let ?s1 = "\<lparr>ps_sections = M(Key 4 sb \<mapsto> trim (join_nl buf)),
            currentSection = Some 4, currentSubsection = Some sub, buffer = []\<rparr>"
  have "parse_line ?st h = ?s1"
    using assms(1,2) by (simp add: parse_line_def flushBuffer_def)
  moreover have "foldl parse_line ?s1 ls = ?s1\<lparr>buffer := buffer ?s1 @ ls\<rparr>"
    using assms(3) by (intro parse_lines_text) (simp add: list_all_iff)
  ultimately show ?thesis by simp
qed

lemma blank_no_heading: "mainMatch [] = None" "subMatch [] = None"
  by (simp_all add: mainMatch_def subMatch_def)

lemma main_headings:
  "mainMatch ''# 1. Identity & North Star'' = Some 1"
  "mainMatch ''# 2. Top 1-3 Priorities'' = Some 2"
  "mainMatch ''# 3. Time & Focus Plan'' = Some 3"
  "mainMatch ''# 4. Execution Checklist'' = Some 4"
  "mainMatch ''# 5. Personal Balance Sheet'' = Some 5"
  "mainMatch ''# 6. Decisions & Thinking Log'' = Some 6"
  "mainMatch ''# 7. Failure & Weakness Audit'' = Some 7"
  "mainMatch ''# 8. Fix & Upgrade Plan'' = Some 8"
  "mainMatch ''# 9. Wins & Progress'' = Some 9"
  "mainMatch ''# 10. Self-Score (0-10)'' = Some 10"
  "mainMatch ''# 11. Night Close Reflection'' = Some 11"
  by (simp_all add: mainMatch_def is_space_def is_digit_def nat_of_digits_def digit_val_def)

lemma sub_headings:
  "mainMatch ''## Health'' = None" "subMatch ''## Health'' = Some Health"
  "mainMatch ''## Skill'' = None" "subMatch ''## Skill'' = Some Skill"
  "mainMatch ''## Money'' = None" "subMatch ''## Money'' = Some Money"
  "mainMatch ''## Leverage'' = None" "subMatch ''## Leverage'' = Some Leverage"
  "mainMatch ''## Mind'' = None" "subMatch ''## Mind'' = Some Mind"
  by code_simp+

lemma join_nl_snoc: "xs \<noteq> [] \<Longrightarrow> join_nl (xs @ [y]) = join_nl xs @ CHR 0x0A # y"
  by (simp add: join_nl_append)

text \<open>
  What is stored for a text that is followed by a blank line: the lines it contributed,
  joined and trimmed, is the normalised text.
\<close>

lemma block_text: "trim (join_nl (text_lines t @ [[]])) = normalise_text t"
proof -
  let ?L = "split_lines t"
  let ?l = "last ?L"
  let ?P = "if butlast ?L = [] then [] else join_nl (butlast ?L) @ [CHR 0x0A]"
  have sp: "list_all is_space [CHR 0x0A]" "list_all is_space [CHR 0x0D]"
    by (simp_all add: is_space_def)
  have full: "join_nl ?L = ?P @ ?l"
  proof (cases "butlast ?L = []")
    case True
    have "butlast ?L @ [?l] = ?L"
      by simp
    then have "?L = [?l]"
      unfolding True by simp
    then have "join_nl ?L = join_nl [?l]"
      by simp
    then show ?thesis
      using True by simp
  next
    case False
    have "butlast ?L @ [?l] = ?L"
      by simp
    then have "join_nl ?L = join_nl (butlast ?L @ [?l])"
      by simp
    then show ?thesis
      using False join_nl_snoc [OF False, of ?l] by simp
  qed
  have stripped: "join_nl (text_lines t) = ?P @ strip_cr ?l"
    using join_nl_snoc [of "butlast ?L" "strip_cr ?l"]
    by (simp add: text_lines_def)
  have "trim (join_nl (text_lines t @ [[]])) = trim (join_nl (text_lines t) @ [CHR 0x0A])"
    by (simp add: join_nl_snoc)
  also have "\<dots> = trim (join_nl (text_lines t))"
    by (rule trim_append_spaces [OF sp(1)])
  also have "\<dots> = trim (?P @ strip_cr ?l)"
    by (simp only: stripped)
  also have "\<dots> = trim (?P @ ?l)"
  proof (cases "?l = strip_cr ?l")
    case True
    then show ?thesis by simp
  next
    case False
    then have "?l = strip_cr ?l @ [CHR 0x0D]"
      using strip_cr_cases [of ?l] by simp
    then have "?P @ ?l = (?P @ strip_cr ?l) @ [CHR 0x0D]"
      by simp
    then show ?thesis
      using trim_append_spaces [OF sp(2), of "?P @ strip_cr ?l"] by simp
  qed
  finally show ?thesis
    by (simp add: normalise_text_def full)
qed

lemma split_lines_join_Cons:
  "ys \<noteq> [] \<Longrightarrow> split_lines (join_nl (x # ys)) = text_lines x @ split_lines (join_nl ys)"
  by (simp add: join_nl_Cons text_lines_append_LF)

lemma split_lines_join_one: "split_lines (join_nl [x]) = split_lines x"
  by simp

lemma heading_lines:
  "text_lines ''# 1. Identity & North Star'' = [''# 1. Identity & North Star'']"
  "text_lines ''# 2. Top 1-3 Priorities'' = [''# 2. Top 1-3 Priorities'']"
  "text_lines ''# 3. Time & Focus Plan'' = [''# 3. Time & Focus Plan'']"
  "text_lines ''# 4. Execution Checklist'' = [''# 4. Execution Checklist'']"
  "text_lines ''## Health'' = [''## Health'']"
  "text_lines ''## Skill'' = [''## Skill'']"
  "text_lines ''## Money'' = [''## Money'']"
  "text_lines ''## Leverage'' = [''## Leverage'']"
  "text_lines ''## Mind'' = [''## Mind'']"
  "text_lines ''# 5. Personal Balance Sheet'' = [''# 5. Personal Balance Sheet'']"
  "text_lines ''# 6. Decisions & Thinking Log'' = [''# 6. Decisions & Thinking Log'']"
  "text_lines ''# 7. Failure & Weakness Audit'' = [''# 7. Failure & Weakness Audit'']"
  "text_lines ''# 8. Fix & Upgrade Plan'' = [''# 8. Fix & Upgrade Plan'']"
  "text_lines ''# 9. Wins & Progress'' = [''# 9. Wins & Progress'']"
  "text_lines ''# 10. Self-Score (0-10)'' = [''# 10. Self-Score (0-10)'']"
  "text_lines ''# 11. Night Close Reflection'' = [''# 11. Night Close Reflection'']"
  by (simp_all add: text_lines_single single_line_def)

text \<open>The lines of the text after the metadata block, heading by heading.\<close>

lemma body_split:
  "split_lines (join_nl (body_lines e)) =
     [[]]
     @ (''# 1. Identity & North Star'' # text_lines (text_of e (Key 1 None)) @ [[]])
     @ (''# 2. Top 1-3 Priorities'' # text_lines (text_of e (Key 2 None)) @ [[]])
     @ (''# 3. Time & Focus Plan'' # text_lines (text_of e (Key 3 None)) @ [[]])
     @ (''# 4. Execution Checklist'' # [[]])
     @ (''## Health'' # text_lines (text_of e (Key 4 (Some Health))) @ [[]])
     @ (''## Skill'' # text_lines (text_of e (Key 4 (Some Skill))) @ [[]])
     @ (''## Money'' # text_lines (text_of e (Key 4 (Some Money))) @ [[]])
     @ (''## Leverage'' # text_lines (text_of e (Key 4 (Some Leverage))) @ [[]])
     @ (''## Mind'' # text_lines (text_of e (Key 4 (Some Mind))) @ [[]])
     @ (''# 5. Personal Balance Sheet'' # text_lines (text_of e (Key 5 None)) @ [[]])
     @ (''# 6. Decisions & Thinking Log'' # text_lines (text_of e (Key 6 None)) @ [[]])
     @ (''# 7. Failure & Weakness Audit'' # text_lines (text_of e (Key 7 None)) @ [[]])
     @ (''# 8. Fix & Upgrade Plan'' # text_lines (text_of e (Key 8 None)) @ [[]])
     @ (''# 9. Wins & Progress'' # text_lines (text_of e (Key 9 None)) @ [[]])
     @ (''# 10. Self-Score (0-10)'' # text_lines (text_of e (Key 10 None)) @ [[]])
     @ (''# 11. Night Close Reflection'' # split_lines (text_of e (Key 11 None)))"
  by (simp add: body_lines_def toMarkdown_lines_def split_lines_join_Cons split_lines_join_one
        heading_lines text_lines_Nil del: join_nl.simps)

lemma step_first:
  assumes "mainMatch h = Some n"
    and "list_all (\<lambda>l. mainMatch l = None \<and> (n = 4 \<longrightarrow> subMatch l = None)) ls"
  shows "foldl parse_line
           \<lparr>ps_sections = M, currentSection = None, currentSubsection = sb, buffer = buf\<rparr> (h # ls)
         = \<lparr>ps_sections = M, currentSection = Some n, currentSubsection = None, buffer = ls\<rparr>"
  using step_main [OF assms, of M None sb buf] by simp

lemma step_next:
  assumes "mainMatch h = Some n"
    and "list_all (\<lambda>l. mainMatch l = None \<and> (n = 4 \<longrightarrow> subMatch l = None)) ls"
  shows "foldl parse_line
           \<lparr>ps_sections = M, currentSection = Some m, currentSubsection = sb, buffer = buf\<rparr> (h # ls)
         = \<lparr>ps_sections = M(Key m sb \<mapsto> trim (join_nl buf)),
            currentSection = Some n, currentSubsection = None, buffer = ls\<rparr>"
  using step_main [OF assms, of M "Some m" sb buf] by simp

text \<open>
  The sections read back from the text that \<^verbatim>\<open>toMarkdown\<close> writes after the metadata
  block, when the headings are the only lines that read as headings.
\<close>

lemma parseSections_body:
  assumes main: "\<And>k. k \<in> set (main_keys @ sub_keys) \<Longrightarrow> no_main_heading (text_of e k)"
    and sub: "\<And>k. k \<in> set sub_keys \<Longrightarrow> no_sub_heading (text_of e k)"
  shows "parseSections (join_nl (body_lines e)) =
       [Key 1 None \<mapsto> normalise_text (text_of e (Key 1 None)),
        Key 2 None \<mapsto> normalise_text (text_of e (Key 2 None)),
        Key 3 None \<mapsto> normalise_text (text_of e (Key 3 None)),
        Key 4 None \<mapsto> [],
        Key 4 (Some Health) \<mapsto> normalise_text (text_of e (Key 4 (Some Health))),
        Key 4 (Some Skill) \<mapsto> normalise_text (text_of e (Key 4 (Some Skill))),
        Key 4 (Some Money) \<mapsto> normalise_text (text_of e (Key 4 (Some Money))),
        Key 4 (Some Leverage) \<mapsto> normalise_text (text_of e (Key 4 (Some Leverage))),
        Key 4 (Some Mind) \<mapsto> normalise_text (text_of e (Key 4 (Some Mind))),
        Key 5 None \<mapsto> normalise_text (text_of e (Key 5 None)),
        Key 6 None \<mapsto> normalise_text (text_of e (Key 6 None)),
        Key 7 None \<mapsto> normalise_text (text_of e (Key 7 None)),
        Key 8 None \<mapsto> normalise_text (text_of e (Key 8 None)),
        Key 9 None \<mapsto> normalise_text (text_of e (Key 9 None)),
        Key 10 None \<mapsto> normalise_text (text_of e (Key 10 None)),
        Key 11 None \<mapsto> normalise_text (text_of e (Key 11 None))]"
proof -
  have nm: "list_all (\<lambda>l. mainMatch l = None) (text_lines (text_of e k))"
    if "k \<in> set main_keys" for k
    using that by (intro text_lines_no_main main) simp
  have ns: "list_all (\<lambda>l. mainMatch l = None \<and> subMatch l = None) (text_lines (text_of e k))"
    if "k \<in> set sub_keys" for k
    using text_lines_no_main [OF main, of k] text_lines_no_sub [OF sub, of k] that
    by (simp add: list_all_iff)
  have last: "list_all (\<lambda>l. mainMatch l = None) (split_lines (text_of e (Key 11 None)))"
    using main [of "Key 11 None"] by (simp add: main_keys_def no_main_heading_def)
  have keys: "set (main_keys @ sub_keys) = set main_keys \<union> set sub_keys"
    by simp
  note side = main_headings sub_headings blank_no_heading nm ns last main_keys_def sub_keys_def
  have p0: "foldl parse_line
       \<lparr>ps_sections = Map.empty, currentSection = None, currentSubsection = None, buffer = []\<rparr>
       [[]]
     = \<lparr>ps_sections = Map.empty, currentSection = None, currentSubsection = None,
        buffer = [[]]\<rparr>"
    by (simp add: parse_line_text blank_no_heading)
  have p1: "foldl parse_line
       \<lparr>ps_sections = Map.empty, currentSection = None, currentSubsection = None,
        buffer = [[]]\<rparr>
       (''# 1. Identity & North Star'' # text_lines (text_of e (Key 1 None)) @ [[]])
     = \<lparr>ps_sections = Map.empty,
       currentSection = Some 1, currentSubsection = None,
       buffer = text_lines (text_of e (Key 1 None)) @ [[]]\<rparr>"
    by (rule step_first) (simp_all add: side)
  have p2: "foldl parse_line
       \<lparr>ps_sections = Map.empty,
       currentSection = Some 1, currentSubsection = None,
       buffer = text_lines (text_of e (Key 1 None)) @ [[]]\<rparr>
       (''# 2. Top 1-3 Priorities'' # text_lines (text_of e (Key 2 None)) @ [[]])
     = \<lparr>ps_sections = [Key 1 None \<mapsto> trim (join_nl (text_lines (text_of e (Key 1 None)) @ [[]]))],
       currentSection = Some 2, currentSubsection = None,
       buffer = text_lines (text_of e (Key 2 None)) @ [[]]\<rparr>"
    by (rule step_next) (simp_all add: side)
  have p3: "foldl parse_line
       \<lparr>ps_sections = [Key 1 None \<mapsto> trim (join_nl (text_lines (text_of e (Key 1 None)) @ [[]]))],
       currentSection = Some 2, currentSubsection = None,
       buffer = text_lines (text_of e (Key 2 None)) @ [[]]\<rparr>
       (''# 3. Time & Focus Plan'' # text_lines (text_of e (Key 3 None)) @ [[]])
     = \<lparr>ps_sections = [Key 1 None \<mapsto> trim (join_nl (text_lines (text_of e (Key 1 None)) @ [[]])),
        Key 2 None \<mapsto> trim (join_nl (text_lines (text_of e (Key 2 None)) @ [[]]))],
       currentSection = Some 3, currentSubsection = None,
       buffer = text_lines (text_of e (Key 3 None)) @ [[]]\<rparr>"
    by (rule step_next) (simp_all add: side)
  have p4: "foldl parse_line
       \<lparr>ps_sections = [Key 1 None \<mapsto> trim (join_nl (text_lines (text_of e (Key 1 None)) @ [[]])),
        Key 2 None \<mapsto> trim (join_nl (text_lines (text_of e (Key 2 None)) @ [[]]))],
       currentSection = Some 3, currentSubsection = None,
       buffer = text_lines (text_of e (Key 3 None)) @ [[]]\<rparr>
       (''# 4. Execution Checklist'' # [[]])
     = \<lparr>ps_sections = [Key 1 None \<mapsto> trim (join_nl (text_lines (text_of e (Key 1 None)) @ [[]])),
        Key 2 None \<mapsto> trim (join_nl (text_lines (text_of e (Key 2 None)) @ [[]])),
        Key 3 None \<mapsto> trim (join_nl (text_lines (text_of e (Key 3 None)) @ [[]]))],
       currentSection = Some 4, currentSubsection = None,
       buffer = [[]]\<rparr>"
    by (rule step_next) (simp_all add: side)
  have p5: "foldl parse_line
       \<lparr>ps_sections = [Key 1 None \<mapsto> trim (join_nl (text_lines (text_of e (Key 1 None)) @ [[]])),
        Key 2 None \<mapsto> trim (join_nl (text_lines (text_of e (Key 2 None)) @ [[]])),
        Key 3 None \<mapsto> trim (join_nl (text_lines (text_of e (Key 3 None)) @ [[]]))],
       currentSection = Some 4, currentSubsection = None,
       buffer = [[]]\<rparr>
       (''## Health'' # text_lines (text_of e (Key 4 (Some Health))) @ [[]])
     = \<lparr>ps_sections = [Key 1 None \<mapsto> trim (join_nl (text_lines (text_of e (Key 1 None)) @ [[]])),
        Key 2 None \<mapsto> trim (join_nl (text_lines (text_of e (Key 2 None)) @ [[]])),
        Key 3 None \<mapsto> trim (join_nl (text_lines (text_of e (Key 3 None)) @ [[]])),
        Key 4 None \<mapsto> trim (join_nl ([[]]))],
       currentSection = Some 4, currentSubsection = Some Health,
       buffer = text_lines (text_of e (Key 4 (Some Health))) @ [[]]\<rparr>"
    by (rule step_sub) (simp_all add: side)
  have p6: "foldl parse_line
       \<lparr>ps_sections = [Key 1 None \<mapsto> trim (join_nl (text_lines (text_of e (Key 1 None)) @ [[]])),
        Key 2 None \<mapsto> trim (join_nl (text_lines (text_of e (Key 2 None)) @ [[]])),
        Key 3 None \<mapsto> trim (join_nl (text_lines (text_of e (Key 3 None)) @ [[]])),
        Key 4 None \<mapsto> trim (join_nl ([[]]))],
       currentSection = Some 4, currentSubsection = Some Health,
       buffer = text_lines (text_of e (Key 4 (Some Health))) @ [[]]\<rparr>
       (''## Skill'' # text_lines (text_of e (Key 4 (Some Skill))) @ [[]])
     = \<lparr>ps_sections = [Key 1 None \<mapsto> trim (join_nl (text_lines (text_of e (Key 1 None)) @ [[]])),
        Key 2 None \<mapsto> trim (join_nl (text_lines (text_of e (Key 2 None)) @ [[]])),
        Key 3 None \<mapsto> trim (join_nl (text_lines (text_of e (Key 3 None)) @ [[]])),
        Key 4 None \<mapsto> trim (join_nl ([[]])),
        Key 4 (Some Health) \<mapsto> trim (join_nl (text_lines (text_of e (Key 4 (Some Health))) @ [[]]))],
       currentSection = Some 4, currentSubsection = Some Skill,
       buffer = text_lines (text_of e (Key 4 (Some Skill))) @ [[]]\<rparr>"
    by (rule step_sub) (simp_all add: side)
  have p7: "foldl parse_line
       \<lparr>ps_sections = [Key 1 None \<mapsto> trim (join_nl (text_lines (text_of e (Key 1 None)) @ [[]])),
        Key 2 None \<mapsto> trim (join_nl (text_lines (text_of e (Key 2 None)) @ [[]])),
        Key 3 None \<mapsto> trim (join_nl (text_lines (text_of e (Key 3 None)) @ [[]])),
        Key 4 None \<mapsto> trim (join_nl ([[]])),
        Key 4 (Some Health) \<mapsto> trim (join_nl (text_lines (text_of e (Key 4 (Some Health))) @ [[]]))],
       currentSection = Some 4, currentSubsection = Some Skill,
       buffer = text_lines (text_of e (Key 4 (Some Skill))) @ [[]]\<rparr>
       (''## Money'' # text_lines (text_of e (Key 4 (Some Money))) @ [[]])
     = \<lparr>ps_sections = [Key 1 None \<mapsto> trim (join_nl (text_lines (text_of e (Key 1 None)) @ [[]])),
        Key 2 None \<mapsto> trim (join_nl (text_lines (text_of e (Key 2 None)) @ [[]])),
        Key 3 None \<mapsto> trim (join_nl (text_lines (text_of e (Key 3 None)) @ [[]])),
        Key 4 None \<mapsto> trim (join_nl ([[]])),
        Key 4 (Some Health) \<mapsto> trim (join_nl (text_lines (text_of e (Key 4 (Some Health))) @ [[]])),
        Key 4 (Some Skill) \<mapsto> trim (join_nl (text_lines (text_of e (Key 4 (Some Skill))) @ [[]]))],
       currentSection = Some 4, currentSubsection = Some Money,
       buffer = text_lines (text_of e (Key 4 (Some Money))) @ [[]]\<rparr>"
    by (rule step_sub) (simp_all add: side)
  have p8: "foldl parse_line
       \<lparr>ps_sections = [Key 1 None \<mapsto> trim (join_nl (text_lines (text_of e (Key 1 None)) @ [[]])),
        Key 2 None \<mapsto> trim (join_nl (text_lines (text_of e (Key 2 None)) @ [[]])),
        Key 3 None \<mapsto> trim (join_nl (text_lines (text_of e (Key 3 None)) @ [[]])),
        Key 4 None \<mapsto> trim (join_nl ([[]])),
        Key 4 (Some Health) \<mapsto> trim (join_nl (text_lines (text_of e (Key 4 (Some Health))) @ [[]])),
        Key 4 (Some Skill) \<mapsto> trim (join_nl (text_lines (text_of e (Key 4 (Some Skill))) @ [[]]))],
       currentSection = Some 4, currentSubsection = Some Money,
       buffer = text_lines (text_of e (Key 4 (Some Money))) @ [[]]\<rparr>
       (''## Leverage'' # text_lines (text_of e (Key 4 (Some Leverage))) @ [[]])
     = \<lparr>ps_sections = [Key 1 None \<mapsto> trim (join_nl (text_lines (text_of e (Key 1 None)) @ [[]])),
        Key 2 None \<mapsto> trim (join_nl (text_lines (text_of e (Key 2 None)) @ [[]])),
        Key 3 None \<mapsto> trim (join_nl (text_lines (text_of e (Key 3 None)) @ [[]])),
        Key 4 None \<mapsto> trim (join_nl ([[]])),
        Key 4 (Some Health) \<mapsto> trim (join_nl (text_lines (text_of e (Key 4 (Some Health))) @ [[]])),
        Key 4 (Some Skill) \<mapsto> trim (join_nl (text_lines (text_of e (Key 4 (Some Skill))) @ [[]])),
        Key 4 (Some Money) \<mapsto> trim (join_nl (text_lines (text_of e (Key 4 (Some Money))) @ [[]]))],
       currentSection = Some 4, currentSubsection = Some Leverage,
       buffer = text_lines (text_of e (Key 4 (Some Leverage))) @ [[]]\<rparr>"
    by (rule step_sub) (simp_all add: side)
  have p9: "foldl parse_line
       \<lparr>ps_sections = [Key 1 None \<mapsto> trim (join_nl (text_lines (text_of e (Key 1 None)) @ [[]])),
        Key 2 None \<mapsto> trim (join_nl (text_lines (text_of e (Key 2 None)) @ [[]])),
        Key 3 None \<mapsto> trim (join_nl (text_lines (text_of e (Key 3 None)) @ [[]])),
        Key 4 None \<mapsto> trim (join_nl ([[]])),
        Key 4 (Some Health) \<mapsto> trim (join_nl (text_lines (text_of e (Key 4 (Some Health))) @ [[]])),
        Key 4 (Some Skill) \<mapsto> trim (join_nl (text_lines (text_of e (Key 4 (Some Skill))) @ [[]])),
        Key 4 (Some Money) \<mapsto> trim (join_nl (text_lines (text_of e (Key 4 (Some Money))) @ [[]]))],
       currentSection = Some 4, currentSubsection = Some Leverage,
       buffer = text_lines (text_of e (Key 4 (Some Leverage))) @ [[]]\<rparr>
       (''## Mind'' # text_lines (text_of e (Key 4 (Some Mind))) @ [[]])
     = \<lparr>ps_sections = [Key 1 None \<mapsto> trim (join_nl (text_lines (text_of e (Key 1 None)) @ [[]])),
        Key 2 None \<mapsto> trim (join_nl (text_lines (text_of e (Key 2 None)) @ [[]])),
        Key 3 None \<mapsto> trim (join_nl (text_lines (text_of e (Key 3 None)) @ [[]])),
        Key 4 None \<mapsto> trim (join_nl ([[]])),
        Key 4 (Some Health) \<mapsto> trim (join_nl (text_lines (text_of e (Key 4 (Some Health))) @ [[]])),
        Key 4 (Some Skill) \<mapsto> trim (join_nl (text_lines (text_of e (Key 4 (Some Skill))) @ [[]])),
        Key 4 (Some Money) \<mapsto> trim (join_nl (text_lines (text_of e (Key 4 (Some Money))) @ [[]])),
        Key 4 (Some Leverage) \<mapsto> trim (join_nl (text_lines (text_of e (Key 4 (Some Leverage))) @ [[]]))],
       currentSection = Some 4, currentSubsection = Some Mind,
       buffer = text_lines (text_of e (Key 4 (Some Mind))) @ [[]]\<rparr>"
    by (rule step_sub) (simp_all add: side)
  have p10: "foldl parse_line
       \<lparr>ps_sections = [Key 1 None \<mapsto> trim (join_nl (text_lines (text_of e (Key 1 None)) @ [[]])),
        Key 2 None \<mapsto> trim (join_nl (text_lines (text_of e (Key 2 None)) @ [[]])),
        Key 3 None \<mapsto> trim (join_nl (text_lines (text_of e (Key 3 None)) @ [[]])),
        Key 4 None \<mapsto> trim (join_nl ([[]])),
        Key 4 (Some Health) \<mapsto> trim (join_nl (text_lines (text_of e (Key 4 (Some Health))) @ [[]])),
        Key 4 (Some Skill) \<mapsto> trim (join_nl (text_lines (text_of e (Key 4 (Some Skill))) @ [[]])),
        Key 4 (Some Money) \<mapsto> trim (join_nl (text_lines (text_of e (Key 4 (Some Money))) @ [[]])),
        Key 4 (Some Leverage) \<mapsto> trim (join_nl (text_lines (text_of e (Key 4 (Some Leverage))) @ [[]]))],
       currentSection = Some 4, currentSubsection = Some Mind,
       buffer = text_lines (text_of e (Key 4 (Some Mind))) @ [[]]\<rparr>
       (''# 5. Personal Balance Sheet'' # text_lines (text_of e (Key 5 None)) @ [[]])
     = \<lparr>ps_sections = [Key 1 None \<mapsto> trim (join_nl (text_lines (text_of e (Key 1 None)) @ [[]])),
        Key 2 None \<mapsto> trim (join_nl (text_lines (text_of e (Key 2 None)) @ [[]])),
        Key 3 None \<mapsto> trim (join_nl (text_lines (text_of e (Key 3 None)) @ [[]])),
        Key 4 None \<mapsto> trim (join_nl ([[]])),
        Key 4 (Some Health) \<mapsto> trim (join_nl (text_lines (text_of e (Key 4 (Some Health))) @ [[]])),
        Key 4 (Some Skill) \<mapsto> trim (join_nl (text_lines (text_of e (Key 4 (Some Skill))) @ [[]])),
        Key 4 (Some Money) \<mapsto> trim (join_nl (text_lines (text_of e (Key 4 (Some Money))) @ [[]])),
        Key 4 (Some Leverage) \<mapsto> trim (join_nl (text_lines (text_of e (Key 4 (Some Leverage))) @ [[]])),
        Key 4 (Some Mind) \<mapsto> trim (join_nl (text_lines (text_of e (Key 4 (Some Mind))) @ [[]]))],
       currentSection = Some 5, currentSubsection = None,
       buffer = text_lines (text_of e (Key 5 None)) @ [[]]\<rparr>"
    by (rule step_next) (simp_all add: side)
  have p11: "foldl parse_line
       \<lparr>ps_sections = [Key 1 None \<mapsto> trim (join_nl (text_lines (text_of e (Key 1 None)) @ [[]])),
        Key 2 None \<mapsto> trim (join_nl (text_lines (text_of e (Key 2 None)) @ [[]])),
        Key 3 None \<mapsto> trim (join_nl (text_lines (text_of e (Key 3 None)) @ [[]])),
        Key 4 None \<mapsto> trim (join_nl ([[]])),
        Key 4 (Some Health) \<mapsto> trim (join_nl (text_lines (text_of e (Key 4 (Some Health))) @ [[]])),
        Key 4 (Some Skill) \<mapsto> trim (join_nl (text_lines (text_of e (Key 4 (Some Skill))) @ [[]])),
        Key 4 (Some Money) \<mapsto> trim (join_nl (text_lines (text_of e (Key 4 (Some Money))) @ [[]])),
        Key 4 (Some Leverage) \<mapsto> trim (join_nl (text_lines (text_of e (Key 4 (Some Leverage))) @ [[]])),
        Key 4 (Some Mind) \<mapsto> trim (join_nl (text_lines (text_of e (Key 4 (Some Mind))) @ [[]]))],
       currentSection = Some 5, currentSubsection = None,
       buffer = text_lines (text_of e (Key 5 None)) @ [[]]\<rparr>
       (''# 6. Decisions & Thinking Log'' # text_lines (text_of e (Key 6 None)) @ [[]])
     = \<lparr>ps_sections = [Key 1 None \<mapsto> trim (join_nl (text_lines (text_of e (Key 1 None)) @ [[]])),
        Key 2 None \<mapsto> trim (join_nl (text_lines (text_of e (Key 2 None)) @ [[]])),
        Key 3 None \<mapsto> trim (join_nl (text_lines (text_of e (Key 3 None)) @ [[]])),
        Key 4 None \<mapsto> trim (join_nl ([[]])),
        Key 4 (Some Health) \<mapsto> trim (join_nl (text_lines (text_of e (Key 4 (Some Health))) @ [[]])),
        Key 4 (Some Skill) \<mapsto> trim (join_nl (text_lines (text_of e (Key 4 (Some Skill))) @ [[]])),
        Key 4 (Some Money) \<mapsto> trim (join_nl (text_lines (text_of e (Key 4 (Some Money))) @ [[]])),
        Key 4 (Some Leverage) \<mapsto> trim (join_nl (text_lines (text_of e (Key 4 (Some Leverage))) @ [[]])),
        Key 4 (Some Mind) \<mapsto> trim (join_nl (text_lines (text_of e (Key 4 (Some Mind))) @ [[]])),
        Key 5 None \<mapsto> trim (join_nl (text_lines (text_of e (Key 5 None)) @ [[]]))],
       currentSection = Some 6, currentSubsection = None,
       buffer = text_lines (text_of e (Key 6 None)) @ [[]]\<rparr>"
    by (rule step_next) (simp_all add: side)
  have p12: "foldl parse_line
       \<lparr>ps_sections = [Key 1 None \<mapsto> trim (join_nl (text_lines (text_of e (Key 1 None)) @ [[]])),
        Key 2 None \<mapsto> trim (join_nl (text_lines (text_of e (Key 2 None)) @ [[]])),
        Key 3 None \<mapsto> trim (join_nl (text_lines (text_of e (Key 3 None)) @ [[]])),
        Key 4 None \<mapsto> trim (join_nl ([[]])),
        Key 4 (Some Health) \<mapsto> trim (join_nl (text_lines (text_of e (Key 4 (Some Health))) @ [[]])),
        Key 4 (Some Skill) \<mapsto> trim (join_nl (text_lines (text_of e (Key 4 (Some Skill))) @ [[]])),
        Key 4 (Some Money) \<mapsto> trim (join_nl (text_lines (text_of e (Key 4 (Some Money))) @ [[]])),
        Key 4 (Some Leverage) \<mapsto> trim (join_nl (text_lines (text_of e (Key 4 (Some Leverage))) @ [[]])),
        Key 4 (Some Mind) \<mapsto> trim (join_nl (text_lines (text_of e (Key 4 (Some Mind))) @ [[]])),
        Key 5 None \<mapsto> trim (join_nl (text_lines (text_of e (Key 5 None)) @ [[]]))],
       currentSection = Some 6, currentSubsection = None,
       buffer = text_lines (text_of e (Key 6 None)) @ [[]]\<rparr>
       (''# 7. Failure & Weakness Audit'' # text_lines (text_of e (Key 7 None)) @ [[]])
     = \<lparr>ps_sections = [Key 1 None \<mapsto> trim (join_nl (text_lines (text_of e (Key 1 None)) @ [[]])),
        Key 2 None \<mapsto> trim (join_nl (text_lines (text_of e (Key 2 None)) @ [[]])),
        Key 3 None \<mapsto> trim (join_nl (text_lines (text_of e (Key 3 None)) @ [[]])),
        Key 4 None \<mapsto> trim (join_nl ([[]])),
        Key 4 (Some Health) \<mapsto> trim (join_nl (text_lines (text_of e (Key 4 (Some Health))) @ [[]])),
        Key 4 (Some Skill) \<mapsto> trim (join_nl (text_lines (text_of e (Key 4 (Some Skill))) @ [[]])),
        Key 4 (Some Money) \<mapsto> trim (join_nl (text_lines (text_of e (Key 4 (Some Money))) @ [[]])),
        Key 4 (Some Leverage) \<mapsto> trim (join_nl (text_lines (text_of e (Key 4 (Some Leverage))) @ [[]])),
        Key 4 (Some Mind) \<mapsto> trim (join_nl (text_lines (text_of e (Key 4 (Some Mind))) @ [[]])),
        Key 5 None \<mapsto> trim (join_nl (text_lines (text_of e (Key 5 None)) @ [[]])),
        Key 6 None \<mapsto> trim (join_nl (text_lines (text_of e (Key 6 None)) @ [[]]))],
       currentSection = Some 7, currentSubsection = None,
       buffer = text_lines (text_of e (Key 7 None)) @ [[]]\<rparr>"
    by (rule step_next) (simp_all add: side)
  have p13: "foldl parse_line
       \<lparr>ps_sections = [Key 1 None \<mapsto> trim (join_nl (text_lines (text_of e (Key 1 None)) @ [[]])),
        Key 2 None \<mapsto> trim (join_nl (text_lines (text_of e (Key 2 None)) @ [[]])),
        Key 3 None \<mapsto> trim (join_nl (text_lines (text_of e (Key 3 None)) @ [[]])),
        Key 4 None \<mapsto> trim (join_nl ([[]])),
        Key 4 (Some Health) \<mapsto> trim (join_nl (text_lines (text_of e (Key 4 (Some Health))) @ [[]])),
        Key 4 (Some Skill) \<mapsto> trim (join_nl (text_lines (text_of e (Key 4 (Some Skill))) @ [[]])),
        Key 4 (Some Money) \<mapsto> trim (join_nl (text_lines (text_of e (Key 4 (Some Money))) @ [[]])),
        Key 4 (Some Leverage) \<mapsto> trim (join_nl (text_lines (text_of e (Key 4 (Some Leverage))) @ [[]])),
        Key 4 (Some Mind) \<mapsto> trim (join_nl (text_lines (text_of e (Key 4 (Some Mind))) @ [[]])),
        Key 5 None \<mapsto> trim (join_nl (text_lines (text_of e (Key 5 None)) @ [[]])),
        Key 6 None \<mapsto> trim (join_nl (text_lines (text_of e (Key 6 None)) @ [[]]))],
       currentSection = Some 7, currentSubsection = None,
       buffer = text_lines (text_of e (Key 7 None)) @ [[]]\<rparr>
       (''# 8. Fix & Upgrade Plan'' # text_lines (text_of e (Key 8 None)) @ [[]])
     = \<lparr>ps_sections = [Key 1 None \<mapsto> trim (join_nl (text_lines (text_of e (Key 1 None)) @ [[]])),
        Key 2 None \<mapsto> trim (join_nl (text_lines (text_of e (Key 2 None)) @ [[]])),
        Key 3 None \<mapsto> trim (join_nl (text_lines (text_of e (Key 3 None)) @ [[]])),
        Key 4 None \<mapsto> trim (join_nl ([[]])),
        Key 4 (Some Health) \<mapsto> trim (join_nl (text_lines (text_of e (Key 4 (Some Health))) @ [[]])),
        Key 4 (Some Skill) \<mapsto> trim (join_nl (text_lines (text_of e (Key 4 (Some Skill))) @ [[]])),
        Key 4 (Some Money) \<mapsto> trim (join_nl (text_lines (text_of e (Key 4 (Some Money))) @ [[]])),
        Key 4 (Some Leverage) \<mapsto> trim (join_nl (text_lines (text_of e (Key 4 (Some Leverage))) @ [[]])),
        Key 4 (Some Mind) \<mapsto> trim (join_nl (text_lines (text_of e (Key 4 (Some Mind))) @ [[]])),
        Key 5 None \<mapsto> trim (join_nl (text_lines (text_of e (Key 5 None)) @ [[]])),
        Key 6 None \<mapsto> trim (join_nl (text_lines (text_of e (Key 6 None)) @ [[]])),
        Key 7 None \<mapsto> trim (join_nl (text_lines (text_of e (Key 7 None)) @ [[]]))],
       currentSection = Some 8, currentSubsection = None,
       buffer = text_lines (text_of e (Key 8 None)) @ [[]]\<rparr>"
    by (rule step_next) (simp_all add: side)
  have p14: "foldl parse_line
       \<lparr>ps_sections = [Key 1 None \<mapsto> trim (join_nl (text_lines (text_of e (Key 1 None)) @ [[]])),
        Key 2 None \<mapsto> trim (join_nl (text_lines (text_of e (Key 2 None)) @ [[]])),
        Key 3 None \<mapsto> trim (join_nl (text_lines (text_of e (Key 3 None)) @ [[]])),
        Key 4 None \<mapsto> trim (join_nl ([[]])),
        Key 4 (Some Health) \<mapsto> trim (join_nl (text_lines (text_of e (Key 4 (Some Health))) @ [[]])),
        Key 4 (Some Skill) \<mapsto> trim (join_nl (text_lines (text_of e (Key 4 (Some Skill))) @ [[]])),
        Key 4 (Some Money) \<mapsto> trim (join_nl (text_lines (text_of e (Key 4 (Some Money))) @ [[]])),
        Key 4 (Some Leverage) \<mapsto> trim (join_nl (text_lines (text_of e (Key 4 (Some Leverage))) @ [[]])),
        Key 4 (Some Mind) \<mapsto> trim (join_nl (text_lines (text_of e (Key 4 (Some Mind))) @ [[]])),
        Key 5 None \<mapsto> trim (join_nl (text_lines (text_of e (Key 5 None)) @ [[]])),
        Key 6 None \<mapsto> trim (join_nl (text_lines (text_of e (Key 6 None)) @ [[]])),
        Key 7 None \<mapsto> trim (join_nl (text_lines (text_of e (Key 7 None)) @ [[]]))],
       currentSection = Some 8, currentSubsection = None,
       buffer = text_lines (text_of e (Key 8 None)) @ [[]]\<rparr>
       (''# 9. Wins & Progress'' # text_lines (text_of e (Key 9 None)) @ [[]])
     = \<lparr>ps_sections = [Key 1 None \<mapsto> trim (join_nl (text_lines (text_of e (Key 1 None)) @ [[]])),
        Key 2 None \<mapsto> trim (join_nl (text_lines (text_of e (Key 2 None)) @ [[]])),
        Key 3 None \<mapsto> trim (join_nl (text_lines (text_of e (Key 3 None)) @ [[]])),
        Key 4 None \<mapsto> trim (join_nl ([[]])),
        Key 4 (Some Health) \<mapsto> trim (join_nl (text_lines (text_of e (Key 4 (Some Health))) @ [[]])),
        Key 4 (Some Skill) \<mapsto> trim (join_nl (text_lines (text_of e (Key 4 (Some Skill))) @ [[]])),
        Key 4 (Some Money) \<mapsto> trim (join_nl (text_lines (text_of e (Key 4 (Some Money))) @ [[]])),
        Key 4 (Some Leverage) \<mapsto> trim (join_nl (text_lines (text_of e (Key 4 (Some Leverage))) @ [[]])),
        Key 4 (Some Mind) \<mapsto> trim (join_nl (text_lines (text_of e (Key 4 (Some Mind))) @ [[]])),
        Key 5 None \<mapsto> trim (join_nl (text_lines (text_of e (Key 5 None)) @ [[]])),
        Key 6 None \<mapsto> trim (join_nl (text_lines (text_of e (Key 6 None)) @ [[]])),
        Key 7 None \<mapsto> trim (join_nl (text_lines (text_of e (Key 7 None)) @ [[]])),
        Key 8 None \<mapsto> trim (join_nl (text_lines (text_of e (Key 8 None)) @ [[]]))],
       currentSection = Some 9, currentSubsection = None,
       buffer = text_lines (text_of e (Key 9 None)) @ [[]]\<rparr>"
    by (rule step_next) (simp_all add: side)
  have p15: "foldl parse_line
       \<lparr>ps_sections = [Key 1 None \<mapsto> trim (join_nl (text_lines (text_of e (Key 1 None)) @ [[]])),
        Key 2 None \<mapsto> trim (join_nl (text_lines (text_of e (Key 2 None)) @ [[]])),
        Key 3 None \<mapsto> trim (join_nl (text_lines (text_of e (Key 3 None)) @ [[]])),
        Key 4 None \<mapsto> trim (join_nl ([[]])),
        Key 4 (Some Health) \<mapsto> trim (join_nl (text_lines (text_of e (Key 4 (Some Health))) @ [[]])),
        Key 4 (Some Skill) \<mapsto> trim (join_nl (text_lines (text_of e (Key 4 (Some Skill))) @ [[]])),
        Key 4 (Some Money) \<mapsto> trim (join_nl (text_lines (text_of e (Key 4 (Some Money))) @ [[]])),
        Key 4 (Some Leverage) \<mapsto> trim (join_nl (text_lines (text_of e (Key 4 (Some Leverage))) @ [[]])),
        Key 4 (Some Mind) \<mapsto> trim (join_nl (text_lines (text_of e (Key 4 (Some Mind))) @ [[]])),
        Key 5 None \<mapsto> trim (join_nl (text_lines (text_of e (Key 5 None)) @ [[]])),
        Key 6 None \<mapsto> trim (join_nl (text_lines (text_of e (Key 6 None)) @ [[]])),
        Key 7 None \<mapsto> trim (join_nl (text_lines (text_of e (Key 7 None)) @ [[]])),
        Key 8 None \<mapsto> trim (join_nl (text_lines (text_of e (Key 8 None)) @ [[]]))],
       currentSection = Some 9, currentSubsection = None,
       buffer = text_lines (text_of e (Key 9 None)) @ [[]]\<rparr>
       (''# 10. Self-Score (0-10)'' # text_lines (text_of e (Key 10 None)) @ [[]])
     = \<lparr>ps_sections = [Key 1 None \<mapsto> trim (join_nl (text_lines (text_of e (Key 1 None)) @ [[]])),
        Key 2 None \<mapsto> trim (join_nl (text_lines (text_of e (Key 2 None)) @ [[]])),
        Key 3 None \<mapsto> trim (join_nl (text_lines (text_of e (Key 3 None)) @ [[]])),
        Key 4 None \<mapsto> trim (join_nl ([[]])),
        Key 4 (Some Health) \<mapsto> trim (join_nl (text_lines (text_of e (Key 4 (Some Health))) @ [[]])),
        Key 4 (Some Skill) \<mapsto> trim (join_nl (text_lines (text_of e (Key 4 (Some Skill))) @ [[]])),
        Key 4 (Some Money) \<mapsto> trim (join_nl (text_lines (text_of e (Key 4 (Some Money))) @ [[]])),
        Key 4 (Some Leverage) \<mapsto> trim (join_nl (text_lines (text_of e (Key 4 (Some Leverage))) @ [[]])),
        Key 4 (Some Mind) \<mapsto> trim (join_nl (text_lines (text_of e (Key 4 (Some Mind))) @ [[]])),
        Key 5 None \<mapsto> trim (join_nl (text_lines (text_of e (Key 5 None)) @ [[]])),
        Key 6 None \<mapsto> trim (join_nl (text_lines (text_of e (Key 6 None)) @ [[]])),
        Key 7 None \<mapsto> trim (join_nl (text_lines (text_of e (Key 7 None)) @ [[]])),
        Key 8 None \<mapsto> trim (join_nl (text_lines (text_of e (Key 8 None)) @ [[]])),
        Key 9 None \<mapsto> trim (join_nl (text_lines (text_of e (Key 9 None)) @ [[]]))],
       currentSection = Some 10, currentSubsection = None,
       buffer = text_lines (text_of e (Key 10 None)) @ [[]]\<rparr>"
    by (rule step_next) (simp_all add: side)
  have p16: "foldl parse_line
       \<lparr>ps_sections = [Key 1 None \<mapsto> trim (join_nl (text_lines (text_of e (Key 1 None)) @ [[]])),
        Key 2 None \<mapsto> trim (join_nl (text_lines (text_of e (Key 2 None)) @ [[]])),
        Key 3 None \<mapsto> trim (join_nl (text_lines (text_of e (Key 3 None)) @ [[]])),
        Key 4 None \<mapsto> trim (join_nl ([[]])),
        Key 4 (Some Health) \<mapsto> trim (join_nl (text_lines (text_of e (Key 4 (Some Health))) @ [[]])),
        Key 4 (Some Skill) \<mapsto> trim (join_nl (text_lines (text_of e (Key 4 (Some Skill))) @ [[]])),
        Key 4 (Some Money) \<mapsto> trim (join_nl (text_lines (text_of e (Key 4 (Some Money))) @ [[]])),
        Key 4 (Some Leverage) \<mapsto> trim (join_nl (text_lines (text_of e (Key 4 (Some Leverage))) @ [[]])),
        Key 4 (Some Mind) \<mapsto> trim (join_nl (text_lines (text_of e (Key 4 (Some Mind))) @ [[]])),
        Key 5 None \<mapsto> trim (join_nl (text_lines (text_of e (Key 5 None)) @ [[]])),
        Key 6 None \<mapsto> trim (join_nl (text_lines (text_of e (Key 6 None)) @ [[]])),
        Key 7 None \<mapsto> trim (join_nl (text_lines (text_of e (Key 7 None)) @ [[]])),
        Key 8 None \<mapsto> trim (join_nl (text_lines (text_of e (Key 8 None)) @ [[]])),
        Key 9 None \<mapsto> trim (join_nl (text_lines (text_of e (Key 9 None)) @ [[]]))],
       currentSection = Some 10, currentSubsection = None,
       buffer = text_lines (text_of e (Key 10 None)) @ [[]]\<rparr>
       (''# 11. Night Close Reflection'' # split_lines (text_of e (Key 11 None)))
     = \<lparr>ps_sections = [Key 1 None \<mapsto> trim (join_nl (text_lines (text_of e (Key 1 None)) @ [[]])),
        Key 2 None \<mapsto> trim (join_nl (text_lines (text_of e (Key 2 None)) @ [[]])),
        Key 3 None \<mapsto> trim (join_nl (text_lines (text_of e (Key 3 None)) @ [[]])),
        Key 4 None \<mapsto> trim (join_nl ([[]])),
        Key 4 (Some Health) \<mapsto> trim (join_nl (text_lines (text_of e (Key 4 (Some Health))) @ [[]])),
        Key 4 (Some Skill) \<mapsto> trim (join_nl (text_lines (text_of e (Key 4 (Some Skill))) @ [[]])),
        Key 4 (Some Money) \<mapsto> trim (join_nl (text_lines (text_of e (Key 4 (Some Money))) @ [[]])),
        Key 4 (Some Leverage) \<mapsto> trim (join_nl (text_lines (text_of e (Key 4 (Some Leverage))) @ [[]])),
        Key 4 (Some Mind) \<mapsto> trim (join_nl (text_lines (text_of e (Key 4 (Some Mind))) @ [[]])),
        Key 5 None \<mapsto> trim (join_nl (text_lines (text_of e (Key 5 None)) @ [[]])),
        Key 6 None \<mapsto> trim (join_nl (text_lines (text_of e (Key 6 None)) @ [[]])),
        Key 7 None \<mapsto> trim (join_nl (text_lines (text_of e (Key 7 None)) @ [[]])),
        Key 8 None \<mapsto> trim (join_nl (text_lines (text_of e (Key 8 None)) @ [[]])),
        Key 9 None \<mapsto> trim (join_nl (text_lines (text_of e (Key 9 None)) @ [[]])),
        Key 10 None \<mapsto> trim (join_nl (text_lines (text_of e (Key 10 None)) @ [[]]))],
       currentSection = Some 11, currentSubsection = None,
       buffer = split_lines (text_of e (Key 11 None))\<rparr>"
    by (rule step_next) (simp_all add: side)
  have "parseSections (join_nl (body_lines e)) = ps_sections (flushBuffer
       \<lparr>ps_sections = [Key 1 None \<mapsto> trim (join_nl (text_lines (text_of e (Key 1 None)) @ [[]])),
        Key 2 None \<mapsto> trim (join_nl (text_lines (text_of e (Key 2 None)) @ [[]])),
        Key 3 None \<mapsto> trim (join_nl (text_lines (text_of e (Key 3 None)) @ [[]])),
        Key 4 None \<mapsto> trim (join_nl ([[]])),
        Key 4 (Some Health) \<mapsto> trim (join_nl (text_lines (text_of e (Key 4 (Some Health))) @ [[]])),
        Key 4 (Some Skill) \<mapsto> trim (join_nl (text_lines (text_of e (Key 4 (Some Skill))) @ [[]])),
        Key 4 (Some Money) \<mapsto> trim (join_nl (text_lines (text_of e (Key 4 (Some Money))) @ [[]])),
        Key 4 (Some Leverage) \<mapsto> trim (join_nl (text_lines (text_of e (Key 4 (Some Leverage))) @ [[]])),
        Key 4 (Some Mind) \<mapsto> trim (join_nl (text_lines (text_of e (Key 4 (Some Mind))) @ [[]])),
        Key 5 None \<mapsto> trim (join_nl (text_lines (text_of e (Key 5 None)) @ [[]])),
        Key 6 None \<mapsto> trim (join_nl (text_lines (text_of e (Key 6 None)) @ [[]])),
        Key 7 None \<mapsto> trim (join_nl (text_lines (text_of e (Key 7 None)) @ [[]])),
        Key 8 None \<mapsto> trim (join_nl (text_lines (text_of e (Key 8 None)) @ [[]])),
        Key 9 None \<mapsto> trim (join_nl (text_lines (text_of e (Key 9 None)) @ [[]])),
        Key 10 None \<mapsto> trim (join_nl (text_lines (text_of e (Key 10 None)) @ [[]]))],
       currentSection = Some 11, currentSubsection = None,
       buffer = split_lines (text_of e (Key 11 None))\<rparr>)"
    unfolding parseSections_def body_split
    by (simp only: foldl_append p0 p1 p2 p3 p4 p5 p6 p7 p8 p9 p10 p11 p12 p13 p14 p15 p16)
  moreover have "trim (join_nl [[]]) = []"
    by (simp add: trim_def)
  ultimately show ?thesis
    by (simp add: flushBuffer_def block_text normalise_text_def)
qed



text \<open>
  The metadata of a valid entry comes back as it went in; its texts are read from the
  lines after the metadata block.
\<close>

lemma fromMarkdown_valid:
  assumes "valid_metadata e"
  shows "fromMarkdown (toMarkdown e)
       = Some (e\<lparr>sections := parseSections (join_nl (body_lines e))\<rparr>)"
proof -
  have sch: "schema e = JNum (Fin 1)"
    using assms by (simp add: valid_metadata_def CURRENT_SCHEMA_def)
  then have sch': "or_else (schema e) (JNum CURRENT_SCHEMA) = JNum (Fin 1)"
    by (simp add: or_else_def truthy_def)
  have d: "round_trips (date e)" "truthy (date e)"
    using assms date_round_trips [of "date e"] by (simp_all add: valid_metadata_def)
  have sc: "score_value (score e)" "score_value (discipline e)" "score_value (focus e)"
    "score_value (energy e)" "score_value (mood e)" and nw: "numeric_value (net_worth_delta e)"
    using assms by (simp_all add: valid_metadata_def)
  note num = sc [THEN score_numeric] nw
  have defined: "v \<noteq> JUndefined" if "numeric_value v" for v
    using that by (auto simp: numeric_value_def)
  have "round_trips (JNum (Fin 1))"
    by (rule numeric_round_trips) (simp add: numeric_value_def)
  then have fm: "parseFrontmatter (toMarkdown e) =
     ([''schema'' \<mapsto> JNum (Fin 1), ''date'' \<mapsto> date e,
       ''score'' \<mapsto> score e, ''discipline'' \<mapsto> discipline e, ''focus'' \<mapsto> focus e,
       ''energy'' \<mapsto> energy e, ''mood'' \<mapsto> mood e,
       ''net_worth_delta'' \<mapsto> net_worth_delta e],
      join_nl (body_lines e))"
    using parseFrontmatter_toMarkdown [of e] d(1) num [THEN numeric_round_trips]
    unfolding sch' by blast
  have "fromMarkdown (toMarkdown e) =
      migrateEntry \<lparr>schema = JNum (Fin 1), date = date e, score = score e,
        discipline = discipline e, focus = focus e, energy = energy e, mood = mood e,
        net_worth_delta = net_worth_delta e,
        sections = parseSections (join_nl (body_lines e))\<rparr>"
    using d(2) num [THEN defined]
    by (simp add: fromMarkdown_def fm lookup_def or_else_def nullish_or_def truthy_def)
  also have "\<dots> = Some (e\<lparr>sections := parseSections (join_nl (body_lines e))\<rparr>)"
    using sch
    by (cases e) (simp add: migrateEntry_eq or_else_def truthy_def to_number_def
        CURRENT_SCHEMA_def)
  finally show ?thesis .
qed


text \<open>
  An entry as \<^verbatim>\<open>createEntry\<close> makes it has fifteen texts, none for section 4 itself. It
  comes back with an empty text for section 4 added, which \<^verbatim>\<open>parseSections\<close> stores when
  it meets the first subsection heading.
\<close>

lemma fromMarkdown_toMarkdown_createEntry:
  assumes "date_format d"
  shows "fromMarkdown (toMarkdown (createEntry d))
       = Some ((createEntry d)\<lparr>sections := (sections (createEntry d))(Key 4 None \<mapsto> [])\<rparr>)"
proof -
  let ?e = "createEntry d"
  have meta: "valid_metadata ?e"
    using assms
    by (simp add: valid_metadata_def createEntry_def date_value_def score_value_def
        numeric_value_def in_score_range_def)
  have texts: "text_of ?e k = []" for k
    by (simp add: text_of_def createEntry_def)
  have blank: "no_main_heading []" "no_sub_heading []" "normalise_text [] = []"
    by (simp_all add: no_main_heading_def no_sub_heading_def normalise_text_def
        split_lines_single single_line_def blank_no_heading trim_def)
  have "parseSections (join_nl (body_lines ?e)) = (sections ?e)(Key 4 None \<mapsto> [])"
    unfolding parseSections_body [of ?e, unfolded texts, OF blank(1,2)] blank(3)
    by (rule ext) (simp add: createEntry_def)
  then show ?thesis
    using fromMarkdown_valid [OF meta] by simp
qed




end
